(* ===== verification/Prelude.thy ===== *)
theory Prelude
  imports Complex_Main
begin

text \<open>
  Shared vocabulary of the development.  A Python \<^verbatim>\<open>dict\<close> is an association list in
  insertion order (\<open>dict_set\<close> overwrites in place or appends, as CPython does), a Python
  \<^verbatim>\<open>set\<close> is a list without repetitions (its iteration order is not specified by the
  language, and no property below depends on it), \<^verbatim>\<open>time.time()\<close> and
  \<^verbatim>\<open>time.monotonic()\<close> are real numbers handed to every operation that reads a clock, and
  an exception is the left injection of a sum.  The generic lemmas on these types and the
  locale of state machines with an invariant are used by every component.
\<close>

section \<open>Named collections\<close>

named_theorems dict_simps \<open>rewriting of dictionary operations\<close>
named_theorems model_defs \<open>non-recursive definitions that proofs unfold\<close>

section \<open>Types\<close>

type_synonym ('k, 'v) dict = "('k \<times> 'v) list"
type_synonym time = real

datatype py_exc =
    ValueError string
  | TypeError string
  | KeyError string
  | IndexError
  | OSError string
  | StructError
  | AttributeError string
  | OtherError string string

type_synonym 'a result = "py_exc + 'a"

section \<open>Dictionaries\<close>

abbreviation dict_get :: "('k, 'v) dict \<Rightarrow> 'k \<Rightarrow> 'v option" where
  "dict_get d k \<equiv> map_of d k"

abbreviation dict_keys :: "('k, 'v) dict \<Rightarrow> 'k list" where
  "dict_keys d \<equiv> map fst d"

abbreviation dict_values :: "('k, 'v) dict \<Rightarrow> 'v list" where
  "dict_values d \<equiv> map snd d"

abbreviation dict_wf :: "('k, 'v) dict \<Rightarrow> bool" where
  "dict_wf d \<equiv> distinct (map fst d)"

primrec dict_set :: "'k \<Rightarrow> 'v \<Rightarrow> ('k, 'v) dict \<Rightarrow> ('k, 'v) dict" where
  "dict_set k v [] = [(k, v)]"
| "dict_set k v (p # d) = (if fst p = k then (k, v) # d else p # dict_set k v d)"

definition dict_del :: "'k \<Rightarrow> ('k, 'v) dict \<Rightarrow> ('k, 'v) dict" where
  "dict_del k d = filter (\<lambda>p. fst p \<noteq> k) d"

definition dict_upd :: "'k \<Rightarrow> ('v \<Rightarrow> 'v) \<Rightarrow> ('k, 'v) dict \<Rightarrow> ('k, 'v) dict" where
  "dict_upd k f d = map (\<lambda>p. (fst p, if fst p = k then f (snd p) else snd p)) d"

definition dict_has :: "('k, 'v) dict \<Rightarrow> 'k \<Rightarrow> bool" where
  "dict_has d k \<longleftrightarrow> map_of d k \<noteq> None"

definition dict_get_or :: "('k, 'v) dict \<Rightarrow> 'k \<Rightarrow> 'v \<Rightarrow> 'v" where
  "dict_get_or d k v = (case map_of d k of Some w \<Rightarrow> w | None \<Rightarrow> v)"

section \<open>Sets\<close>

definition set_add :: "'a \<Rightarrow> 'a list \<Rightarrow> 'a list" where
  "set_add x xs = (if x \<in> set xs then xs else xs @ [x])"

definition set_discard :: "'a \<Rightarrow> 'a list \<Rightarrow> 'a list" where
  "set_discard x xs = filter (\<lambda>y. y \<noteq> x) xs"

section \<open>Lemmas on dictionaries and sets\<close>

lemma map_of_dict_set [simp, dict_simps]: "map_of (dict_set k v d) = (map_of d)(k \<mapsto> v)"
  by (induction d) (auto simp: fun_eq_iff)

lemma map_of_dict_del [simp, dict_simps]: "map_of (dict_del k d) = (map_of d)(k := None)"
  by (induction d) (auto simp: dict_del_def fun_eq_iff)

lemma map_of_dict_upd [simp, dict_simps]:
  "map_of (dict_upd k f d) = (map_of d)(k := map_option f (map_of d k))"
  by (induction d) (auto simp: dict_upd_def fun_eq_iff)

lemma dict_has_iff: "dict_has d k \<longleftrightarrow> k \<in> set (map fst d)"
  by (auto simp: dict_has_def map_of_eq_None_iff)

lemma dict_has_simps [simp]:
  "dict_has (dict_set k v d) k' \<longleftrightarrow> k' = k \<or> dict_has d k'"
  "dict_has (dict_del k d) k' \<longleftrightarrow> k' \<noteq> k \<and> dict_has d k'"
  "dict_has (dict_upd k f d) k' \<longleftrightarrow> dict_has d k'"
  by (auto simp: dict_has_def)

lemma keys_dict_set [simp]: "fst ` set (dict_set k v d) = insert k (fst ` set d)"
  by (induction d) auto

lemma keys_dict_del [simp]: "fst ` set (dict_del k d) = fst ` set d - {k}"
  by (auto simp: dict_del_def)

lemma keys_dict_upd [simp]: "map fst (dict_upd k f d) = map fst d"
  by (induction d) (auto simp: dict_upd_def)

lemma keys_set_dict_upd [simp]: "fst ` set (dict_upd k f d) = fst ` set d"
  by (metis keys_dict_upd list.set_map)

lemma wf_dict_set [simp, intro]: "dict_wf d \<Longrightarrow> dict_wf (dict_set k v d)"
  by (induction d) auto

lemma wf_dict_del [simp, intro]: "dict_wf d \<Longrightarrow> dict_wf (dict_del k d)"
  by (auto simp: dict_del_def distinct_map_filter)

lemma wf_dict_upd: "dict_wf (dict_upd k f d) \<longleftrightarrow> dict_wf d"
  by simp

lemma wf_dict_filter [simp, intro]: "dict_wf d \<Longrightarrow> dict_wf (filter P d)"
  by (rule distinct_map_filter)

lemma dict_del_fresh [simp]: "k \<notin> fst ` set d \<Longrightarrow> dict_del k d = d"
  by (auto simp: dict_del_def filter_id_conv)

lemma dict_set_fresh: "k \<notin> fst ` set d \<Longrightarrow> dict_set k v d = d @ [(k, v)]"
  by (induction d) auto

lemma length_dict_upd [simp]: "length (dict_upd k f d) = length d"
  by (simp add: dict_upd_def)

lemma length_dict_set:
  "length (dict_set k v d) = (if k \<in> fst ` set d then length d else Suc (length d))"
  by (induction d) auto

lemma length_dict_del_le: "length (dict_del k d) \<le> length d"
  by (simp add: dict_del_def)

lemma set_dict_set: "dict_wf d \<Longrightarrow> set (dict_set k v d) = insert (k, v) {p \<in> set d. fst p \<noteq> k}"
  by (induction d) force+

lemma set_dict_del: "set (dict_del k d) = {p \<in> set d. fst p \<noteq> k}"
  by (auto simp: dict_del_def)

lemma dict_mem_iff: "dict_wf d \<Longrightarrow> (k, v) \<in> set d \<longleftrightarrow> map_of d k = Some v"
  by auto

lemma map_of_filter_keys: "map_of (filter (\<lambda>p. P (fst p)) d) k = (if P k then map_of d k else None)"
  by (induction d) auto

lemma map_of_filter_vals:
  "dict_wf d \<Longrightarrow> map_of (filter (\<lambda>p. Q (fst p) (snd p)) d) k =
     (case map_of d k of Some v \<Rightarrow> if Q k v then Some v else None | None \<Rightarrow> None)"
  by (induction d) (auto split: option.splits simp: map_of_eq_None_iff image_iff)

lemma map_of_map_vals: "map_of (map (\<lambda>p. (fst p, g (fst p) (snd p))) d) k = map_option (g k) (map_of d k)"
  by (induction d) auto

lemma set_set_add [simp]: "set (set_add x xs) = insert x (set xs)"
  by (auto simp: set_add_def)

lemma distinct_set_add [simp]: "distinct (set_add x xs) \<longleftrightarrow> distinct xs"
  by (auto simp: set_add_def)

lemma set_set_discard [simp]: "set (set_discard x xs) = set xs - {x}"
  by (auto simp: set_discard_def)

lemma set_discard_Nil: "set_discard x xs = [] \<longleftrightarrow> set xs \<subseteq> {x}"
  by (auto simp: set_discard_def filter_empty_conv)

lemma distinct_set_discard [simp, intro]: "distinct xs \<Longrightarrow> distinct (set_discard x xs)"
  by (simp add: set_discard_def)

lemma all_less_Suc_split: "(\<forall>i < Suc n. P i) \<longleftrightarrow> P 0 \<and> (\<forall>i < n. P (Suc i))"
  by (metis Suc_less_eq less_Suc_eq_0_disj zero_less_Suc)

section \<open>Machines with an invariant\<close>

text \<open>
  The interface between a component and the properties of its runs: a step function, a guard
  on the events that may occur in a state and an invariant that every guarded step keeps.  A
  component interprets it with its own step, and gets the invariant of every run.  The second
  locale is the case without a guard.
\<close>

locale guarded_machine =
  fixes step :: "'s \<Rightarrow> 'e \<Rightarrow> 's"
    and may :: "'s \<Rightarrow> 'e \<Rightarrow> bool"
    and inv :: "'s \<Rightarrow> bool"
  assumes guarded_step: "inv s \<Longrightarrow> may s e \<Longrightarrow> inv (step s e)"
begin

primrec run_ok :: "'s \<Rightarrow> 'e list \<Rightarrow> bool" where
  "run_ok s [] = True"
| "run_ok s (e # es) = (may s e \<and> run_ok (step s e) es)"

lemma guarded_run: "inv s \<Longrightarrow> run_ok s es \<Longrightarrow> inv (foldl step s es)"
  by (induction es arbitrary: s) (auto intro: guarded_step)

lemma run_ok_append: "run_ok s (es @ fs) \<longleftrightarrow> run_ok s es \<and> run_ok (foldl step s es) fs"
  by (induction es arbitrary: s) auto

lemma run_ok_iff: "run_ok s es \<longleftrightarrow> (\<forall>i < length es. may (foldl step s (take i es)) (es ! i))"
proof (induction es arbitrary: s)
  case (Cons e es)
  show ?case unfolding run_ok.simps Cons by (simp add: all_less_Suc_split)
qed simp

lemma guarded_run_prefix: "inv s \<Longrightarrow> run_ok s (es @ fs) \<Longrightarrow> inv (foldl step s es)"
  by (simp add: run_ok_append guarded_run)

end

locale invariant_machine =
  fixes step :: "'s \<Rightarrow> 'e \<Rightarrow> 's"
    and inv :: "'s \<Rightarrow> bool"
  assumes step_keeps: "inv s \<Longrightarrow> inv (step s e)"
begin

lemma run_keeps: "inv s \<Longrightarrow> inv (foldl step s es)"
  by (induction es arbitrary: s) (auto intro: step_keeps)

end

sublocale invariant_machine \<subseteq> guarded: guarded_machine step "\<lambda>_ _. True" inv
  by unfold_locales (rule step_keeps)

end
