(* ===== verification/Frame.thy ===== *)
theory Frame
  imports Bytes
begin

text \<open>
  The data-plane frames of \<^verbatim>\<open>common/frame.py\<close>: an 8-byte header (version, type, payload
  length, sequence number), the payload and a 16-byte GCM tag.  The type and the sequence
  number are unbounded Python integers on the way in: \<^verbatim>\<open>struct.pack\<close> rejects a type
  outside one byte, and the sequence number is reduced modulo \<open>2 ^ 32\<close>.
\<close>

section \<open>Constants\<close>

definition FRAME_VERSION :: int where [model_defs]: "FRAME_VERSION = 1"
definition FRAME_HEADER_SIZE :: nat where [model_defs]: "FRAME_HEADER_SIZE = 8"
definition GCM_TAG_SIZE :: nat where [model_defs]: "GCM_TAG_SIZE = 16"
definition MAX_FRAME_PAYLOAD :: nat where [model_defs]: "MAX_FRAME_PAYLOAD = 65535"

definition FRAME_DATA :: int where [model_defs]: "FRAME_DATA = 1"
definition FRAME_PUNCH :: int where [model_defs]: "FRAME_PUNCH = 2"
definition FRAME_KEEPALIVE :: int where [model_defs]: "FRAME_KEEPALIVE = 3"
definition FRAME_CLOSE :: int where [model_defs]: "FRAME_CLOSE = 4"
definition FRAME_FORWARDED_STREAM :: int where [model_defs]: "FRAME_FORWARDED_STREAM = 5"
definition FRAME_PUNCH_ACK :: int where [model_defs]: "FRAME_PUNCH_ACK = 6"

section \<open>Errors and headers\<close>

datatype frame_error =
    FrameError
  | InvalidFrameVersionError
  | FrameTooLargeError
  | FrameStructError

record frame_header =
  fh_version :: int
  fh_type :: int
  fh_payload_length :: nat
  fh_seq_num :: nat

definition total_size :: "frame_header \<Rightarrow> nat" where
  "total_size h = FRAME_HEADER_SIZE + fh_payload_length h + GCM_TAG_SIZE"

section \<open>Packing and unpacking\<close>

text \<open>\<^verbatim>\<open>struct.Struct("!BBHI").pack\<close>: every field must fit its width.\<close>

definition header_pack :: "int \<Rightarrow> int \<Rightarrow> nat \<Rightarrow> nat \<Rightarrow> frame_error + bytes" where
  "header_pack version type len seq =
     (if version < 0 \<or> 256 \<le> version \<or> type < 0 \<or> 256 \<le> type \<or> 65536 \<le> len \<or> 4294967296 \<le> seq
      then Inl FrameStructError
      else Inr (be_bytes 1 (nat version) @ be_bytes 1 (nat type) @ be_bytes 2 len @ be_bytes 4 seq))"

definition pack_frame :: "int \<Rightarrow> bytes \<Rightarrow> int \<Rightarrow> int \<Rightarrow> bytes option \<Rightarrow> frame_error + bytes" where
  "pack_frame type payload seq_num version auth_tag =
     (if length payload > MAX_FRAME_PAYLOAD then Inl FrameTooLargeError
      else if version \<noteq> FRAME_VERSION then Inl InvalidFrameVersionError
      else let tag = (case auth_tag of Some t \<Rightarrow> t | None \<Rightarrow> replicate GCM_TAG_SIZE 0) in
        if length tag \<noteq> GCM_TAG_SIZE then Inl FrameError
        else case header_pack version type (length payload) (nat (seq_num mod 4294967296)) of
               Inl e \<Rightarrow> Inl e
             | Inr header \<Rightarrow> Inr (header @ payload @ tag))"

definition unpack_frame :: "bytes \<Rightarrow> frame_error + (frame_header \<times> bytes \<times> bytes)" where
  "unpack_frame data =
     (if length data < FRAME_HEADER_SIZE + GCM_TAG_SIZE then Inl FrameError
      else
        let version = int (be_val (take 1 data));
            type = int (be_val (take 1 (drop 1 data)));
            payload_length = be_val (take 2 (drop 2 data));
            seq_num = be_val (take 4 (drop 4 data))
        in if version \<noteq> FRAME_VERSION then Inl InvalidFrameVersionError
           else
             let expected = FRAME_HEADER_SIZE + payload_length + GCM_TAG_SIZE in
             if length data < expected then Inl FrameError
             else
               let header = \<lparr>fh_version = version, fh_type = type,
                              fh_payload_length = payload_length, fh_seq_num = seq_num\<rparr>;
                   start = FRAME_HEADER_SIZE;
                   ciphertext = take payload_length (drop start data);
                   tag = take GCM_TAG_SIZE (drop (start + payload_length) data)
               in Inr (header, ciphertext, tag))"

definition make_punch_frame :: "int \<Rightarrow> bytes \<Rightarrow> frame_error + bytes" where
  "make_punch_frame seq_num payload = pack_frame FRAME_PUNCH payload seq_num FRAME_VERSION None"

definition make_punch_ack_frame :: "int \<Rightarrow> bytes \<Rightarrow> frame_error + bytes" where
  "make_punch_ack_frame seq_num payload = pack_frame FRAME_PUNCH_ACK payload seq_num FRAME_VERSION None"

definition make_keepalive_frame :: "int \<Rightarrow> frame_error + bytes" where
  "make_keepalive_frame seq_num = pack_frame FRAME_KEEPALIVE [] seq_num FRAME_VERSION None"

definition make_close_frame :: "int \<Rightarrow> frame_error + bytes" where
  "make_close_frame seq_num = pack_frame FRAME_CLOSE [] seq_num FRAME_VERSION None"

text \<open>
  The name of a type byte as it comes out of \<open>unpack_frame\<close>; the fallback prints the byte
  with the \<^verbatim>\<open>02x\<close> format.
\<close>

definition frame_type_name :: "byte \<Rightarrow> string" where
  "frame_type_name b =
     (let t = int (unat b) in
      if t = FRAME_DATA then ''DATA''
      else if t = FRAME_PUNCH then ''PUNCH''
      else if t = FRAME_PUNCH_ACK then ''PUNCH_ACK''
      else if t = FRAME_KEEPALIVE then ''KEEPALIVE''
      else if t = FRAME_CLOSE then ''CLOSE''
      else if t = FRAME_FORWARDED_STREAM then ''FORWARDED_STREAM''
      else ''UNKNOWN(0x'' @ hex2 b @ '')'')"

section \<open>Lemmas\<close>

lemma header_pack_Inr:
  "header_pack v t n s = Inr h \<Longrightarrow>
     h = be_bytes 1 (nat v) @ be_bytes 1 (nat t) @ be_bytes 2 n @ be_bytes 4 s
     \<and> 0 \<le> v \<and> v < 256 \<and> 0 \<le> t \<and> t < 256 \<and> n < 65536 \<and> s < 4294967296"
  by (auto simp: header_pack_def split: if_splits)

lemma header_fields:
  assumes "data = be_bytes 1 v @ be_bytes 1 t @ be_bytes 2 n @ be_bytes 4 s @ rest"
  shows "take 1 data = be_bytes 1 v" "take 1 (drop 1 data) = be_bytes 1 t"
    "take 2 (drop 2 data) = be_bytes 2 n" "take 4 (drop 4 data) = be_bytes 4 s"
    "drop 8 data = rest" "length data = 8 + length rest"
  by (simp_all add: assms del: be_bytes.simps)

lemma header_split:
  "take 1 data @ take 1 (drop 1 data) @ take 2 (drop 2 data) @ take 4 (drop 4 data) = take 8 data"
proof -
  have "take 8 data = take 1 data @ take 7 (drop 1 data)"
    using take_add [of 1 7 data] by simp
  moreover have "take 7 (drop 1 data) = take 1 (drop 1 data) @ take 6 (drop 2 data)"
    using take_add [of 1 6 "drop 1 data"] by (simp add: numeral_2_eq_2)
  moreover have "take 6 (drop 2 data) = take 2 (drop 2 data) @ take 4 (drop 4 data)"
    using take_add [of 2 4 "drop 2 data"] by simp
  ultimately show ?thesis by simp
qed

lemma unpack_frame_wire:
  assumes "t < 256" "length payload < 65536" "s < 4294967296" "length tag = 16"
  shows "unpack_frame (be_bytes 1 1 @ be_bytes 1 t @ be_bytes 2 (length payload) @ be_bytes 4 s
           @ payload @ tag @ extra) =
         Inr (\<lparr>fh_version = 1, fh_type = int t, fh_payload_length = length payload,
               fh_seq_num = s\<rparr>, payload, tag)"
proof -
  define data where "data = be_bytes 1 1 @ be_bytes 1 t @ be_bytes 2 (length payload)
    @ be_bytes 4 s @ payload @ tag @ extra"
  note f = header_fields [OF data_def]
  have v: "be_val (take 1 data) = 1" "be_val (take 1 (drop 1 data)) = t"
    "be_val (take 2 (drop 2 data)) = length payload" "be_val (take 4 (drop 4 data)) = s"
    unfolding f using assms by (simp_all add: be_val_be_bytes del: be_bytes.simps)
  have d: "drop (8 + length payload) data = tag @ extra"
    using f(5) by (simp add: drop_drop [symmetric] add.commute del: drop_drop)
  show ?thesis
    unfolding data_def [symmetric] unpack_frame_def Let_def v model_defs f(6) d
    using assms f(5) by simp
qed

lemma pack_frame_Inr:
  assumes "pack_frame t payload q v tg = Inr w"
  shows "v = 1 \<and> 0 \<le> t \<and> t < 256 \<and> length payload < 65536
    \<and> w = be_bytes 1 1 @ be_bytes 1 (nat t) @ be_bytes 2 (length payload)
          @ be_bytes 4 (nat (q mod 4294967296)) @ payload
          @ (case tg of Some x \<Rightarrow> x | None \<Rightarrow> replicate 16 0)
    \<and> length (case tg of Some x \<Rightarrow> x | None \<Rightarrow> replicate 16 (0 :: byte)) = 16"
  using assms
  by (cases tg) (auto simp: pack_frame_def model_defs Let_def split: if_splits sum.splits
           dest!: header_pack_Inr simp del: be_bytes.simps)

lemma pack_frame_ok:
  assumes "length payload \<le> 65535" "0 \<le> t" "t < 256"
    and "length (case tg of Some x \<Rightarrow> x | None \<Rightarrow> replicate 16 (0 :: byte)) = 16"
  shows "\<exists>w. pack_frame t payload q 1 tg = Inr w"
  using assms by (auto simp: pack_frame_def model_defs Let_def header_pack_def split: option.splits)

text \<open>C8: a frame that packs is read back exactly: unpacking the packed bytes, even followed
  by trailing bytes, gives the header that was packed (the sequence number reduced modulo
  \<open>2 ^ 32\<close>), the payload and the tag (sixteen zero bytes when none was given).\<close>

theorem unpack_pack_frame:
  assumes "pack_frame type payload seq_num version auth_tag = Inr wire"
  shows "unpack_frame (wire @ extra) =
    Inr (\<lparr>fh_version = FRAME_VERSION, fh_type = type, fh_payload_length = length payload,
           fh_seq_num = nat (seq_num mod 4294967296)\<rparr>,
         payload,
         case auth_tag of Some t \<Rightarrow> t | None \<Rightarrow> replicate GCM_TAG_SIZE 0)"
proof -
  note w = pack_frame_Inr [OF assms]
  have s: "nat (seq_num mod 4294967296) < 4294967296"
    by (simp add: nat_less_iff)
  show ?thesis
    using unpack_frame_wire [of "nat type" payload "nat (seq_num mod 4294967296)" _ extra] w s
    by (auto simp: model_defs simp del: be_bytes.simps split: option.splits)
qed

theorem unpack_pack_frame_witness:
  "\<exists>wire. pack_frame 1 [7, 8] (-1) 1 None = Inr wire \<and>
     unpack_frame (wire @ [9]) =
       Inr (\<lparr>fh_version = 1, fh_type = 1, fh_payload_length = 2, fh_seq_num = 4294967295\<rparr>,
            [7, 8], replicate 16 0)"
proof -
  obtain wire where w: "pack_frame 1 [7, 8] (-1) 1 None = Inr wire"
    using pack_frame_ok [of "[7, 8]" 1 None "-1"] by auto
  show ?thesis
    using w unpack_pack_frame [OF w, of "[9]"] by (simp add: model_defs)
qed

text \<open>Whatever \<open>unpack_frame\<close> accepts re-packs to the same bytes: on a datagram of exactly
  the declared size, packing the unpacked parts gives the datagram back, so no two different
  datagrams of their declared size have the same meaning.\<close>

theorem pack_unpack_frame:
  assumes "unpack_frame data = Inr (h, payload, tag)" and "length data = total_size h"
  shows "pack_frame (fh_type h) payload (int (fh_seq_num h)) (fh_version h) (Some tag) = Inr data"
proof -
  define n where "n = be_val (take 2 (drop 2 data))"
  define rest where "rest = drop 8 data"
  from assms(1) have len: "24 + n \<le> length data" and ver: "be_val (take 1 data) = 1"
    and h: "h = \<lparr>fh_version = 1, fh_type = int (be_val (take 1 (drop 1 data))),
        fh_payload_length = n, fh_seq_num = be_val (take 4 (drop 4 data))\<rparr>"
    and p: "payload = take n rest" and t: "tag = take 16 (drop n rest)"
    by (auto simp: unpack_frame_def model_defs Let_def n_def rest_def add.commute split: if_splits)
  have total: "length data = 24 + n" using assms(2) h by (simp add: total_size_def model_defs)
  have parts: "be_bytes 1 1 = take 1 data"
    "be_bytes 1 (be_val (take 1 (drop 1 data))) = take 1 (drop 1 data)"
    "be_bytes 2 n = take 2 (drop 2 data)"
    "be_bytes 4 (be_val (take 4 (drop 4 data))) = take 4 (drop 4 data)"
    using be_bytes_take [of 1 data] be_bytes_take [of 1 "drop 1 data"]
      be_bytes_take [of 2 "drop 2 data"] be_bytes_take [of 4 "drop 4 data"]
    by (simp_all only: n_def ver) (use total in simp_all)
  have bounds: "be_val (take 1 (drop 1 data)) < 256" "n < 65536"
    "be_val (take 4 (drop 4 data)) < 4294967296"
    using be_val_take_bound [of 1 "drop 1 data"] be_val_take_bound [of 2 "drop 2 data"]
      be_val_take_bound [of 4 "drop 4 data"] by (simp_all add: n_def)
  have "take 1 data @ take 1 (drop 1 data) @ take 2 (drop 2 data) @ take 4 (drop 4 data)
      = take 8 data"
    by (rule header_split)
  moreover have "take 16 (drop n rest) = drop n rest"
    using total by (intro take_all) (simp add: rest_def)
  then have "take n rest @ take 16 (drop n rest) = rest"
    by (simp only: append_take_drop_id)
  ultimately have whole: "be_bytes 1 1 @ be_bytes 1 (be_val (take 1 (drop 1 data))) @ be_bytes 2 n
      @ be_bytes 4 (be_val (take 4 (drop 4 data))) @ payload @ tag = data"
    unfolding parts p t rest_def by (metis append.assoc append_take_drop_id)
  have lens: "length payload = n" "length tag = 16" using total p t by (simp_all add: rest_def)
  show ?thesis
    using whole lens bounds h
    by (simp add: pack_frame_def header_pack_def model_defs Let_def nat_mod_as_int zmod_int
        del: be_bytes.simps)
qed

theorem pack_unpack_frame_witness:
  "pack_frame 6 [5] 3 1 (Some (replicate 16 2)) =
     Inr ([1, 6, 0, 1, 0, 0, 0, 3, 5] @ replicate 16 2)"
proof -
  let ?data = "[1, 6, 0, 1, 0, 0, 0, 3, 5] @ replicate 16 2 :: bytes"
  let ?h = "\<lparr>fh_version = 1, fh_type = 6, fh_payload_length = 1, fh_seq_num = 3\<rparr>"
  have u: "unpack_frame ?data = Inr (?h, [5], replicate 16 2)"
    by (simp add: unpack_frame_def model_defs be_val_def)
  have "length ?data = total_size ?h" by (simp add: total_size_def model_defs)
  from pack_unpack_frame [OF u this] show ?thesis by simp
qed

end
