(* ===== verification/Json.thy ===== *)
theory Json
  imports Bytes
begin

text \<open>
  The part of Python's \<^verbatim>\<open>json\<close> module that the control channel uses: \<^verbatim>\<open>json.dumps\<close> with
  compact separators and \<^verbatim>\<open>ensure_ascii=False\<close>, the UTF-8 codec around it, and
  \<^verbatim>\<open>json.loads\<close>.  A float is kept as its literal text (CPython prints the shortest literal
  that reads back to the same float).  The parser recurses with the length of its input as
  fuel, which is enough because every recursive call has consumed a character; the theorem
  at the end shows that every well-formed value survives printing and parsing, so the fuel
  never cuts a printed value short.
\<close>

section \<open>Values\<close>

datatype json =
    JNull
  | JBool bool
  | JInt int
  | JFloat string
  | JStr string
  | JArr "json list"
  | JObj "(string \<times> json) list"

section \<open>Printing\<close>

abbreviation quote :: char where "quote \<equiv> CHR 0x22"
abbreviation backslash :: char where "backslash \<equiv> CHR 0x5C"

definition escape_char :: "char \<Rightarrow> string" where
  "escape_char c =
     (if c = quote then [backslash, quote]
      else if c = backslash then [backslash, backslash]
      else if c = CHR 0x0A then [backslash, CHR ''n'']
      else if c = CHR 0x0D then [backslash, CHR ''r'']
      else if c = CHR 0x09 then [backslash, CHR ''t'']
      else if c = CHR 0x08 then [backslash, CHR ''b'']
      else if c = CHR 0x0C then [backslash, CHR ''f'']
      else if (of_char c :: nat) < 32
        then backslash # CHR ''u'' # CHR ''0'' # CHR ''0'' # hex2 (word_of_nat (of_char c))
      else [c])"

definition dump_str :: "string \<Rightarrow> string" where
  "dump_str s = quote # concat (map escape_char s) @ [quote]"

fun join :: "string \<Rightarrow> string list \<Rightarrow> string" where
  "join sep [] = []"
| "join sep [x] = x"
| "join sep (x # y # xs) = x @ sep @ join sep (y # xs)"

fun dumps :: "json \<Rightarrow> string" where
  "dumps JNull = ''null''"
| "dumps (JBool b) = (if b then ''true'' else ''false'')"
| "dumps (JInt i) = str_int i"
| "dumps (JFloat l) = l"
| "dumps (JStr s) = dump_str s"
| "dumps (JArr vs) = ''['' @ join '','' (map dumps vs) @ '']''"
| "dumps (JObj kvs) =
     ''{'' @ join '','' (map (\<lambda>kv. dump_str (fst kv) @ '':'' @ dumps (snd kv)) kvs) @ ''}''"

section \<open>UTF-8\<close>

definition cont_byte :: "byte \<Rightarrow> bool" where
  "cont_byte b \<longleftrightarrow> 128 \<le> unat b \<and> unat b < 192"

fun utf8_valid :: "bytes \<Rightarrow> bool" where
  "utf8_valid [] = True"
| "utf8_valid (a # bs) =
     (let n = unat a in
      if n < 128 then utf8_valid bs
      else if 194 \<le> n \<and> n < 224 then
        (case bs of b # r \<Rightarrow> cont_byte b \<and> utf8_valid r | _ \<Rightarrow> False)
      else if 224 \<le> n \<and> n < 240 then
        (case bs of b # c # r \<Rightarrow> cont_byte b \<and> cont_byte c
             \<and> (n = 224 \<longrightarrow> 160 \<le> unat b) \<and> (n = 237 \<longrightarrow> unat b < 160) \<and> utf8_valid r
         | _ \<Rightarrow> False)
      else if 240 \<le> n \<and> n < 245 then
        (case bs of b # c # d # r \<Rightarrow> cont_byte b \<and> cont_byte c \<and> cont_byte d
             \<and> (n = 240 \<longrightarrow> 144 \<le> unat b) \<and> (n = 244 \<longrightarrow> unat b < 144) \<and> utf8_valid r
         | _ \<Rightarrow> False)
      else False)"

definition utf8_decode :: "bytes \<Rightarrow> string option" where
  "utf8_decode bs = (if utf8_valid bs then Some (decode_raw bs) else None)"

text \<open>A code point as UTF-8 characters, for the \<^verbatim>\<open>\u\<close> escapes.\<close>

definition utf8_chars :: "nat \<Rightarrow> string" where
  "utf8_chars n = map (\<lambda>k. char_of k)
     (if n < 128 then [n]
      else if n < 2048 then [192 + n div 64, 128 + n mod 64]
      else if n < 65536 then [224 + n div 4096, 128 + n div 64 mod 64, 128 + n mod 64]
      else [240 + n div 262144, 128 + n div 4096 mod 64, 128 + n div 64 mod 64, 128 + n mod 64])"

section \<open>Parsing\<close>

definition is_digit :: "char \<Rightarrow> bool" where
  "is_digit c \<longleftrightarrow> 48 \<le> (of_char c :: nat) \<and> (of_char c :: nat) \<le> 57"

definition is_ws :: "char \<Rightarrow> bool" where
  "is_ws c \<longleftrightarrow> c = CHR '' '' \<or> c = CHR 0x09 \<or> c = CHR 0x0A \<or> c = CHR 0x0D"

abbreviation skip_ws :: "string \<Rightarrow> string" where
  "skip_ws \<equiv> dropWhile is_ws"

definition nat_of_digits :: "string \<Rightarrow> nat" where
  "nat_of_digits s = foldl (\<lambda>a c. a * 10 + (of_char c - 48)) 0 s"

definition p_nat :: "string \<Rightarrow> (string \<times> string) option" where
  "p_nat s =
     (case s of [] \<Rightarrow> None
      | c # t \<Rightarrow> if c = CHR ''0'' then Some ([c], t)
                else if is_digit c then Some (takeWhile is_digit s, dropWhile is_digit s)
                else None)"

definition p_frac :: "string \<Rightarrow> string \<times> string" where
  "p_frac s =
     (case s of [] \<Rightarrow> ([], s)
      | c # t \<Rightarrow> if c = CHR ''.'' \<and> takeWhile is_digit t \<noteq> []
                then (c # takeWhile is_digit t, dropWhile is_digit t) else ([], s))"

definition p_sign :: "string \<Rightarrow> string \<times> string" where
  "p_sign s = (case s of [] \<Rightarrow> ([], s)
     | c # t \<Rightarrow> if c = CHR ''+'' \<or> c = CHR ''-'' then ([c], t) else ([], s))"

definition p_exp :: "string \<Rightarrow> string \<times> string" where
  "p_exp s =
     (case s of [] \<Rightarrow> ([], s)
      | c # t \<Rightarrow>
          (let (sg, u) = p_sign t in
           if (c = CHR ''e'' \<or> c = CHR ''E'') \<and> takeWhile is_digit u \<noteq> []
           then (c # sg @ takeWhile is_digit u, dropWhile is_digit u) else ([], s)))"

definition p_unsigned :: "bool \<Rightarrow> string \<Rightarrow> (json \<times> string) option" where
  "p_unsigned neg s =
     (case p_nat s of None \<Rightarrow> None
      | Some (il, r1) \<Rightarrow>
          (let (fl, r2) = p_frac r1; (el, r3) = p_exp r2 in
           if fl = [] \<and> el = []
           then Some (JInt (if neg then - int (nat_of_digits il) else int (nat_of_digits il)), r3)
           else Some (JFloat ((if neg then [CHR ''-''] else []) @ il @ fl @ el), r3)))"

definition strip_prefix :: "string \<Rightarrow> string \<Rightarrow> string option" where
  "strip_prefix p s = (if take (length p) s = p then Some (drop (length p) s) else None)"

definition p_number :: "string \<Rightarrow> (json \<times> string) option" where
  "p_number s =
     (case s of [] \<Rightarrow> None
      | c # t \<Rightarrow>
          if c = CHR ''-'' then
            (case strip_prefix ''Infinity'' t of
               Some r \<Rightarrow> Some (JFloat ''-Infinity'', r)
             | None \<Rightarrow> p_unsigned True t)
          else p_unsigned False s)"

definition hex4 :: "string \<Rightarrow> nat option" where
  "hex4 s = (case map hex_val s of
     [Some a, Some b, Some c, Some d] \<Rightarrow> Some (((a * 16 + b) * 16 + c) * 16 + d)
   | _ \<Rightarrow> None)"

definition low_surrogate :: "string \<Rightarrow> nat option" where
  "low_surrogate s =
     (if take 2 s = [backslash, CHR ''u''] then
        (case hex4 (take 4 (drop 2 s)) of
           Some n \<Rightarrow> if 56320 \<le> n \<and> n < 57344 then Some n else None
         | None \<Rightarrow> None)
      else None)"

function p_str :: "string \<Rightarrow> (string \<times> string) option" where
  "p_str s =
     (case s of [] \<Rightarrow> None
      | c # t \<Rightarrow>
          if c = quote then Some ([], t)
          else if (of_char c :: nat) < 32 then None
          else if c \<noteq> backslash then map_option (\<lambda>(x, r). (c # x, r)) (p_str t)
          else
            (case t of [] \<Rightarrow> None
             | e # u \<Rightarrow>
                 (let simple = (\<lambda>k. map_option (\<lambda>(x, r). (k # x, r)) (p_str u)) in
                  if e = quote \<or> e = backslash \<or> e = CHR ''/'' then simple e
                  else if e = CHR ''b'' then simple (CHR 0x08)
                  else if e = CHR ''f'' then simple (CHR 0x0C)
                  else if e = CHR ''n'' then simple (CHR 0x0A)
                  else if e = CHR ''r'' then simple (CHR 0x0D)
                  else if e = CHR ''t'' then simple (CHR 0x09)
                  else if e = CHR ''u'' then
                    (case hex4 (take 4 u) of None \<Rightarrow> None
                     | Some n \<Rightarrow>
                         (let v = drop 4 u in
                          case (if 55296 \<le> n \<and> n < 56320 then low_surrogate v else None) of
                            Some m \<Rightarrow> map_option (\<lambda>(x, r).
                              (utf8_chars (65536 + (n - 55296) * 1024 + (m - 56320)) @ x, r))
                              (p_str (drop 6 v))
                          | None \<Rightarrow> map_option (\<lambda>(x, r). (utf8_chars n @ x, r)) (p_str v)))
                  else None)))"
  by pat_completeness auto
termination
  by (relation "measure length") auto

declare p_str.simps [simp del]

function (sequential) p_val :: "nat \<Rightarrow> string \<Rightarrow> (json \<times> string) option"
  and p_elems :: "nat \<Rightarrow> string \<Rightarrow> (json list \<times> string) option"
  and p_members :: "nat \<Rightarrow> string \<Rightarrow> ((string \<times> json) list \<times> string) option" where
  "p_val 0 s = None"
| "p_val (Suc n) s =
     (case s of [] \<Rightarrow> None
      | c # t \<Rightarrow>
          if c = quote then map_option (\<lambda>(x, r). (JStr x, r)) (p_str t)
          else if c = CHR ''['' then
            (case skip_ws t of [] \<Rightarrow> None
             | d # u \<Rightarrow> if d = CHR '']'' then Some (JArr [], u)
                       else map_option (\<lambda>(vs, r). (JArr vs, r)) (p_elems n (d # u)))
          else if c = CHR ''{'' then
            (case skip_ws t of [] \<Rightarrow> None
             | d # u \<Rightarrow> if d = CHR ''}'' then Some (JObj [], u)
                       else map_option (\<lambda>(kvs, r). (JObj (foldl (\<lambda>d kv. dict_set (fst kv) (snd kv) d) [] kvs), r))
                              (p_members n (d # u)))
          else if c = CHR ''n'' then map_option (\<lambda>r. (JNull, r)) (strip_prefix ''ull'' t)
          else if c = CHR ''t'' then map_option (\<lambda>r. (JBool True, r)) (strip_prefix ''rue'' t)
          else if c = CHR ''f'' then map_option (\<lambda>r. (JBool False, r)) (strip_prefix ''alse'' t)
          else if c = CHR ''N'' then map_option (\<lambda>r. (JFloat ''NaN'', r)) (strip_prefix ''aN'' t)
          else if c = CHR ''I'' then map_option (\<lambda>r. (JFloat ''Infinity'', r)) (strip_prefix ''nfinity'' t)
          else p_number s)"
| "p_elems 0 s = None"
| "p_elems (Suc n) s =
     (case p_val n s of None \<Rightarrow> None
      | Some (v, r) \<Rightarrow>
          (case skip_ws r of [] \<Rightarrow> None
           | c # u \<Rightarrow>
               if c = CHR '']'' then Some ([v], u)
               else if c = CHR '','' then map_option (\<lambda>(vs, r'). (v # vs, r')) (p_elems n (skip_ws u))
               else None))"
| "p_members 0 s = None"
| "p_members (Suc n) s =
     (case s of [] \<Rightarrow> None
      | q # t \<Rightarrow>
          if q \<noteq> quote then None
          else
            (case p_str t of None \<Rightarrow> None
             | Some (k, r) \<Rightarrow>
                 (case skip_ws r of [] \<Rightarrow> None
                  | c # u \<Rightarrow>
                      if c \<noteq> CHR '':'' then None
                      else
                        (case p_val n (skip_ws u) of None \<Rightarrow> None
                         | Some (v, r2) \<Rightarrow>
                             (case skip_ws r2 of [] \<Rightarrow> None
                              | d # w \<Rightarrow>
                                  if d = CHR ''}'' then Some ([(k, v)], w)
                                  else if d = CHR '','' then
                                    map_option (\<lambda>(kvs, r'). ((k, v) # kvs, r')) (p_members n (skip_ws w))
                                  else None)))))"
  by pat_completeness auto
termination
  by (relation "measure (\<lambda>x. case x of Inl (n, _) \<Rightarrow> n | Inr (Inl (n, _)) \<Rightarrow> n | Inr (Inr (n, _)) \<Rightarrow> n)") auto

declare p_val.simps [simp del] p_elems.simps [simp del] p_members.simps [simp del]

definition loads :: "string \<Rightarrow> json option" where
  "loads s =
     (case p_val (Suc (length s)) (skip_ws s) of
        Some (v, r) \<Rightarrow> if skip_ws r = [] then Some v else None
      | None \<Rightarrow> None)"

section \<open>Well-formed values\<close>

text \<open>What a Python object handed to \<^verbatim>\<open>json.dumps\<close> satisfies: keys of a dict are distinct,
  texts are valid Unicode and a float prints as a number literal.\<close>

definition text_ok :: "string \<Rightarrow> bool" where
  "text_ok s \<longleftrightarrow> utf8_valid (encode s)"

definition float_ok :: "string \<Rightarrow> bool" where
  "float_ok l \<longleftrightarrow> p_number l = Some (JFloat l, []) \<and> list_all (\<lambda>c. (of_char c :: nat) < 128) l"

fun json_ok :: "json \<Rightarrow> bool" where
  "json_ok JNull = True"
| "json_ok (JBool b) = True"
| "json_ok (JInt i) = True"
| "json_ok (JFloat l) = float_ok l"
| "json_ok (JStr s) = text_ok s"
| "json_ok (JArr vs) = list_all json_ok vs"
| "json_ok (JObj kvs) = (dict_wf kvs \<and> list_all (\<lambda>kv. text_ok (fst kv) \<and> json_ok (snd kv)) kvs)"

section \<open>Reading back what was printed\<close>

definition follow :: "string \<Rightarrow> bool" where
  "follow r \<longleftrightarrow> r = [] \<or> hd r \<in> set '',]}''"

lemma while_append:
  assumes "r = [] \<or> \<not> P (hd r)"
  shows "takeWhile P (t @ r) = takeWhile P t" "dropWhile P (t @ r) = dropWhile P t @ r"
proof -
  have r: "takeWhile P r = []" "dropWhile P r = r" using assms by (cases r; simp)+
  show "takeWhile P (t @ r) = takeWhile P t" by (induction t) (auto simp: r)
  show "dropWhile P (t @ r) = dropWhile P t @ r" by (induction t) (auto simp: r)
qed

lemma follow_digit: "follow r \<Longrightarrow> r = [] \<or> \<not> is_digit (hd r)"
  by (auto simp: follow_def is_digit_def)

lemmas digits_follow = while_append [where P = is_digit, OF follow_digit]

lemma p_nat_append:
  assumes "follow r" "p_nat s = Some (l, x)"
  shows "p_nat (s @ r) = Some (l, x @ r)"
  using assms digits_follow [OF assms(1), of s]
  by (cases s) (auto simp: p_nat_def split: if_splits)

lemma p_frac_append:
  assumes "follow r"
  shows "p_frac (s @ r) = (fst (p_frac s), snd (p_frac s) @ r)"
proof (cases s)
  case Nil
  with assms show ?thesis by (cases r) (auto simp: p_frac_def follow_def)
next
  case (Cons c t)
  then show ?thesis using digits_follow [OF assms, of t] by (simp add: p_frac_def)
qed

lemma p_sign_append:
  assumes "follow r"
  shows "p_sign (s @ r) = (fst (p_sign s), snd (p_sign s) @ r)"
  using assms by (cases s; cases r) (auto simp: p_sign_def follow_def)

lemma p_exp_append:
  assumes "follow r"
  shows "p_exp (s @ r) = (fst (p_exp s), snd (p_exp s) @ r)"
proof (cases s)
  case Nil
  with assms show ?thesis by (cases r) (auto simp: p_exp_def follow_def Let_def split: prod.splits)
next
  case (Cons c t)
  then show ?thesis
    using digits_follow [OF assms, of "snd (p_sign t)"]
    by (simp add: p_exp_def p_sign_append [OF assms] Let_def split_beta)
qed

lemma p_unsigned_append:
  assumes "follow r" "p_unsigned neg s = Some (v, x)"
  shows "p_unsigned neg (s @ r) = Some (v, x @ r)"
proof -
  from assms(2) obtain il r1 where n: "p_nat s = Some (il, r1)"
    by (auto simp: p_unsigned_def split: option.splits)
  show ?thesis
    using assms(2) p_nat_append [OF assms(1) n]
    by (auto simp: p_unsigned_def n p_frac_append [OF assms(1)] p_exp_append [OF assms(1)]
        Let_def split_beta split: if_splits)
qed

lemma strip_prefix_follow:
  assumes "follow r" "list_all (\<lambda>c. c \<notin> set '',]}'') p" "strip_prefix p t = None"
  shows "strip_prefix p (t @ r) = None"
proof (rule ccontr)
  assume "strip_prefix p (t @ r) \<noteq> None"
  then have eq: "take (length p) (t @ r) = p" by (auto simp: strip_prefix_def split: if_splits)
  have short: "length t < length p \<and> r \<noteq> []"
  proof (intro conjI)
    show "length t < length p"
    proof (rule ccontr)
      assume "\<not> length t < length p"
      then have "take (length p) t = p" using eq by simp
      with assms(3) show False by (simp add: strip_prefix_def)
    qed
    show "r \<noteq> []" using eq assms(3) by (auto simp: strip_prefix_def)
  qed
  then have "p ! length t = hd r"
    using arg_cong [OF eq, of "\<lambda>z. z ! length t"] by (simp add: nth_append hd_conv_nth)
  with short assms(1,2) show False by (auto simp: follow_def list_all_length)
qed

lemma strip_prefix_append:
  "strip_prefix p t = Some x \<Longrightarrow> strip_prefix p (t @ r) = Some (x @ r)"
  by (metis (no_types, lifting) append_take_drop_id option.discI option.inject same_append_eq
      strip_prefix_def append_assoc append_eq_conv_conj)

lemma p_number_append:
  assumes "follow r" "p_number s = Some (v, x)"
  shows "p_number (s @ r) = Some (v, x @ r)"
proof -
  from assms(2) obtain c t where s: "s = c # t" by (auto simp: p_number_def split: list.splits)
  show ?thesis
    using assms strip_prefix_follow [OF assms(1), of "''Infinity''" t]
      strip_prefix_append [of "''Infinity''" t _ r]
      p_unsigned_append [OF assms(1), of True t] p_unsigned_append [OF assms(1), of False s]
    by (auto simp: p_number_def s split: if_splits option.splits)
qed

lemma p_number_first:
  "p_number s = Some y \<Longrightarrow> \<exists>c t. s = c # t \<and> (c = CHR ''-'' \<or> is_digit c)"
  by (auto simp: p_number_def p_unsigned_def p_nat_def is_digit_def split: list.splits if_splits option.splits)

lemma is_digit_dec: "(n :: nat) < 10 \<Longrightarrow> is_digit (char_of (48 + n))"
  by (simp add: is_digit_def of_char_of)

lemma dec_digits_digits: "list_all is_digit (dec_digits n)"
proof (induction n rule: dec_digits.induct)
  case (1 n)
  then show ?case by (subst dec_digits.simps) (auto simp: is_digit_dec)
qed

lemma nat_of_digits_snoc: "nat_of_digits (s @ [c]) = nat_of_digits s * 10 + (of_char c - 48)"
  by (simp add: nat_of_digits_def)

lemma nat_of_dec_digits: "nat_of_digits (dec_digits n) = n"
proof (induction n rule: dec_digits.induct)
  case (1 n)
  show ?case
  proof (cases "n < 10")
    case True
    then show ?thesis by (subst dec_digits.simps) (simp add: nat_of_digits_def of_char_of)
  next
    case False
    with 1 show ?thesis
      by (subst dec_digits.simps) (simp add: nat_of_digits_snoc of_char_of)
  qed
qed

lemma dec_digits_first: "\<exists>c t. dec_digits n = c # t \<and> is_digit c \<and> (c = CHR ''0'' \<longrightarrow> t = [])"
proof (induction n rule: dec_digits.induct)
  case (1 n)
  show ?case
  proof (cases "n < 10")
    case True
    then show ?thesis by (subst dec_digits.simps) (simp add: is_digit_dec)
  next
    case False
    with 1 obtain c t where c: "dec_digits (n div 10) = c # t" "is_digit c" "c = CHR ''0'' \<longrightarrow> t = []"
      by auto
    have "c \<noteq> CHR ''0''"
    proof
      assume z: "c = CHR ''0''"
      then have "nat_of_digits (dec_digits (n div 10)) = 0" using c by (simp add: nat_of_digits_def)
      with False show False by (simp add: nat_of_dec_digits)
    qed
    with c False show ?thesis by (subst dec_digits.simps) simp
  qed
qed

lemma p_nat_dec: "p_nat (dec_digits n) = Some (dec_digits n, [])"
proof -
  obtain c t where c: "dec_digits n = c # t" "is_digit c" "c = CHR ''0'' \<longrightarrow> t = []"
    using dec_digits_first by blast
  have "list_all is_digit (c # t)" using dec_digits_digits [of n] c by simp
  then have "takeWhile is_digit t = t" "dropWhile is_digit t = []"
    by (auto simp: list_all_iff takeWhile_eq_all_conv dropWhile_eq_Nil_conv)
  with c show ?thesis by (simp add: p_nat_def)
qed

lemma p_number_str_int: "p_number (str_int i) = Some (JInt i, [])"
proof -
  have u: "p_unsigned neg (dec_digits n) = Some (JInt (if neg then - int n else int n), [])" for neg n
    by (simp add: p_unsigned_def p_nat_dec p_frac_def p_exp_def nat_of_dec_digits)
  obtain c t where c: "dec_digits (nat i) = c # t" "is_digit c" using dec_digits_first by blast
  obtain d w where d: "dec_digits (nat (- i)) = d # w" "is_digit d" using dec_digits_first by blast
  have "c \<noteq> CHR ''-''" "d \<noteq> CHR ''I''" using c d by (auto simp: is_digit_def)
  then show ?thesis
    using u [of True "nat (- i)"] u [of False "nat i"] c d
    by (auto simp: p_number_def str_int_def strip_prefix_def)
qed

lemma hex4_control: "n < 32 \<Longrightarrow> hex4 (''00'' @ hex2 (word_of_nat n)) = Some n"
proof -
  assume n: "n < 32"
  then have u: "unat (word_of_nat n :: byte) = n" by (simp add: unat_of_nat)
  have "n div 16 < 16" "n mod 16 < 16" using n by auto
  then show ?thesis by (simp add: hex4_def hex2_def u hex_val_hex_digit) (simp add: hex_val_def)
qed

lemma p_str_escape:
  "p_str (escape_char c @ rest) = map_option (\<lambda>(x, r). (c # x, r)) (p_str rest)"
proof (cases "c \<in> {quote, backslash, CHR 0x0A, CHR 0x0D, CHR 0x09, CHR 0x08, CHR 0x0C}")
  case True
  then show ?thesis by (subst p_str.simps) (auto simp: escape_char_def)
next
  case notspecial: False
  show ?thesis
  proof (cases "(of_char c :: nat) < 32")
    case True
    define n where "n = (of_char c :: nat)"
    have n: "n < 32" using True n_def by simp
    have e: "escape_char c = backslash # CHR ''u'' # ''00'' @ hex2 (word_of_nat n)"
      using notspecial True by (auto simp: escape_char_def n_def)
    have l: "length (''00'' @ hex2 (word_of_nat n)) = 4" by (simp add: hex2_def)
    have t: "take 4 ((''00'' @ hex2 (word_of_nat n)) @ rest) = ''00'' @ hex2 (word_of_nat n)"
      "drop 4 ((''00'' @ hex2 (word_of_nat n)) @ rest) = rest"
      using l by simp_all
    have cp: "utf8_chars n = [c]" using n by (simp add: utf8_chars_def n_def)
    show ?thesis
      unfolding e append_Cons
      using n by (subst p_str.simps) (simp add: t [simplified] hex4_control [OF n, simplified] cp Let_def)
  next
    case False
    then show ?thesis using notspecial by (subst p_str.simps) (auto simp: escape_char_def)
  qed
qed

lemma p_str_dump: "p_str (concat (map escape_char s) @ quote # r) = Some (s, r)"
proof (induction s)
  case Nil
  show ?case by (subst p_str.simps) simp
next
  case (Cons c s)
  then show ?case by (simp add: p_str_escape)
qed

lemma foldl_dict_set:
  "dict_wf (acc @ kvs) \<Longrightarrow> foldl (\<lambda>d kv. dict_set (fst kv) (snd kv) d) acc kvs = acc @ kvs"
proof (induction kvs arbitrary: acc)
  case Nil
  then show ?case by simp
next
  case (Cons kv kvs)
  then have "dict_set (fst kv) (snd kv) acc = acc @ [kv]" by (auto simp: dict_set_fresh)
  with Cons show ?case by simp
qed

lemma dumps_first:
  "json_ok v \<Longrightarrow> \<exists>c t. dumps v = c # t \<and> \<not> is_ws c \<and> c \<noteq> CHR '']'' \<and> c \<noteq> CHR ''}''"
proof (cases v)
  case (JInt i)
  then show ?thesis using p_number_first [OF p_number_str_int [of i]]
    by (auto simp: is_ws_def is_digit_def)
next
  case (JFloat l)
  moreover assume "json_ok v"
  ultimately show ?thesis using p_number_first [of l] by (auto simp: float_ok_def is_ws_def is_digit_def)
qed (auto simp: dump_str_def is_ws_def)

lemma p_val_number:
  assumes "p_number s = Some (v, [])" "follow r"
  shows "p_val (Suc n) (s @ r) = Some (v, r)"
proof -
  obtain c t where s: "s = c # t" "c = CHR ''-'' \<or> is_digit c" using p_number_first [OF assms(1)] by auto
  have "c \<notin> set ([quote] @ ''[{ntfNI'')" using s(2) by (auto simp: is_digit_def)
  then show ?thesis
    using p_number_append [OF assms(2,1)] s by (simp add: p_val.simps)
qed

lemma skip_ws_first: "\<not> is_ws c \<Longrightarrow> skip_ws (c # t) = c # t"
  by simp

lemma join_Cons: "xs \<noteq> [] \<Longrightarrow> join sep (x # xs) = x @ sep @ join sep xs"
  by (cases xs) auto

definition reads_back :: "json \<Rightarrow> bool" where
  "reads_back v \<longleftrightarrow> (\<forall>n r. length (dumps v) \<le> n \<longrightarrow> follow r \<longrightarrow> p_val n (dumps v @ r) = Some (v, r))"

lemma reads_backD: "reads_back v \<Longrightarrow> length (dumps v) \<le> n \<Longrightarrow> follow r \<Longrightarrow> p_val n (dumps v @ r) = Some (v, r)"
  by (simp add: reads_back_def)

lemma follow_simps [simp]:
  "follow (CHR '','' # t)" "follow (CHR '']'' # t)" "follow (CHR ''}'' # t)" "follow []"
  by (simp_all add: follow_def)

lemma p_elems_back:
  assumes "vs \<noteq> []" "\<And>v. v \<in> set vs \<Longrightarrow> reads_back v \<and> json_ok v"
    and "length (join '','' (map dumps vs)) < n"
  shows "p_elems n (join '','' (map dumps vs) @ CHR '']'' # r) = Some (vs, r)"
  using assms
proof (induction vs arbitrary: n)
  case Nil
  then show ?case by simp
next
  case (Cons v vs)
  obtain m where n: "n = Suc m" using Cons.prems(3) by (cases n) auto
  have read: "length (dumps v) \<le> m \<Longrightarrow> follow x \<Longrightarrow> p_val m (dumps v @ x) = Some (v, x)" for x
    using Cons.prems(2) [of v] by (simp add: reads_back_def)
  show ?case
  proof (cases "vs = []")
    case True
    then show ?thesis using Cons.prems(3) n read [of "CHR '']'' # r"]
      by (simp add: p_elems.simps is_ws_def)
  next
    case False
    then have j: "join '','' (map dumps (v # vs)) = dumps v @ CHR '','' # join '','' (map dumps vs)"
      by (simp add: join_Cons)
    let ?rest = "join '','' (map dumps vs) @ CHR '']'' # r"
    obtain w ws where vs: "vs = w # ws" using False by (cases vs) auto
    obtain c t where c: "dumps w = c # t" "\<not> is_ws c" using dumps_first [of w] Cons.prems(2) [of w] vs by auto
    have "\<exists>u. ?rest = c # u" using vs c by (cases ws) auto
    then have skip: "skip_ws ?rest = ?rest" using c(2) by auto
    have v: "p_val m (dumps v @ CHR '','' # ?rest) = Some (v, CHR '','' # ?rest)"
      using Cons.prems(3) n j by (intro read) auto
    have "p_elems m ?rest = Some (vs, r)"
      using False Cons.prems n j c by (intro Cons.IH) auto
    then show ?thesis using v skip unfolding j n by (simp add: p_elems.simps is_ws_def)
  qed
qed

lemma p_members_back:
  assumes "kvs \<noteq> []" "\<And>kv. kv \<in> set kvs \<Longrightarrow> reads_back (snd kv) \<and> json_ok (snd kv)"
    and "length (join '','' (map (\<lambda>kv. dump_str (fst kv) @ '':'' @ dumps (snd kv)) kvs)) < n"
  shows "p_members n (join '','' (map (\<lambda>kv. dump_str (fst kv) @ '':'' @ dumps (snd kv)) kvs) @ CHR ''}'' # r)
    = Some (kvs, r)"
  using assms
proof (induction kvs arbitrary: n)
  case Nil
  then show ?case by simp
next
  case (Cons kv kvs)
  obtain k v where kv: "kv = (k, v)" by (cases kv)
  obtain m where n: "n = Suc m" using Cons.prems(3) by (cases n) auto
  let ?f = "\<lambda>kv. dump_str (fst kv) @ '':'' @ dumps (snd kv)"
  obtain c t where c: "dumps v = c # t" "\<not> is_ws c" using dumps_first [of v] Cons.prems(2) [of kv] kv by auto
  have read: "length (dumps v) \<le> m \<Longrightarrow> follow x \<Longrightarrow> p_val m (dumps v @ x) = Some (v, x)" for x
    using Cons.prems(2) [of kv] kv by (simp add: reads_back_def)
  have ws: "skip_ws (dumps v @ x) = dumps v @ x" for x using c by simp
  show ?case
  proof (cases "kvs = []")
    case True
    then show ?thesis using Cons.prems(3) n read [of "CHR ''}'' # r"] ws
      by (simp add: p_members.simps kv dump_str_def p_str_dump is_ws_def)
  next
    case False
    let ?rest = "join '','' (map ?f kvs) @ CHR ''}'' # r"
    have j: "join '','' (map ?f (kv # kvs)) = dump_str k @ CHR '':'' # dumps v @ CHR '','' # join '','' (map ?f kvs)"
      using False by (simp add: join_Cons kv)
    obtain u where u: "?rest = quote # u" using False by (cases kvs; cases "tl kvs") (auto simp: dump_str_def)
    have v: "p_val m (dumps v @ CHR '','' # ?rest) = Some (v, CHR '','' # ?rest)"
      using Cons.prems(3) n unfolding j by (intro read) auto
    have "p_members m ?rest = Some (kvs, r)"
      using False Cons.prems n unfolding j by (intro Cons.IH) auto
    then show ?thesis using v ws u unfolding j n
      by (simp add: p_members.simps kv dump_str_def p_str_dump is_ws_def)
  qed
qed

lemma p_val_object:
  assumes "kvs \<noteq> []" "dict_wf kvs" "\<And>kv. kv \<in> set kvs \<Longrightarrow> reads_back (snd kv) \<and> json_ok (snd kv)"
    and "length (dumps (JObj kvs)) \<le> n"
  shows "p_val n (dumps (JObj kvs) @ r) = Some (JObj kvs, r)"
proof -
  let ?j = "join '','' (map (\<lambda>kv. dump_str (fst kv) @ '':'' @ dumps (snd kv)) kvs)"
  obtain m where n: "n = Suc m" using assms(4) by (cases n) auto
  obtain u where u: "?j @ CHR ''}'' # r = quote # u"
    using assms(1) by (cases kvs; cases "tl kvs") (auto simp: dump_str_def)
  have "p_members m (?j @ CHR ''}'' # r) = Some (kvs, r)"
    using assms n by (intro p_members_back) auto
  then show ?thesis
    using foldl_dict_set [of "[]" kvs] assms(2) u by (simp add: n p_val.simps is_ws_def)
qed

lemma p_val_array:
  assumes "vs \<noteq> []" "\<And>v. v \<in> set vs \<Longrightarrow> reads_back v \<and> json_ok v"
    and "length (dumps (JArr vs)) \<le> n"
  shows "p_val n (dumps (JArr vs) @ r) = Some (JArr vs, r)"
proof -
  let ?j = "join '','' (map dumps vs)"
  obtain m where n: "n = Suc m" using assms(3) by (cases n) auto
  obtain w ws where vs: "vs = w # ws" using assms(1) by (cases vs) auto
  obtain c t where c: "dumps w = c # t" "\<not> is_ws c" "c \<noteq> CHR '']''"
    using dumps_first [of w] assms(2) [of w] vs by auto
  obtain u where u: "?j @ CHR '']'' # r = c # u" using vs c by (cases ws) auto
  have "p_elems m (?j @ CHR '']'' # r) = Some (vs, r)"
    using assms n by (intro p_elems_back) auto
  then show ?thesis using u c by (simp add: n p_val.simps)
qed

lemma dumps_reads_back: "json_ok v \<Longrightarrow> reads_back v"
proof (induction v rule: dumps.induct)
  case (3 i)
  show ?case unfolding reads_back_def
  proof (intro allI impI)
    fix n r assume "length (dumps (JInt i)) \<le> n" "follow r"
    then show "p_val n (dumps (JInt i) @ r) = Some (JInt i, r)"
      using p_val_number [OF p_number_str_int] p_number_first [OF p_number_str_int [of i]] by (cases n) auto
  qed
next
  case (4 l)
  then have l: "p_number l = Some (JFloat l, [])" by (simp add: float_ok_def)
  show ?case unfolding reads_back_def
  proof (intro allI impI)
    fix n r assume "length (dumps (JFloat l)) \<le> n" "follow r"
    then show "p_val n (dumps (JFloat l) @ r) = Some (JFloat l, r)"
      using p_val_number [OF l] p_number_first [OF l] by (cases n) auto
  qed
next
  case (6 vs)
  then show ?case
  proof (cases "vs = []")
    case True
    then show ?thesis unfolding reads_back_def
      by (auto simp: is_ws_def p_val.simps dest!: Suc_le_D)
  next
    case False
    with 6 have "\<And>v. v \<in> set vs \<Longrightarrow> reads_back v \<and> json_ok v" by (auto simp: list_all_iff)
    with False show ?thesis using p_val_array unfolding reads_back_def by blast
  qed
next
  case (7 kvs)
  then show ?case
  proof (cases "kvs = []")
    case True
    then show ?thesis unfolding reads_back_def
      by (auto simp: is_ws_def p_val.simps dest!: Suc_le_D)
  next
    case False
    with 7 have "\<And>kv. kv \<in> set kvs \<Longrightarrow> reads_back (snd kv) \<and> json_ok (snd kv)" "dict_wf kvs"
      by (auto simp: list_all_iff)
    with False show ?thesis using p_val_object unfolding reads_back_def by blast
  qed
qed (auto simp: reads_back_def p_val.simps strip_prefix_def dump_str_def p_str_dump dest!: Suc_le_D split: if_splits)

theorem loads_dumps:
  assumes "json_ok v"
  shows "loads (dumps v) = Some v"
proof -
  obtain c t where c: "dumps v = c # t" "\<not> is_ws c" using dumps_first [OF assms] by auto
  have "p_val (Suc (length (dumps v))) (dumps v @ []) = Some (v, [])"
    using dumps_reads_back [OF assms] by (rule reads_backD) auto
  then show ?thesis using c by (simp add: loads_def)
qed

section \<open>Printed values are valid UTF-8\<close>

lemma utf8_valid_append: "utf8_valid xs \<Longrightarrow> utf8_valid (xs @ ys) = utf8_valid ys"
proof (induction xs rule: utf8_valid.induct)
  case 1
  then show ?case by simp
next
  case (2 a bs)
  then show ?case by (auto simp: Let_def split: if_splits list.splits)
qed

lemma utf8_ascii: "list_all (\<lambda>b. unat b < 128) xs \<Longrightarrow> utf8_valid xs"
  by (induction xs) auto

lemma encode_append [simp]: "encode (s @ t) = encode s @ encode t"
  by (simp add: encode_def)

lemma encode_Nil [simp]: "encode [] = []"
  by (simp add: encode_def)

lemma encode_Cons: "encode (c # s) = word_of_nat (of_char c) # encode s"
  by (simp add: encode_def)

lemma unat_char [simp]: "unat (word_of_nat (of_char c) :: byte) = of_char c"
  by (simp add: unat_of_nat)

lemma text_ok_append: "text_ok s \<Longrightarrow> text_ok (s @ t) = text_ok t"
  by (simp add: text_ok_def utf8_valid_append)

lemma text_ok_ascii: "list_all (\<lambda>c. (of_char c :: nat) < 128) s \<Longrightarrow> text_ok s"
  by (simp add: text_ok_def utf8_ascii encode_def list_all_iff)

lemma text_ok_ascii_Cons: "(of_char c :: nat) < 128 \<Longrightarrow> text_ok (c # s) = text_ok s"
  using text_ok_append [of "[c]" s] text_ok_ascii [of "[c]"] by simp

lemma encode_decode_raw [simp]: "encode (decode_raw bs) = bs"
  by (simp add: encode_def decode_raw_def comp_def of_char_of map_idI)

lemma hex2_ascii: "list_all (\<lambda>c. (of_char c :: nat) < 128) (hex2 b)"
proof -
  have "unat b div 16 < 16" "unat b mod 16 < 16" by (simp_all add: less_mult_imp_div_less)
  then show ?thesis by (auto simp: hex2_def hex_digit_def of_char_of)
qed

lemma escape_char_ascii: "(of_char c :: nat) < 128 \<Longrightarrow> list_all (\<lambda>c. (of_char c :: nat) < 128) (escape_char c)"
  using hex2_ascii [of "word_of_nat (of_char c)"] by (simp add: escape_char_def)

lemma escape_char_wide:
  assumes "128 \<le> (of_char c :: nat)"
  shows "escape_char c = [c]"
proof -
  have "c \<noteq> d" if "(of_char d :: nat) < 128" for d using assms that by auto
  then have "c \<noteq> quote" "c \<noteq> backslash" "c \<noteq> CHR 0x0A" "c \<noteq> CHR 0x0D" "c \<noteq> CHR 0x09"
    "c \<noteq> CHR 0x08" "c \<noteq> CHR 0x0C" by simp_all
  then show ?thesis using assms unfolding escape_char_def by simp
qed

lemma escape_wide_byte: "128 \<le> unat b \<Longrightarrow> escape_char (char_of (unat b)) = [char_of (unat b)]" for b :: byte
  by (rule escape_char_wide) (simp add: of_char_of)

lemma utf8_escape_bytes:
  "utf8_valid bs \<Longrightarrow> utf8_valid (encode (concat (map escape_char (decode_raw bs))))"
proof (induction bs rule: utf8_valid.induct)
  case 1
  then show ?case by (simp add: decode_raw_def)
next
  case (2 a bs)
  have dr: "decode_raw (x # xs) = char_of (unat x) # decode_raw xs" for x xs
    by (simp add: decode_raw_def)
  have ec: "encode (char_of (unat x) # s) = x # encode s" for x :: byte and s
    by (simp add: encode_Cons of_char_of)
  show ?case
  proof (cases "unat a < 128")
    case True
    have "text_ok (escape_char (char_of (unat a)))"
      by (rule text_ok_ascii, rule escape_char_ascii) (simp add: of_char_of True)
    then show ?thesis using 2 True by (simp add: dr utf8_valid_append text_ok_def)
  next
    case False
    then show ?thesis using 2
      by (auto simp: dr ec escape_wide_byte cont_byte_def Let_def split: if_splits list.splits)
  qed
qed

lemma text_ok_dump_str: "text_ok s \<Longrightarrow> text_ok (dump_str s)"
proof -
  assume "text_ok s"
  then have "text_ok (concat (map escape_char s))"
    using utf8_escape_bytes [of "encode s"] by (simp add: text_ok_def)
  then show ?thesis by (simp add: dump_str_def text_ok_ascii_Cons text_ok_append text_ok_ascii)
qed

lemma text_ok_join: "text_ok sep \<Longrightarrow> list_all text_ok xs \<Longrightarrow> text_ok (join sep xs)"
  by (induction sep xs rule: join.induct) (auto simp: text_ok_append text_ok_def [of "[]"])

lemma text_ok_str_int: "text_ok (str_int i)"
proof -
  have "list_all (\<lambda>c. (of_char c :: nat) < 128) (dec_digits n)" for n
    using dec_digits_digits [of n] by (auto simp: list_all_iff is_digit_def)
  then show ?thesis by (auto simp: str_int_def intro: text_ok_ascii)
qed

lemma text_ok_dumps: "json_ok v \<Longrightarrow> text_ok (dumps v)"
proof (induction v rule: dumps.induct)
  case (6 vs)
  then have "text_ok (join '','' (map dumps vs))"
    by (intro text_ok_join) (auto simp: list_all_iff text_ok_ascii)
  then show ?case by (simp add: text_ok_ascii_Cons text_ok_append text_ok_ascii)
next
  case (7 kvs)
  then have "text_ok (join '','' (map (\<lambda>kv. dump_str (fst kv) @ '':'' @ dumps (snd kv)) kvs))"
    by (intro text_ok_join) (auto simp: list_all_iff text_ok_ascii text_ok_append text_ok_dump_str
        text_ok_ascii_Cons)
  then show ?case by (simp add: text_ok_ascii_Cons text_ok_append text_ok_ascii)
qed (auto simp: text_ok_str_int text_ok_dump_str float_ok_def intro: text_ok_ascii)

lemma utf8_decode_dumps: "json_ok v \<Longrightarrow> utf8_decode (encode (dumps v)) = Some (dumps v)"
  using text_ok_dumps [of v] by (simp add: utf8_decode_def text_ok_def)

end
