(* ===== verification/Messages.thy ===== *)
theory Messages
  imports Json
begin

text \<open>
  The control-channel messages of \<^verbatim>\<open>common/messages.py\<close>: a message is a type string and a
  payload dictionary, on the wire a 4-byte big-endian length followed by the UTF-8 JSON body.
  A dataclass is the list of its fields with their defaults (\<open>None\<close> for a field without
  one); an instance is the list of its fields with their values.
\<close>

section \<open>Data\<close>

named_theorems dataclass_defs \<open>the message dataclasses\<close>

type_synonym payload = "(string, json) dict"
type_synonym dataclass = "(string \<times> json option) list"
type_synonym instance_fields = "(string, json) dict"

record message =
  m_type :: string
  m_payload :: payload

datatype msg_error =
    MsgValueError
  | MessageTooLargeError
  | MsgUnicodeDecodeError
  | MsgJSONDecodeError
  | MsgAttributeError
  | MsgKeyError

definition MAX_MESSAGE_SIZE :: nat where [model_defs]: "MAX_MESSAGE_SIZE = 1024 * 1024"
definition LENGTH_PREFIX_size :: nat where [model_defs]: "LENGTH_PREFIX_size = 4"

section \<open>Serialization\<close>

definition payload_from_dataclass :: "instance_fields \<Rightarrow> payload" where
  "payload_from_dataclass inst = filter (\<lambda>kv. snd kv \<noteq> JNull) inst"

definition serialize_body :: "json \<Rightarrow> msg_error + bytes" where
  "serialize_body body =
     (let data = encode (dumps body) in
      if length data > MAX_MESSAGE_SIZE then Inl MessageTooLargeError
      else Inr (be_bytes 4 (length data) @ data))"

definition serialize :: "message \<Rightarrow> msg_error + bytes" where
  "serialize msg =
     serialize_body (JObj [(''type'', JStr (m_type msg)), (''payload'', JObj (m_payload msg))])"

text \<open>A dataclass instance is flattened to the same shape; an instance without a type field
  raises a KeyError, which is an error value here too.\<close>

definition serialize_instance :: "instance_fields \<Rightarrow> msg_error + bytes" where
  "serialize_instance inst =
     (let d = payload_from_dataclass inst in
      case dict_get d ''type'' of
        None \<Rightarrow> Inl MsgKeyError
      | Some t \<Rightarrow> serialize_body (JObj [(''type'', t), (''payload'', JObj (dict_del ''type'' d))]))"

definition message_of_body :: "json \<Rightarrow> msg_error + message" where
  "message_of_body body =
     (case body of
        JObj kvs \<Rightarrow>
          (case dict_get kvs ''type'' of
             Some (JStr t) \<Rightarrow>
               Inr \<lparr>m_type = t,
                    m_payload = (case dict_get kvs ''payload'' of Some (JObj p) \<Rightarrow> p | _ \<Rightarrow> [])\<rparr>
           | _ \<Rightarrow> Inl MsgValueError)
      | _ \<Rightarrow> Inl MsgAttributeError)"

definition deserialize :: "bytes \<Rightarrow> msg_error + message" where
  "deserialize data =
     (if length data < LENGTH_PREFIX_size then Inl MsgValueError
      else
        let len = be_val (take 4 data) in
        if len > MAX_MESSAGE_SIZE then Inl MessageTooLargeError
        else if length data < LENGTH_PREFIX_size + len then Inl MsgValueError
        else
          (case utf8_decode (take len (drop LENGTH_PREFIX_size data)) of
             None \<Rightarrow> Inl MsgUnicodeDecodeError
           | Some text \<Rightarrow>
               (case loads text of
                  None \<Rightarrow> Inl MsgJSONDecodeError
                | Some body \<Rightarrow> message_of_body body)))"

definition msg_size :: "bytes \<Rightarrow> msg_error + nat" where
  "msg_size serialized =
     (if length serialized < LENGTH_PREFIX_size then Inl MsgValueError
      else Inr (be_val (take 4 serialized)))"

definition parse_stream :: "bytes \<Rightarrow> msg_error + (message option \<times> bytes)" where
  "parse_stream data =
     (if length data < LENGTH_PREFIX_size then Inr (None, data)
      else
        let len = be_val (take 4 data) in
        if len > MAX_MESSAGE_SIZE then Inl MessageTooLargeError
        else
          let total = LENGTH_PREFIX_size + len in
          if length data < total then Inr (None, data)
          else
            (case deserialize (take total data) of
               Inl e \<Rightarrow> Inl e
             | Inr msg \<Rightarrow> Inr (Some msg, drop total data)))"

section \<open>Dataclasses\<close>

text \<open>\<^verbatim>\<open>cls(**kwargs)\<close>: an unknown keyword or a missing required field is a TypeError.\<close>

definition construct :: "dataclass \<Rightarrow> (string, json) dict \<Rightarrow> instance_fields option" where
  "construct cls kwargs =
     (if \<not> set (dict_keys kwargs) \<subseteq> set (map fst cls) then None
      else if \<exists>f \<in> set cls. snd f = None \<and> \<not> dict_has kwargs (fst f) then None
      else Some (map (\<lambda>f. (fst f, case dict_get kwargs (fst f) of Some v \<Rightarrow> v | None \<Rightarrow> the (snd f))) cls))"

definition type_of_instance :: "instance_fields \<Rightarrow> string" where
  "type_of_instance inst = (case dict_get inst ''type'' of Some (JStr t) \<Rightarrow> t | _ \<Rightarrow> [])"

definition make_message :: "dataclass \<Rightarrow> (string, json) dict \<Rightarrow> message result" where
  "make_message cls kwargs =
     (case construct cls kwargs of
        None \<Rightarrow> Inl (TypeError ''bad dataclass arguments'')
      | Some inst \<Rightarrow> Inr \<lparr>m_type = type_of_instance inst, m_payload = payload_from_dataclass inst\<rparr>)"

definition message_to_dataclass :: "message \<Rightarrow> (string, dataclass) dict \<Rightarrow> instance_fields option" where
  "message_to_dataclass msg mapping =
     (case dict_get mapping (m_type msg) of
        None \<Rightarrow> None
      | Some cls \<Rightarrow> construct cls (filter (\<lambda>kv. fst kv \<in> set (map fst cls)) (m_payload msg)))"

definition RegisterMessage :: dataclass where
  [dataclass_defs]: "RegisterMessage = [(''type'', Some (JStr ''REGISTER'')),
     (''client_id'', Some (JStr [])),
     (''public_key'', Some (JStr [])),
     (''version'', Some (JStr []))]"

definition AuthChallenge :: dataclass where
  [dataclass_defs]: "AuthChallenge = [(''type'', Some (JStr ''AUTH_CHALLENGE'')),
     (''challenge'', Some (JStr [])),
     (''client_id'', Some (JStr []))]"

definition AuthResponse :: dataclass where
  [dataclass_defs]: "AuthResponse = [(''type'', Some (JStr ''AUTH_RESPONSE'')),
     (''signature'', Some (JStr [])),
     (''challenge'', Some (JStr []))]"

definition AuthResult :: dataclass where
  [dataclass_defs]: "AuthResult = [(''type'', Some (JStr ''AUTH_OK'')),
     (''ok'', Some (JBool True)),
     (''message'', Some (JStr [])),
     (''virtual_ip'', Some JNull)]"

definition CreateNetwork :: dataclass where
  [dataclass_defs]: "CreateNetwork = [(''type'', Some (JStr ''CREATE_NETWORK'')),
     (''name'', Some (JStr [])),
     (''password'', Some (JStr [])),
     (''topology'', Some (JStr ''mesh''))]"

definition NetworkCreated :: dataclass where
  [dataclass_defs]: "NetworkCreated = [(''type'', Some (JStr ''NETWORK_CREATED'')),
     (''network_id'', Some (JStr [])),
     (''name'', Some (JStr [])),
     (''owner_id'', Some (JStr [])),
     (''topology'', Some (JStr [])),
     (''invite_code'', Some (JStr []))]"

definition JoinNetwork :: dataclass where
  [dataclass_defs]: "JoinNetwork = [(''type'', Some (JStr ''JOIN_NETWORK'')),
     (''network_id'', Some (JStr [])),
     (''password'', Some (JStr []))]"

definition NetworkJoined :: dataclass where
  [dataclass_defs]: "NetworkJoined = [(''type'', Some (JStr ''NETWORK_JOINED'')),
     (''network_id'', Some (JStr [])),
     (''name'', Some (JStr [])),
     (''virtual_ip'', Some JNull)]"

definition LeaveNetwork :: dataclass where
  [dataclass_defs]: "LeaveNetwork = [(''type'', Some (JStr ''LEAVE_NETWORK'')),
     (''network_id'', Some (JStr []))]"

definition NetworkLeft :: dataclass where
  [dataclass_defs]: "NetworkLeft = [(''type'', Some (JStr ''NETWORK_LEFT'')),
     (''network_id'', Some (JStr []))]"

definition ListNetworks :: dataclass where
  [dataclass_defs]: "ListNetworks = [(''type'', Some (JStr ''LIST_NETWORKS''))]"

definition NetworkInfo :: dataclass where
  [dataclass_defs]: "NetworkInfo = [(''network_id'', None),
     (''name'', None),
     (''owner_id'', None),
     (''topology'', None),
     (''member_count'', Some (JInt 0))]"

definition NetworkList :: dataclass where
  [dataclass_defs]: "NetworkList = [(''type'', Some (JStr ''NETWORK_LIST'')),
     (''networks'', Some (JArr []))]"

definition NetworkPeers :: dataclass where
  [dataclass_defs]: "NetworkPeers = [(''type'', Some (JStr ''NETWORK_PEERS'')),
     (''network_id'', Some (JStr [])),
     (''peers'', Some (JArr []))]"

definition PeerOnline :: dataclass where
  [dataclass_defs]: "PeerOnline = [(''type'', Some (JStr ''PEER_ONLINE'')),
     (''network_id'', Some (JStr [])),
     (''peer_id'', Some (JStr [])),
     (''peer_ip'', Some JNull)]"

definition PeerOffline :: dataclass where
  [dataclass_defs]: "PeerOffline = [(''type'', Some (JStr ''PEER_OFFLINE'')),
     (''network_id'', Some (JStr [])),
     (''peer_id'', Some (JStr []))]"

definition RequestPeerConn :: dataclass where
  [dataclass_defs]: "RequestPeerConn = [(''type'', Some (JStr ''REQUEST_PEER_CONN'')),
     (''peer_id'', Some (JStr []))]"

definition PeerEndpoints :: dataclass where
  [dataclass_defs]: "PeerEndpoints = [(''type'', Some (JStr ''PEER_ENDPOINTS'')),
     (''peer_id'', Some (JStr [])),
     (''endpoints'', Some (JArr []))]"

definition RelayRequest :: dataclass where
  [dataclass_defs]: "RelayRequest = [(''type'', Some (JStr ''RELAY_REQUEST'')),
     (''peer_id'', Some (JStr []))]"

definition RelayGranted :: dataclass where
  [dataclass_defs]: "RelayGranted = [(''type'', Some (JStr ''RELAY_GRANTED'')),
     (''peer_id'', Some (JStr [])),
     (''path_id'', Some (JStr []))]"

definition RelayFrame :: dataclass where
  [dataclass_defs]: "RelayFrame = [(''type'', Some (JStr ''RELAY_FRAME'')),
     (''src_id'', Some (JStr [])),
     (''dst_id'', Some (JStr [])),
     (''frame_b64'', Some (JStr []))]"

definition Heartbeat :: dataclass where
  [dataclass_defs]: "Heartbeat = [(''type'', Some (JStr ''HEARTBEAT'')),
     (''ts'', Some (JFloat ''0.0''))]"

definition HeartbeatAck :: dataclass where
  [dataclass_defs]: "HeartbeatAck = [(''type'', Some (JStr ''HEARTBEAT_ACK'')),
     (''ts'', Some (JFloat ''0.0''))]"

definition ErrorMessage :: dataclass where
  [dataclass_defs]: "ErrorMessage = [(''type'', Some (JStr ''ERROR'')),
     (''code'', Some (JStr [])),
     (''message'', Some (JStr []))]"

definition ExposeService :: dataclass where
  [dataclass_defs]: "ExposeService = [(''type'', Some (JStr ''EXPOSE_SERVICE'')),
     (''name'', Some (JStr [])),
     (''protocol'', Some (JStr ''tcp'')),
     (''local_host'', Some (JStr ''127.0.0.1'')),
     (''local_port'', Some (JInt 0))]"

definition ServiceExposed :: dataclass where
  [dataclass_defs]: "ServiceExposed = [(''type'', Some (JStr ''SERVICE_EXPOSED'')),
     (''service_id'', Some (JStr [])),
     (''name'', Some (JStr [])),
     (''protocol'', Some (JStr [])),
     (''local_port'', Some (JInt 0))]"

definition UnexposeService :: dataclass where
  [dataclass_defs]: "UnexposeService = [(''type'', Some (JStr ''UNEXPOSE_SERVICE'')),
     (''service_id'', Some (JStr []))]"

definition ServiceUnexposed :: dataclass where
  [dataclass_defs]: "ServiceUnexposed = [(''type'', Some (JStr ''SERVICE_UNEXPOSED'')),
     (''service_id'', Some (JStr []))]"

definition ServiceList :: dataclass where
  [dataclass_defs]: "ServiceList = [(''type'', Some (JStr ''SERVICE_LIST'')),
     (''services'', Some (JArr []))]"

definition ServiceAdded :: dataclass where
  [dataclass_defs]: "ServiceAdded = [(''type'', Some (JStr ''SERVICE_ADDED'')),
     (''service'', Some (JObj []))]"

definition ServiceRemoved :: dataclass where
  [dataclass_defs]: "ServiceRemoved = [(''type'', Some (JStr ''SERVICE_REMOVED'')),
     (''service_id'', Some (JStr []))]"

definition MapService :: dataclass where
  [dataclass_defs]: "MapService = [(''type'', Some (JStr ''MAP_SERVICE'')),
     (''service_id'', Some (JStr [])),
     (''local_port'', Some JNull),
     (''strategy'', Some (JStr ''auto''))]"

definition ServiceMapped :: dataclass where
  [dataclass_defs]: "ServiceMapped = [(''type'', Some (JStr ''SERVICE_MAPPED'')),
     (''service_id'', Some (JStr [])),
     (''local_port'', Some (JInt 0))]"

definition UnmapService :: dataclass where
  [dataclass_defs]: "UnmapService = [(''type'', Some (JStr ''UNMAP_SERVICE'')),
     (''service_id'', Some (JStr []))]"

definition ServiceUnmapped :: dataclass where
  [dataclass_defs]: "ServiceUnmapped = [(''type'', Some (JStr ''SERVICE_UNMAPPED'')),
     (''service_id'', Some (JStr []))]"

definition MESSAGE_TYPES :: "(string, dataclass) dict" where
  "MESSAGE_TYPES = [(''REGISTER'', RegisterMessage),
     (''AUTH_CHALLENGE'', AuthChallenge),
     (''AUTH_RESPONSE'', AuthResponse),
     (''AUTH_OK'', AuthResult),
     (''AUTH_FAIL'', AuthResult),
     (''CREATE_NETWORK'', CreateNetwork),
     (''NETWORK_CREATED'', NetworkCreated),
     (''JOIN_NETWORK'', JoinNetwork),
     (''NETWORK_JOINED'', NetworkJoined),
     (''LEAVE_NETWORK'', LeaveNetwork),
     (''NETWORK_LEFT'', NetworkLeft),
     (''LIST_NETWORKS'', ListNetworks),
     (''NETWORK_LIST'', NetworkList),
     (''NETWORK_PEERS'', NetworkPeers),
     (''PEER_ONLINE'', PeerOnline),
     (''PEER_OFFLINE'', PeerOffline),
     (''REQUEST_PEER_CONN'', RequestPeerConn),
     (''PEER_ENDPOINTS'', PeerEndpoints),
     (''RELAY_REQUEST'', RelayRequest),
     (''RELAY_GRANTED'', RelayGranted),
     (''RELAY_FRAME'', RelayFrame),
     (''HEARTBEAT'', Heartbeat),
     (''HEARTBEAT_ACK'', HeartbeatAck),
     (''ERROR'', ErrorMessage),
     (''EXPOSE_SERVICE'', ExposeService),
     (''SERVICE_EXPOSED'', ServiceExposed),
     (''UNEXPOSE_SERVICE'', UnexposeService),
     (''SERVICE_UNEXPOSED'', ServiceUnexposed),
     (''SERVICE_LIST'', ServiceList),
     (''SERVICE_ADDED'', ServiceAdded),
     (''SERVICE_REMOVED'', ServiceRemoved),
     (''MAP_SERVICE'', MapService),
     (''SERVICE_MAPPED'', ServiceMapped),
     (''UNMAP_SERVICE'', UnmapService),
     (''SERVICE_UNMAPPED'', ServiceUnmapped)]"

section \<open>Reading back what was sent\<close>

definition message_body :: "message \<Rightarrow> json" where
  "message_body msg = JObj [(''type'', JStr (m_type msg)), (''payload'', JObj (m_payload msg))]"

text \<open>A message that Python accepts: a payload with distinct keys and valid Unicode, and a body
  within the size limit.\<close>

definition message_ok :: "message \<Rightarrow> bool" where
  "message_ok msg \<longleftrightarrow> text_ok (m_type msg) \<and> json_ok (JObj (m_payload msg))
     \<and> length (dumps (message_body msg)) \<le> MAX_MESSAGE_SIZE"

definition wire_of :: "message \<Rightarrow> bytes" where
  "wire_of msg = be_bytes 4 (length (dumps (message_body msg))) @ encode (dumps (message_body msg))"

definition next_message :: "bytes \<Rightarrow> (message \<times> bytes) option" where
  "next_message data =
     (case parse_stream data of Inr (Some msg, rest) \<Rightarrow> Some (msg, rest) | _ \<Rightarrow> None)"

lemma serialize_ok: "message_ok msg \<Longrightarrow> serialize msg = Inr (wire_of msg)"
  by (simp add: serialize_def serialize_body_def message_ok_def wire_of_def message_body_def
      del: be_bytes.simps dumps.simps)

lemma serialize_too_large:
  "length (dumps (message_body msg)) > MAX_MESSAGE_SIZE \<Longrightarrow> serialize msg = Inl MessageTooLargeError"
  by (simp add: serialize_def serialize_body_def message_body_def del: dumps.simps)

lemma message_of_message_body [simp]: "message_of_body (message_body msg) = Inr msg"
  by (simp add: message_of_body_def message_body_def)

lemma json_ok_message_body: "message_ok msg \<Longrightarrow> json_ok (message_body msg)"
  by (simp add: message_ok_def message_body_def text_ok_ascii)

lemma length_wire_of: "length (wire_of msg) = 4 + length (dumps (message_body msg))"
  by (simp add: wire_of_def del: be_bytes.simps)

lemma wire_prefix:
  assumes "message_ok msg"
  shows "be_val (take 4 (wire_of msg @ rest)) = length (dumps (message_body msg))"
proof -
  have "take 4 (wire_of msg @ rest) = be_bytes 4 (length (dumps (message_body msg)))"
    by (simp add: wire_of_def del: be_bytes.simps)
  then show ?thesis using assms
    by (simp add: be_val_be_bytes message_ok_def model_defs del: be_bytes.simps)
qed

lemma deserialize_wire:
  assumes "message_ok msg"
  shows "deserialize (wire_of msg @ rest) = Inr msg"
proof -
  note ok = json_ok_message_body [OF assms]
  have body: "take (length (dumps (message_body msg))) (drop 4 (wire_of msg @ rest))
      = encode (dumps (message_body msg))"
    by (simp add: wire_of_def del: be_bytes.simps)
  show ?thesis
    using assms unfolding deserialize_def Let_def wire_prefix [OF assms] model_defs body
    by (simp add: length_wire_of utf8_decode_dumps [OF ok] loads_dumps [OF ok] message_ok_def model_defs)
qed

lemma parse_stream_wire:
  assumes "message_ok msg"
  shows "parse_stream (wire_of msg @ rest) = Inr (Some msg, rest)"
  using assms deserialize_wire [OF assms, of "[]"]
  unfolding parse_stream_def Let_def wire_prefix [OF assms] model_defs
  by (simp add: length_wire_of message_ok_def model_defs)

interpretation control_stream: prefix_codec wire_of next_message message_ok
  by unfold_locales (simp add: next_message_def parse_stream_wire)

text \<open>The control channel is lossless: every message that Python can serialize within the
  1 MiB limit is serialized, and deserializing the bytes gives the same type and payload.\<close>

theorem deserialize_serialize:
  assumes "message_ok msg"
  shows "\<exists>data. serialize msg = Inr data \<and> deserialize data = Inr msg"
  using serialize_ok [OF assms] deserialize_wire [OF assms, of "[]"] by auto

theorem deserialize_serialize_witness:
  "\<exists>data. serialize \<lparr>m_type = ''PING'', m_payload = [(''ts'', JInt (-12)), (''ok'', JArr [JBool True])]\<rparr> = Inr data
     \<and> deserialize data = Inr \<lparr>m_type = ''PING'', m_payload = [(''ts'', JInt (-12)), (''ok'', JArr [JBool True])]\<rparr>"
proof -
  have "message_ok \<lparr>m_type = ''PING'', m_payload = [(''ts'', JInt (-12)), (''ok'', JArr [JBool True])]\<rparr>"
    by (simp add: message_ok_def text_ok_ascii message_body_def model_defs dump_str_def escape_char_def
        str_int_def dec_digits.simps)
  then show ?thesis by (rule deserialize_serialize)
qed



text \<open>A message that has not arrived completely is never consumed: on every proper prefix of
  a serialized message the parser asks for more and returns the buffer untouched.\<close>

theorem parse_stream_partial:
  assumes "message_ok msg" and "n < length (wire_of msg)"
  shows "parse_stream (take n (wire_of msg)) = Inr (None, take n (wire_of msg))"
proof (cases "n < 4")
  case True
  then show ?thesis using assms(2) by (simp add: parse_stream_def model_defs)
next
  case False
  then have "take 4 (take n (wire_of msg)) = take 4 (wire_of msg @ [])" by (simp add: min_def)
  then have v: "be_val (take 4 (take n (wire_of msg))) = length (dumps (message_body msg))"
    using wire_prefix [OF assms(1), of "[]"] by simp
  show ?thesis
    using False assms length_wire_of [of msg] unfolding parse_stream_def Let_def v
    by (simp add: model_defs message_ok_def)
qed

theorem parse_stream_partial_witness:
  "parse_stream (take 9 (wire_of \<lparr>m_type = ''A'', m_payload = []\<rparr>)) =
     Inr (None, take 9 (wire_of \<lparr>m_type = ''A'', m_payload = []\<rparr>))"
proof (rule parse_stream_partial)
  show "message_ok \<lparr>m_type = ''A'', m_payload = []\<rparr>"
    by (simp add: message_ok_def text_ok_ascii message_body_def model_defs dump_str_def escape_char_def)
  show "9 < length (wire_of \<lparr>m_type = ''A'', m_payload = []\<rparr>)"
    by (simp add: length_wire_of message_body_def dump_str_def escape_char_def)
qed

section \<open>Typed messages\<close>

definition class_ok :: "dataclass \<Rightarrow> bool" where
  "class_ok cls \<longleftrightarrow> distinct (map fst cls) \<and> (\<forall>f \<in> set cls. snd f \<noteq> None)"

definition default_type :: "dataclass \<Rightarrow> string option" where
  "default_type cls = (case map_of cls ''type'' of Some (Some (JStr t)) \<Rightarrow> Some t | _ \<Rightarrow> None)"

lemma message_types_ok: "tc \<in> set MESSAGE_TYPES \<Longrightarrow> class_ok (snd tc)"
proof -
  have "list_all (\<lambda>tc. class_ok (snd tc)) MESSAGE_TYPES"
    by (simp add: MESSAGE_TYPES_def class_ok_def dataclass_defs)
  then show "tc \<in> set MESSAGE_TYPES \<Longrightarrow> class_ok (snd tc)" by (auto simp: list_all_iff)
qed

lemma message_types_default:
  "tc \<in> set MESSAGE_TYPES \<Longrightarrow>
     \<exists>t. default_type (snd tc) = Some t \<and> map_of MESSAGE_TYPES t = Some (snd tc)"
proof -
  have "list_all (\<lambda>tc. \<exists>t. default_type (snd tc) = Some t \<and> map_of MESSAGE_TYPES t = Some (snd tc)) MESSAGE_TYPES"
    by (simp add: MESSAGE_TYPES_def default_type_def dataclass_defs)
  then show "tc \<in> set MESSAGE_TYPES \<Longrightarrow>
     \<exists>t. default_type (snd tc) = Some t \<and> map_of MESSAGE_TYPES t = Some (snd tc)" by (auto simp: list_all_iff)
qed

definition field_value :: "(string, json) dict \<Rightarrow> string \<times> json option \<Rightarrow> json" where
  "field_value kw f = (case dict_get kw (fst f) of Some v \<Rightarrow> v | None \<Rightarrow> the (snd f))"

lemma construct_ok:
  assumes "class_ok cls" "set (dict_keys kw) \<subseteq> set (map fst cls)"
  shows "construct cls kw = Some (map (\<lambda>f. (fst f, field_value kw f)) cls)"
  using assms by (simp add: construct_def class_ok_def field_value_def)

lemma payload_get:
  assumes "distinct (map fst cls)" "f \<in> set cls"
  shows "dict_get (payload_from_dataclass (map (\<lambda>f. (fst f, g f)) cls)) (fst f)
    = (if g f = JNull then None else Some (g f))"
proof -
  let ?inst = "map (\<lambda>f. (fst f, g f)) cls"
  have wf: "dict_wf ?inst" using assms(1) by (simp add: comp_def)
  have "dict_get ?inst (fst f) = Some (g f)" using wf assms(2) by (intro map_of_is_SomeI) auto
  then show ?thesis
    using map_of_filter_vals [OF wf, of "\<lambda>k v. v \<noteq> JNull" "fst f"]
    by (simp add: payload_from_dataclass_def)
qed

text \<open>Typed construction and typed reading agree: for every class of the message table and
  every keyword arguments that name fields of it and are not None, \<open>make_message\<close> succeeds and
  \<open>message_to_dataclass\<close> recovers from the message exactly the instance that was built,
  defaults and optional fields included.\<close>

theorem message_to_dataclass_make_message:
  assumes "(t, cls) \<in> set MESSAGE_TYPES" and "set (dict_keys kw) \<subseteq> set (map fst cls)"
    and "''type'' \<notin> set (dict_keys kw)" and "JNull \<notin> set (dict_values kw)"
  shows "\<exists>m inst. make_message cls kw = Inr m \<and> construct cls kw = Some inst
           \<and> message_to_dataclass m MESSAGE_TYPES = Some inst"
proof -
  have ok: "class_ok cls" using message_types_ok [OF assms(1)] by simp
  obtain dt where dt: "default_type cls = Some dt" "map_of MESSAGE_TYPES dt = Some cls"
    using message_types_default [OF assms(1)] by auto
  let ?inst = "map (\<lambda>f. (fst f, field_value kw f)) cls"
  let ?p = "payload_from_dataclass ?inst"
  have c: "construct cls kw = Some ?inst" by (rule construct_ok [OF ok assms(2)])
  have "map_of cls ''type'' = Some (Some (JStr dt))"
    using dt(1) by (auto simp: default_type_def split: option.splits json.splits)
  moreover have "dict_get kw ''type'' = None" using assms(3) by (auto simp: map_of_eq_None_iff)
  ultimately have "dict_get ?inst ''type'' = Some (JStr dt)"
    using ok map_of_SomeD [of cls "''type''"] by (intro map_of_is_SomeI) (auto simp: class_ok_def field_value_def comp_def image_iff intro!: bexI)
  then have m: "make_message cls kw = Inr \<lparr>m_type = dt, m_payload = ?p\<rparr>"
    by (simp add: make_message_def c type_of_instance_def)
  have keys: "set (dict_keys ?p) \<subseteq> set (map fst cls)" by (force simp: payload_from_dataclass_def)
  have same: "field_value ?p f = field_value kw f" if "f \<in> set cls" for f
  proof -
    have "field_value kw f = JNull \<Longrightarrow> the (snd f) = JNull"
      using assms(4) by (force simp: field_value_def image_iff split: option.splits dest!: map_of_SomeD)
    then show ?thesis using payload_get [of cls f "field_value kw"] ok that
      by (auto simp: class_ok_def field_value_def [of ?p])
  qed
  have "filter (\<lambda>kv. fst kv \<in> set (map fst cls)) ?p = ?p" using keys by (auto simp: filter_id_conv)
  then have "message_to_dataclass \<lparr>m_type = dt, m_payload = ?p\<rparr> MESSAGE_TYPES = Some ?inst"
    using construct_ok [OF ok keys] same by (simp add: message_to_dataclass_def dt(2))
  with m c show ?thesis by blast
qed

theorem message_to_dataclass_make_message_witness:
  "\<exists>m inst. make_message AuthResult [(''message'', JStr ''hi'')] = Inr m
     \<and> construct AuthResult [(''message'', JStr ''hi'')] = Some inst
     \<and> message_to_dataclass m MESSAGE_TYPES = Some inst"
  by (rule message_to_dataclass_make_message [of "''AUTH_OK''"])
    (simp_all add: MESSAGE_TYPES_def AuthResult_def)

end
