(* ===== verification/Protocol.thy ===== *)
theory Protocol
  imports Messages
begin

text \<open>
  Field validation of \<^verbatim>\<open>server/protocol.py\<close>.  Payload values are arbitrary JSON, so the
  Python notions the validators rest on are spelled out first: \<^verbatim>\<open>str()\<close> and
  \<^verbatim>\<open>repr()\<close> of a value, truthiness, length in code points, and the three regular
  expressions, whose \<^verbatim>\<open>$\<close> also matches before a final newline.  A validator returns the
  text of the \<^verbatim>\<open>ProtocolError\<close> it raises, or the validated fields.
\<close>

section \<open>Python values\<close>

definition is_cont_char :: "char \<Rightarrow> bool" where
  "is_cont_char c \<longleftrightarrow> 128 \<le> (of_char c :: nat) \<and> (of_char c :: nat) < 192"

definition py_len :: "string \<Rightarrow> nat" where
  "py_len s = length (filter (\<lambda>c. \<not> is_cont_char c) s)"

fun py_take :: "nat \<Rightarrow> string \<Rightarrow> string" where
  "py_take 0 s = []"
| "py_take (Suc n) [] = []"
| "py_take (Suc n) (c # s) = c # takeWhile is_cont_char s @ py_take n (dropWhile is_cont_char s)"

definition to_lower_char :: "char \<Rightarrow> char" where
  "to_lower_char c = (let n = of_char c :: nat in if 65 \<le> n \<and> n \<le> 90 then char_of (n + 32) else c)"

definition to_upper_char :: "char \<Rightarrow> char" where
  "to_upper_char c = (let n = of_char c :: nat in if 97 \<le> n \<and> n \<le> 122 then char_of (n - 32) else c)"

definition lower :: "string \<Rightarrow> string" where "lower s = map to_lower_char s"
definition upper :: "string \<Rightarrow> string" where "upper s = map to_upper_char s"

definition is_space :: "char \<Rightarrow> bool" where
  "is_space c \<longleftrightarrow> (let n = of_char c :: nat in n = 32 \<or> (9 \<le> n \<and> n \<le> 13) \<or> (28 \<le> n \<and> n \<le> 31))"

definition lstrip :: "string \<Rightarrow> string" where "lstrip s = dropWhile is_space s"
definition rstrip :: "string \<Rightarrow> string" where "rstrip s = rev (dropWhile is_space (rev s))"
definition strip :: "string \<Rightarrow> string" where "strip s = rstrip (lstrip s)"

definition starts_with :: "string \<Rightarrow> string \<Rightarrow> bool" where
  "starts_with p s \<longleftrightarrow> take (length p) s = p"

definition squote :: char where "squote = CHR 0x27"

definition repr_char :: "char \<Rightarrow> char \<Rightarrow> string" where
  "repr_char q c =
     (let n = of_char c :: nat in
      if c = q \<or> c = backslash then [backslash, c]
      else if n = 9 then [backslash, CHR ''t'']
      else if n = 10 then [backslash, CHR ''n'']
      else if n = 13 then [backslash, CHR ''r'']
      else if n < 32 \<or> n = 127 then backslash # CHR ''x'' # hex2 (word_of_nat n)
      else [c])"

definition repr_str :: "string \<Rightarrow> string" where
  "repr_str s =
     (let q = (if squote \<in> set s \<and> quote \<notin> set s then quote else squote)
      in q # concat (map (repr_char q) s) @ [q])"

fun py_repr :: "json \<Rightarrow> string" where
  "py_repr JNull = ''None''"
| "py_repr (JBool b) = (if b then ''True'' else ''False'')"
| "py_repr (JInt i) = str_int i"
| "py_repr (JFloat l) = l"
| "py_repr (JStr s) = repr_str s"
| "py_repr (JArr vs) = ''['' @ join '', '' (map py_repr vs) @ '']''"
| "py_repr (JObj kvs) = ''{'' @ join '', '' (map (\<lambda>kv. repr_str (fst kv) @ '': '' @ py_repr (snd kv)) kvs) @ ''}''"

definition py_str :: "json \<Rightarrow> string" where
  "py_str v = (case v of JStr s \<Rightarrow> s | _ \<Rightarrow> py_repr v)"

definition float_zero :: "string \<Rightarrow> bool" where
  "float_zero l \<longleftrightarrow> list_all (\<lambda>c. is_digit c \<longrightarrow> c = CHR ''0'')
     (takeWhile (\<lambda>c. c \<noteq> CHR ''e'' \<and> c \<noteq> CHR ''E'') l) \<and> (\<exists>c \<in> set l. is_digit c)"

definition truthy :: "json \<Rightarrow> bool" where
  "truthy v \<longleftrightarrow>
     (case v of JNull \<Rightarrow> False | JBool b \<Rightarrow> b | JInt i \<Rightarrow> i \<noteq> 0 | JFloat l \<Rightarrow> \<not> float_zero l
      | JStr s \<Rightarrow> s \<noteq> [] | JArr vs \<Rightarrow> vs \<noteq> [] | JObj kvs \<Rightarrow> kvs \<noteq> [])"

text \<open>\<^verbatim>\<open>payload.get(key) or default\<close>.\<close>

definition get_or :: "payload \<Rightarrow> string \<Rightarrow> json \<Rightarrow> json" where
  "get_or p k d = (case dict_get p k of Some v \<Rightarrow> if truthy v then v else d | None \<Rightarrow> d)"

text \<open>\<^verbatim>\<open>isinstance(v, int)\<close>: a bool is an int.\<close>

definition as_int :: "json \<Rightarrow> int option" where
  "as_int v = (case v of JInt i \<Rightarrow> Some i | JBool b \<Rightarrow> Some (if b then 1 else 0) | _ \<Rightarrow> None)"

section \<open>Regular expressions\<close>

definition is_id_char :: "char \<Rightarrow> bool" where
  "is_id_char c \<longleftrightarrow> (let n = of_char c :: nat in
     (65 \<le> n \<and> n \<le> 90) \<or> (97 \<le> n \<and> n \<le> 122) \<or> (48 \<le> n \<and> n \<le> 57) \<or> n = 45 \<or> n = 95)"

text \<open>What a trailing \<^verbatim>\<open>$\<close> lets through: the text with one final newline removed.\<close>

definition chomp :: "string \<Rightarrow> string" where
  "chomp s = (if s \<noteq> [] \<and> last s = CHR 0x0A then butlast s else s)"

definition ID_RE :: "string \<Rightarrow> bool" where
  "ID_RE s \<longleftrightarrow> (let core = chomp s in list_all is_id_char core \<and> 8 \<le> length core \<and> length core \<le> 64)"

definition NAME_RE :: "string \<Rightarrow> bool" where
  "NAME_RE s \<longleftrightarrow> (let core = chomp s in CHR 0x0A \<notin> set core \<and> 1 \<le> py_len core \<and> py_len core \<le> 64)"

definition PEM_RE :: "string \<Rightarrow> bool" where
  "PEM_RE s \<longleftrightarrow> starts_with ''-----BEGIN PUBLIC KEY-----'' s
     \<or> starts_with ''-----BEGIN RSA PUBLIC KEY-----'' s"

section \<open>Validators\<close>

type_synonym 'a proto = "string + 'a"

definition DEFAULT_TOPOLOGY :: string where [model_defs]: "DEFAULT_TOPOLOGY = ''mesh''"
definition SUPPORTED_TOPOLOGIES :: "string list" where
  [model_defs]: "SUPPORTED_TOPOLOGIES = [''mesh'', ''hub_and_spoke'', ''gateway'']"

definition require :: "payload \<Rightarrow> string \<Rightarrow> string \<Rightarrow> json proto" where
  "require p key label =
     (case dict_get p key of
        None \<Rightarrow> Inl (label @ '' is required'')
      | Some v \<Rightarrow> if v = JNull \<or> v = JStr [] then Inl (label @ '' is required'') else Inr v)"

definition validate_register :: "payload \<Rightarrow> (string \<times> string) proto" where
  "validate_register p =
     (case require p ''client_id'' ''client_id'' of Inl e \<Rightarrow> Inl e
      | Inr client_id \<Rightarrow>
     (case require p ''public_key'' ''public_key'' of Inl e \<Rightarrow> Inl e
      | Inr public_key \<Rightarrow>
          if \<not> ID_RE (py_str client_id) then Inl ''client_id must be 8-64 chars of [A-Za-z0-9_-]''
          else if \<not> PEM_RE (strip (py_str public_key))
          then Inl ''public_key must be a PEM-encoded public key''
          else Inr (py_str client_id, py_str public_key)))"

definition validate_auth_response :: "payload \<Rightarrow> (string \<times> string) proto" where
  "validate_auth_response p =
     (case require p ''challenge'' ''challenge'' of Inl e \<Rightarrow> Inl e
      | Inr challenge \<Rightarrow>
     (case require p ''signature'' ''signature'' of Inl e \<Rightarrow> Inl e
      | Inr signature \<Rightarrow> Inr (py_str challenge, py_str signature)))"

definition validate_create_network :: "payload \<Rightarrow> (string \<times> string \<times> string) proto" where
  "validate_create_network p =
     (case require p ''name'' ''name'' of Inl e \<Rightarrow> Inl e
      | Inr name \<Rightarrow>
     (case require p ''password'' ''password'' of Inl e \<Rightarrow> Inl e
      | Inr password \<Rightarrow>
          let topology = py_str (get_or p ''topology'' (JStr DEFAULT_TOPOLOGY)) in
          if \<not> NAME_RE (py_str name) then Inl ''name must be 1-64 characters''
          else if topology \<notin> set SUPPORTED_TOPOLOGIES
          then Inl (''unsupported topology '' @ repr_str topology @ ''; expected one of ''
                    @ join '', '' SUPPORTED_TOPOLOGIES)
          else Inr (py_str name, py_str password, topology)))"

definition validate_join_network :: "payload \<Rightarrow> (string \<times> string) proto" where
  "validate_join_network p =
     (case require p ''network_id'' ''network_id'' of Inl e \<Rightarrow> Inl e
      | Inr network_id \<Rightarrow>
     (case require p ''password'' ''password'' of Inl e \<Rightarrow> Inl e
      | Inr password \<Rightarrow> Inr (py_str network_id, py_str password)))"

definition validate_network_id :: "payload \<Rightarrow> string proto" where
  "validate_network_id p =
     (case require p ''network_id'' ''network_id'' of Inl e \<Rightarrow> Inl e | Inr v \<Rightarrow> Inr (py_str v))"

definition validate_peer_id :: "payload \<Rightarrow> string proto" where
  "validate_peer_id p =
     (case require p ''peer_id'' ''peer_id'' of Inl e \<Rightarrow> Inl e | Inr v \<Rightarrow> Inr (py_str v))"

definition validate_expose_service :: "payload \<Rightarrow> (string \<times> string \<times> string \<times> int) proto" where
  "validate_expose_service p =
     (case require p ''name'' ''name'' of Inl e \<Rightarrow> Inl e
      | Inr name \<Rightarrow>
          let protocol = lower (py_str (get_or p ''protocol'' (JStr ''tcp'')));
              local_host = py_str (get_or p ''local_host'' (JStr ''127.0.0.1''));
              local_port = (case dict_get p ''local_port'' of Some v \<Rightarrow> v | None \<Rightarrow> JNull)
          in if protocol \<notin> {''tcp'', ''udp''}
             then Inl (''protocol must be tcp or udp, got '' @ repr_str protocol)
             else (case as_int local_port of
                     Some port \<Rightarrow>
                       if 0 < port \<and> port < 65536 then Inr (py_str name, protocol, local_host, port)
                       else Inl (''invalid local_port: '' @ py_repr local_port)
                   | None \<Rightarrow> Inl (''invalid local_port: '' @ py_repr local_port)))"

definition validate_service_id :: "payload \<Rightarrow> string proto" where
  "validate_service_id p =
     (case require p ''service_id'' ''service_id'' of Inl e \<Rightarrow> Inl e | Inr v \<Rightarrow> Inr (py_str v))"

section \<open>Lemmas\<close>

lemma py_repr_not_empty:
  assumes "v \<noteq> JStr []" "v \<noteq> JFloat []"
  shows "py_str v \<noteq> []"
proof (cases v)
  case (JInt i)
  then show ?thesis using dec_digits_first [of "nat i"] by (auto simp: py_str_def str_int_def)
qed (use assms in \<open>auto simp: py_str_def\<close>)

lemma require_Inr:
  "require p k l = Inr v \<longleftrightarrow> dict_get p k = Some v \<and> v \<noteq> JNull \<and> v \<noteq> JStr []"
  by (auto simp: require_def split: option.splits)

lemma ID_RE_chars: "ID_RE s \<Longrightarrow> list_all (\<lambda>c. is_id_char c \<or> c = CHR 0x0A) s \<and> 8 \<le> length s \<and> length s \<le> 65"
proof (cases "s \<noteq> [] \<and> last s = CHR 0x0A")
  case True
  then obtain t where "s = t @ [CHR 0x0A]" by (metis append_butlast_last_id)
  then show "ID_RE s \<Longrightarrow> ?thesis" by (auto simp: ID_RE_def chomp_def list_all_iff)
qed (auto simp: ID_RE_def chomp_def Let_def list_all_iff)

text \<open>What the server may rely on after \<open>validate_register\<close> has accepted a payload: the
  stripped key starts with a PEM header and the id matches the id pattern, so it is 8 to 65
  characters long, all of them id characters except possibly a final newline (the \<^verbatim>\<open>$\<close> of
  the pattern admits one).\<close>

theorem validate_register_sound:
  assumes "validate_register p = Inr (client_id, public_key)"
  shows "PEM_RE (strip public_key) \<and> ID_RE client_id
    \<and> 8 \<le> length client_id \<and> length client_id \<le> 65
    \<and> (\<forall>c \<in> set client_id. is_id_char c \<or> c = CHR 0x0A)
    \<and> (\<forall>c \<in> set (butlast client_id). is_id_char c)"
proof -
  have v: "ID_RE client_id" "PEM_RE (strip public_key)"
    using assms by (auto simp: validate_register_def split: sum.splits if_splits)
  have "\<forall>c \<in> set (butlast client_id). is_id_char c"
    using v(1) by (auto simp: ID_RE_def chomp_def Let_def list_all_iff split: if_splits dest: in_set_butlastD)
  then show ?thesis using v ID_RE_chars [OF v(1)] by (auto simp: list_all_iff)
qed

theorem validate_register_sound_witness:
  "validate_register [(''client_id'', JStr ''client-01''), (''public_key'', JStr '' -----BEGIN PUBLIC KEY-----x'')]
     = Inr (''client-01'', '' -----BEGIN PUBLIC KEY-----x'') \<and> ID_RE ''client-01''"
proof -
  have v: "validate_register [(''client_id'', JStr ''client-01''), (''public_key'', JStr '' -----BEGIN PUBLIC KEY-----x'')]
     = Inr (''client-01'', '' -----BEGIN PUBLIC KEY-----x'')"
    by (simp add: validate_register_def require_def py_str_def ID_RE_def chomp_def is_id_char_def
        PEM_RE_def starts_with_def strip_def lstrip_def rstrip_def is_space_def)
  show ?thesis using v validate_register_sound [OF v] by blast
qed

lemma lower_UDP: "lower ''UDP'' = ''udp''"
  by code_simp

text \<open>What the server may rely on after \<open>validate_expose_service\<close>: the protocol is tcp or
  udp and the port is a valid TCP/UDP port.\<close>

theorem validate_expose_service_sound:
  assumes "validate_expose_service p = Inr (name, protocol, local_host, local_port)"
  shows "protocol \<in> {''tcp'', ''udp''} \<and> 1 \<le> local_port \<and> local_port \<le> 65535"
  using assms by (auto simp: validate_expose_service_def Let_def split: sum.splits if_splits option.splits)

theorem validate_expose_service_sound_witness:
  "validate_expose_service [(''name'', JStr ''web''), (''protocol'', JStr ''UDP''), (''local_port'', JInt 80)]
     = Inr (''web'', ''udp'', ''127.0.0.1'', 80) \<and> ''udp'' \<in> {''tcp'', ''udp''}"
proof -
  have v: "validate_expose_service [(''name'', JStr ''web''), (''protocol'', JStr ''UDP''), (''local_port'', JInt 80)]
     = Inr (''web'', ''udp'', ''127.0.0.1'', 80)"
    by (simp add: validate_expose_service_def require_def get_or_def truthy_def py_str_def as_int_def
        lower_UDP)
  show ?thesis using v validate_expose_service_sound [OF v] by blast
qed

text \<open>A client id with a trailing newline is accepted, against the comment of the error message.\<close>

lemma id_trailing_newline: "ID_RE (''client-01'' @ [CHR 0x0A])"
  by (simp add: ID_RE_def chomp_def is_id_char_def)

end
