(* ===== verification/Registry.thy ===== *)
theory Registry
  imports Prelude
begin

text \<open>
  The client registry of \<^verbatim>\<open>server/registry.py\<close>.  The records are kept in registration
  order.  Every method that reads the clock takes the time it reads; a method that mutates a
  record returns the new registry.  The locale at the end is the contract on which the network
  manager relies: which networks a client is in after a join or a leave.
\<close>

section \<open>State\<close>

record client_record =
  cr_client_id :: string
  public_key_pem :: string
  public_endpoint :: "(string \<times> int) option"
  last_heartbeat :: time
  online :: bool
  cr_networks :: "string list"
  joined_at :: time
  banned :: bool
  client_ip :: "string option"

type_synonym registry = "(string, client_record) dict"

definition new_client_record :: "time \<Rightarrow> string \<Rightarrow> string \<Rightarrow> client_record" where
  "new_client_record now cid pem =
     \<lparr>cr_client_id = cid, public_key_pem = pem, public_endpoint = None, last_heartbeat = now,
      online = False, cr_networks = [], joined_at = now, banned = False, client_ip = None\<rparr>"

definition registry_init :: registry where "registry_init = []"

section \<open>Operations\<close>

definition register :: "time \<Rightarrow> string \<Rightarrow> string \<Rightarrow> registry \<Rightarrow> registry" where
  "register now client_id pem reg =
     (let reg' = (case dict_get reg client_id of
                    None \<Rightarrow> dict_set client_id (new_client_record now client_id pem) reg
                  | Some _ \<Rightarrow> reg)
      in dict_upd client_id (\<lambda>r. r\<lparr>public_key_pem := pem\<rparr>) reg')"

definition unregister :: "string \<Rightarrow> registry \<Rightarrow> registry" where
  "unregister client_id reg = dict_upd client_id (\<lambda>r. r\<lparr>online := False, public_endpoint := None\<rparr>) reg"

definition forget :: "string \<Rightarrow> registry \<Rightarrow> registry" where
  "forget client_id reg = dict_del client_id reg"

definition registry_get :: "registry \<Rightarrow> string \<Rightarrow> client_record option" where
  [model_defs]: "registry_get reg client_id = dict_get reg client_id"

definition get_online :: "registry \<Rightarrow> client_record list" where
  "get_online reg = filter online (dict_values reg)"

definition get_all :: "registry \<Rightarrow> client_record list" where
  "get_all reg = dict_values reg"

definition registry_len :: "registry \<Rightarrow> nat" where
  "registry_len reg = length reg"

definition online_count :: "registry \<Rightarrow> nat" where
  "online_count reg = sum_list (map (\<lambda>r. if online r then 1 else 0) (dict_values reg))"

definition registry_has :: "registry \<Rightarrow> string \<Rightarrow> bool" where
  "registry_has reg client_id = dict_has reg client_id"

definition is_banned :: "registry \<Rightarrow> string \<Rightarrow> bool" where
  "is_banned reg client_id = (case dict_get reg client_id of None \<Rightarrow> False | Some r \<Rightarrow> banned r)"

definition set_online :: "time \<Rightarrow> string \<Rightarrow> registry \<Rightarrow> bool \<times> registry" where
  "set_online now client_id reg =
     (case dict_get reg client_id of
        None \<Rightarrow> (False, reg)
      | Some r \<Rightarrow>
          if banned r then (False, reg)
          else (True, dict_upd client_id (\<lambda>r. r\<lparr>online := True, last_heartbeat := now\<rparr>) reg))"

definition update_endpoint :: "string \<Rightarrow> string \<times> int \<Rightarrow> registry \<Rightarrow> registry" where
  "update_endpoint client_id addr reg =
     dict_upd client_id (\<lambda>r. r\<lparr>public_endpoint := Some addr, client_ip := Some (fst addr)\<rparr>) reg"

definition heartbeat :: "time \<Rightarrow> string \<Rightarrow> registry \<Rightarrow> bool \<times> registry" where
  "heartbeat now client_id reg =
     (case dict_get reg client_id of
        None \<Rightarrow> (False, reg)
      | Some _ \<Rightarrow> (True, dict_upd client_id (\<lambda>r. r\<lparr>last_heartbeat := now, online := True\<rparr>) reg))"

definition is_stale :: "time \<Rightarrow> client_record \<Rightarrow> bool" where
  "is_stale cutoff r \<longleftrightarrow> online r \<and> last_heartbeat r < cutoff"

definition prune_stale :: "time \<Rightarrow> time \<Rightarrow> registry \<Rightarrow> string list \<times> registry" where
  "prune_stale now timeout reg =
     (let cutoff = now - timeout in
      (map fst (filter (\<lambda>p. is_stale cutoff (snd p)) reg),
       map (\<lambda>p. (fst p, if is_stale cutoff (snd p) then (snd p)\<lparr>online := False\<rparr> else snd p)) reg))"

definition add_network :: "string \<Rightarrow> string \<Rightarrow> registry \<Rightarrow> registry" where
  "add_network client_id network_id reg =
     dict_upd client_id (\<lambda>r. r\<lparr>cr_networks := set_add network_id (cr_networks r)\<rparr>) reg"

definition remove_network :: "string \<Rightarrow> string \<Rightarrow> registry \<Rightarrow> registry" where
  "remove_network client_id network_id reg =
     dict_upd client_id (\<lambda>r. r\<lparr>cr_networks := set_discard network_id (cr_networks r)\<rparr>) reg"

definition networks_for :: "registry \<Rightarrow> string \<Rightarrow> string list" where
  "networks_for reg client_id = (case dict_get reg client_id of None \<Rightarrow> [] | Some r \<Rightarrow> cr_networks r)"

definition members_in_networks :: "registry \<Rightarrow> string list \<Rightarrow> client_record list" where
  "members_in_networks reg network_ids =
     filter (\<lambda>r. online r \<and> (\<exists>n \<in> set network_ids. n \<in> set (cr_networks r))) (dict_values reg)"

section \<open>Well-formedness\<close>

definition registry_wf :: "registry \<Rightarrow> bool" where
  "registry_wf reg \<longleftrightarrow> dict_wf reg
     \<and> (\<forall>p \<in> set reg. cr_client_id (snd p) = fst p \<and> distinct (cr_networks (snd p)))"

lemma registry_wf_upd:
  assumes "registry_wf reg"
    and "\<And>r. cr_client_id (f r) = cr_client_id r"
    and "\<And>r. distinct (cr_networks r) \<Longrightarrow> distinct (cr_networks (f r))"
  shows "registry_wf (dict_upd k f reg)"
  using assms by (auto simp: registry_wf_def dict_upd_def comp_def)

lemma registry_wf_set:
  assumes "registry_wf reg" "cr_client_id r = k" "distinct (cr_networks r)"
  shows "registry_wf (dict_set k r reg)"
  using assms by (auto simp: registry_wf_def set_dict_set)

lemma wf_registry_init [simp]: "registry_wf registry_init"
  by (simp add: registry_wf_def registry_init_def)

lemma wf_register [simp]: "registry_wf reg \<Longrightarrow> registry_wf (register now c pem reg)"
  unfolding register_def Let_def
  by (rule registry_wf_upd) (auto split: option.splits intro: registry_wf_set simp: new_client_record_def)

lemma wf_unregister [simp]: "registry_wf reg \<Longrightarrow> registry_wf (unregister c reg)"
  unfolding unregister_def by (rule registry_wf_upd) auto

lemma wf_forget [simp]: "registry_wf reg \<Longrightarrow> registry_wf (forget c reg)"
  by (auto simp: registry_wf_def forget_def set_dict_del)

lemma wf_set_online [simp]: "registry_wf reg \<Longrightarrow> registry_wf (snd (set_online now c reg))"
  unfolding set_online_def by (auto split: option.splits intro!: registry_wf_upd)

lemma wf_update_endpoint [simp]: "registry_wf reg \<Longrightarrow> registry_wf (update_endpoint c a reg)"
  unfolding update_endpoint_def by (rule registry_wf_upd) auto

lemma wf_heartbeat [simp]: "registry_wf reg \<Longrightarrow> registry_wf (snd (heartbeat now c reg))"
  unfolding heartbeat_def by (auto split: option.splits intro!: registry_wf_upd)

lemma wf_prune_stale [simp]: "registry_wf reg \<Longrightarrow> registry_wf (snd (prune_stale now t reg))"
  by (auto simp: registry_wf_def prune_stale_def Let_def comp_def)

lemma wf_add_network [simp]: "registry_wf reg \<Longrightarrow> registry_wf (add_network c n reg)"
  unfolding add_network_def by (rule registry_wf_upd) auto

lemma wf_remove_network [simp]: "registry_wf reg \<Longrightarrow> registry_wf (remove_network c n reg)"
  unfolding remove_network_def by (rule registry_wf_upd) auto

lemma map_of_prune_stale:
  "map_of (snd (prune_stale now t reg)) c =
     map_option (\<lambda>r. if is_stale (now - t) r then r\<lparr>online := False\<rparr> else r) (map_of reg c)"
  unfolding prune_stale_def Let_def snd_conv
  by (rule map_of_map_vals [where g = "\<lambda>_ r. if is_stale (now - t) r then r\<lparr>online := False\<rparr> else r"])

section \<open>Membership contract\<close>

locale membership_registry =
  fixes known :: "'reg \<Rightarrow> string \<Rightarrow> bool"
    and in_net :: "'reg \<Rightarrow> string \<Rightarrow> string \<Rightarrow> bool"
    and add :: "string \<Rightarrow> string \<Rightarrow> 'reg \<Rightarrow> 'reg"
    and remove :: "string \<Rightarrow> string \<Rightarrow> 'reg \<Rightarrow> 'reg"
  assumes known_add: "known (add c n reg) c' = known reg c'"
    and known_remove: "known (remove c n reg) c' = known reg c'"
    and in_add: "in_net (add c n reg) c' n' \<longleftrightarrow> in_net reg c' n' \<or> (c' = c \<and> n' = n \<and> known reg c)"
    and in_remove: "in_net (remove c n reg) c' n' \<longleftrightarrow> in_net reg c' n' \<and> \<not> (c' = c \<and> n' = n)"
begin

lemma known_remove_all: "known (fold (\<lambda>c. remove c n) cs reg) c' = known reg c'"
  by (induction cs arbitrary: reg) (auto simp: known_remove)

lemma in_remove_all:
  "in_net (fold (\<lambda>c. remove c n) cs reg) c' n' \<longleftrightarrow> in_net reg c' n' \<and> \<not> (c' \<in> set cs \<and> n' = n)"
  by (induction cs arbitrary: reg) (auto simp: in_remove)

lemma known_leave_all: "known (fold (\<lambda>n. remove c n) ns reg) c' = known reg c'"
  by (induction ns arbitrary: reg) (auto simp: known_remove)

lemma in_leave_all:
  "in_net (fold (\<lambda>n. remove c n) ns reg) c' n' \<longleftrightarrow> in_net reg c' n' \<and> \<not> (c' = c \<and> n' \<in> set ns)"
  by (induction ns arbitrary: reg) (auto simp: in_remove)

end

definition in_network :: "registry \<Rightarrow> string \<Rightarrow> string \<Rightarrow> bool" where
  "in_network reg c n \<longleftrightarrow> n \<in> set (networks_for reg c)"

interpretation reg_membership: membership_registry dict_has in_network add_network remove_network
proof unfold_locales
  fix c n c' n' and reg :: registry
  show "dict_has (add_network c n reg) c' = dict_has reg c'" by (simp add: add_network_def)
  show "dict_has (remove_network c n reg) c' = dict_has reg c'" by (simp add: remove_network_def)
  show "in_network (add_network c n reg) c' n' \<longleftrightarrow> in_network reg c' n' \<or> (c' = c \<and> n' = n \<and> dict_has reg c)"
    by (cases "map_of reg c") (auto simp: in_network_def networks_for_def add_network_def dict_has_def)
  show "in_network (remove_network c n reg) c' n' \<longleftrightarrow> in_network reg c' n' \<and> \<not> (c' = c \<and> n' = n)"
    by (cases "map_of reg c") (auto simp: in_network_def networks_for_def remove_network_def)
qed

section \<open>Properties\<close>

text \<open>Pruning marks offline exactly the online clients whose last heartbeat is older than the
  timeout, reports exactly those, and leaves every other record, and every other field of the
  pruned records, unchanged.\<close>

theorem prune_stale_exact:
  assumes "registry_wf reg" and "prune_stale now timeout reg = (stale, reg')"
  shows "(\<forall>c. c \<in> set stale \<longleftrightarrow>
            (\<exists>r. registry_get reg c = Some r \<and> online r \<and> last_heartbeat r < now - timeout))
    \<and> (\<forall>c. registry_get reg' c =
            (if c \<in> set stale then map_option (\<lambda>r. r\<lparr>online := False\<rparr>) (registry_get reg c)
             else registry_get reg c))
    \<and> fst (prune_stale now timeout reg') = []"
proof -
  have wf: "dict_wf reg" using assms(1) by (simp add: registry_wf_def)
  have stale: "c \<in> set stale \<longleftrightarrow> (\<exists>r. map_of reg c = Some r \<and> is_stale (now - timeout) r)" for c
    using assms(2) wf by (force simp: prune_stale_def Let_def image_iff)
  have reg': "map_of reg' c = map_option (\<lambda>r. if is_stale (now - timeout) r then r\<lparr>online := False\<rparr> else r) (map_of reg c)" for c
    using map_of_prune_stale [of now timeout reg c] assms(2) by simp
  have "fst (prune_stale now timeout reg') = []"
    using assms(2) by (auto simp: prune_stale_def Let_def is_stale_def filter_empty_conv split: if_splits)
  moreover have "map_of reg' c = (if c \<in> set stale then map_option (\<lambda>r. r\<lparr>online := False\<rparr>) (map_of reg c)
             else map_of reg c)" for c
    using stale [of c] reg' [of c] by (cases "map_of reg c") auto
  ultimately show ?thesis using stale by (auto simp: registry_get_def is_stale_def)
qed

theorem prune_stale_exact_witness:
  "fst (prune_stale 100 90 [(''a'', (new_client_record 5 ''a'' ''k'')\<lparr>online := True\<rparr>),
                            (''b'', (new_client_record 50 ''b'' ''k'')\<lparr>online := True\<rparr>)]) = [''a'']
   \<and> (\<forall>c. c \<in> set [''a''] \<longleftrightarrow> (\<exists>r. registry_get [(''a'', (new_client_record 5 ''a'' ''k'')\<lparr>online := True\<rparr>),
            (''b'', (new_client_record 50 ''b'' ''k'')\<lparr>online := True\<rparr>)] c = Some r \<and> online r \<and> last_heartbeat r < 100 - 90))"
proof -
  let ?reg = "[(''a'', (new_client_record 5 ''a'' ''k'')\<lparr>online := True\<rparr>),
               (''b'', (new_client_record 50 ''b'' ''k'')\<lparr>online := True\<rparr>)]"
  have wf: "registry_wf ?reg" by (simp add: registry_wf_def new_client_record_def)
  have f: "fst (prune_stale 100 90 ?reg) = [''a'']"
    by (simp add: prune_stale_def is_stale_def new_client_record_def)
  obtain reg' where p: "prune_stale 100 90 ?reg = ([''a''], reg')" using f by (metis prod.collapse)
  show ?thesis using f prune_stale_exact [OF wf p] by blast
qed

end
