(* ===== verification/Network_Manager.thy ===== *)
theory Network_Manager
  imports Registry Protocol
begin

text \<open>
  Virtual networks, exposed services and invite codes: \<^verbatim>\<open>server/network_manager.py\<close>.  The
  manager holds a reference to the client registry and updates it together with its own
  tables, so the registry is a field of its state.  bcrypt is third-party code and enters as
  the record \<open>bcrypt\<close> of its two functions (\<open>None\<close> is the ValueError they may raise); random
  identifiers and clock readings are arguments.
\<close>

section \<open>State\<close>

record network_record =
  network_id :: string
  net_name :: string
  password_hash :: bytes
  owner_id :: string
  topology :: string
  members :: "string list"
  hub_id :: "string option"
  gateway_id :: "string option"
  net_created_at :: time

record service_record =
  service_id :: string
  svc_network_id :: string
  provider_id :: string
  svc_name :: string
  svc_protocol :: string
  local_host :: string
  local_port :: int
  svc_created_at :: time

record network_manager =
  nm_registry :: registry
  nm_networks :: "(string, network_record) dict"
  nm_banned :: "string list"
  nm_services :: "(string, (string, service_record) dict) dict"
  invite_codes :: "(string, string) dict"
  network_invite_codes :: "(string, string) dict"

record bcrypt =
  hashpw :: "bytes \<Rightarrow> bytes \<Rightarrow> bytes option"
  checkpw :: "bytes \<Rightarrow> bytes \<Rightarrow> bool option"

definition nm_init :: "registry \<Rightarrow> network_manager" where
  "nm_init reg = \<lparr>nm_registry = reg, nm_networks = [], nm_banned = [], nm_services = [],
                  invite_codes = [], network_invite_codes = []\<rparr>"

definition network_to_dict :: "(time \<Rightarrow> string) \<Rightarrow> network_record \<Rightarrow> nat option \<Rightarrow> (string, json) dict" where
  "network_to_dict float_repr r member_count =
     [(''network_id'', JStr (network_id r)), (''name'', JStr (net_name r)),
      (''owner_id'', JStr (owner_id r)), (''topology'', JStr (topology r)),
      (''member_count'', JInt (int (case member_count of None \<Rightarrow> length (members r) | Some n \<Rightarrow> n))),
      (''created_at'', JFloat (float_repr (net_created_at r)))]"

definition service_to_dict :: "(time \<Rightarrow> string) \<Rightarrow> service_record \<Rightarrow> (string, json) dict" where
  "service_to_dict float_repr s =
     [(''service_id'', JStr (service_id s)), (''network_id'', JStr (svc_network_id s)),
      (''provider_id'', JStr (provider_id s)), (''name'', JStr (svc_name s)),
      (''protocol'', JStr (svc_protocol s)), (''local_host'', JStr (local_host s)),
      (''local_port'', JInt (local_port s)), (''created_at'', JFloat (float_repr (svc_created_at s)))]"

section \<open>Networks\<close>

definition create :: "bcrypt \<Rightarrow> time \<Rightarrow> string \<Rightarrow> bytes \<Rightarrow> string \<Rightarrow> string \<Rightarrow> string \<Rightarrow> string
    \<Rightarrow> string option \<Rightarrow> network_manager \<Rightarrow> (network_record \<times> network_manager) result" where
  "create bc now uuid salt name password owner topo net_id m =
     (if topo \<notin> set SUPPORTED_TOPOLOGIES then Inl (ValueError (''unsupported topology: '' @ topo))
      else
        (case hashpw bc (encode password) salt of
           None \<Rightarrow> Inl (ValueError ''bcrypt'')
         | Some h \<Rightarrow>
             (let nid = (case net_id of Some n \<Rightarrow> if n \<noteq> [] then n else uuid | None \<Rightarrow> uuid);
                  r = \<lparr>network_id = nid, net_name = name, password_hash = h, owner_id = owner,
                       topology = topo, members = set_add owner [],
                       hub_id = (if topo = ''hub_and_spoke'' then Some owner else None),
                       gateway_id = (if topo = ''gateway'' then Some owner else None),
                       net_created_at = now\<rparr>
              in Inr (r, m\<lparr>nm_networks := dict_set nid r (nm_networks m),
                          nm_registry := add_network owner nid (nm_registry m)\<rparr>))))"

definition nm_get :: "network_manager \<Rightarrow> string \<Rightarrow> network_record option" where
  [model_defs]: "nm_get m nid = dict_get (nm_networks m) nid"

definition list_all_networks :: "network_manager \<Rightarrow> network_record list" where
  "list_all_networks m = dict_values (nm_networks m)"

definition nm_len :: "network_manager \<Rightarrow> nat" where
  "nm_len m = length (nm_networks m)"

definition nm_is_banned :: "network_manager \<Rightarrow> string \<Rightarrow> bool" where
  "nm_is_banned m nid \<longleftrightarrow> nid \<in> set (nm_banned m)"

definition add_member :: "string \<Rightarrow> string \<Rightarrow> network_manager \<Rightarrow> network_manager" where
  "add_member nid client m =
     m\<lparr>nm_networks := dict_upd nid (\<lambda>r. r\<lparr>members := set_add client (members r)\<rparr>) (nm_networks m),
       nm_registry := add_network client nid (nm_registry m)\<rparr>"

definition join_net :: "bcrypt \<Rightarrow> string \<Rightarrow> string \<Rightarrow> string \<Rightarrow> network_manager \<Rightarrow> bool \<times> network_manager" where
  "join_net bc nid client password m =
     (case dict_get (nm_networks m) nid of
        None \<Rightarrow> (False, m)
      | Some r \<Rightarrow>
          if nm_is_banned m nid then (False, m)
          else if checkpw bc (encode password) (password_hash r) = Some True
          then (True, add_member nid client m)
          else (False, m))"

definition drop_member :: "string \<Rightarrow> network_record \<Rightarrow> network_record" where
  "drop_member client r =
     r\<lparr>members := set_discard client (members r),
       hub_id := (if hub_id r = Some client then None else hub_id r),
       gateway_id := (if gateway_id r = Some client then None else gateway_id r)\<rparr>"

definition leave :: "string \<Rightarrow> string \<Rightarrow> network_manager \<Rightarrow> bool \<times> network_manager" where
  "leave nid client m =
     (case dict_get (nm_networks m) nid of
        None \<Rightarrow> (False, m)
      | Some r \<Rightarrow>
          if client \<notin> set (members r) then (False, m)
          else (True, m\<lparr>nm_networks := dict_upd nid (drop_member client) (nm_networks m),
                        nm_registry := remove_network client nid (nm_registry m)\<rparr>))"

definition is_member :: "network_manager \<Rightarrow> string \<Rightarrow> string \<Rightarrow> bool" where
  "is_member m nid client =
     (case dict_get (nm_networks m) nid of None \<Rightarrow> False | Some r \<Rightarrow> client \<in> set (members r))"

definition members_of :: "network_manager \<Rightarrow> string \<Rightarrow> string list" where
  "members_of m nid = (case dict_get (nm_networks m) nid of None \<Rightarrow> [] | Some r \<Rightarrow> members r)"

definition get_peers :: "network_manager \<Rightarrow> string \<Rightarrow> string \<Rightarrow> client_record list" where
  "get_peers m nid client =
     (case dict_get (nm_networks m) nid of
        None \<Rightarrow> []
      | Some r \<Rightarrow>
          List.map_filter
            (\<lambda>mid. if mid = client then None
                   else (case registry_get (nm_registry m) mid of
                           Some c \<Rightarrow> if online c then Some c else None
                         | None \<Rightarrow> None))
            (members r))"

definition list_for_client :: "network_manager \<Rightarrow> string \<Rightarrow> network_record list" where
  "list_for_client m client = filter (\<lambda>r. client \<in> set (members r)) (dict_values (nm_networks m))"

definition delete_net :: "string \<Rightarrow> string \<Rightarrow> network_manager \<Rightarrow> bool \<times> network_manager" where
  "delete_net nid requester m =
     (case dict_get (nm_networks m) nid of
        None \<Rightarrow> (False, m)
      | Some r \<Rightarrow>
          if owner_id r \<noteq> requester then (False, m)
          else
            (let reg' = fold (\<lambda>c. remove_network c nid) (members r) (nm_registry m);
                 codes' = (case dict_get (network_invite_codes m) nid of
                             Some code \<Rightarrow> if code \<noteq> [] then dict_del code (invite_codes m) else invite_codes m
                           | None \<Rightarrow> invite_codes m)
             in (True, m\<lparr>nm_registry := reg', invite_codes := codes',
                         network_invite_codes := dict_del nid (network_invite_codes m),
                         nm_networks := dict_del nid (nm_networks m)\<rparr>)))"

text \<open>One iteration of the loop of \<^verbatim>\<open>purge_client\<close>: the networks are visited in their order, and a
  network that loses its last member is deleted.\<close>

definition purge_step :: "string \<Rightarrow> string \<times> network_record \<Rightarrow> string list \<times> network_manager
    \<Rightarrow> string list \<times> network_manager" where
  "purge_step client p acc =
     (if client \<in> set (members (snd p)) then
        (let m = snd acc;
             r' = drop_member client (snd p);
             nets = (if members r' = [] then dict_del (fst p) (nm_networks m)
                     else dict_upd (fst p) (drop_member client) (nm_networks m))
         in (fst acc @ [fst p],
             m\<lparr>nm_registry := remove_network client (fst p) (nm_registry m), nm_networks := nets\<rparr>))
      else acc)"

definition drop_provider :: "string \<Rightarrow> (string, (string, service_record) dict) dict
    \<Rightarrow> (string, (string, service_record) dict) dict" where
  "drop_provider client svcs =
     map (\<lambda>p. (fst p, filter (\<lambda>q. provider_id (snd q) \<noteq> client) (snd p))) svcs"

definition purge_client :: "string \<Rightarrow> network_manager \<Rightarrow> string list \<times> network_manager" where
  "purge_client client m =
     (let (removed, m') = fold (purge_step client) (nm_networks m) ([], m)
      in (removed, m'\<lparr>nm_services := drop_provider client (nm_services m')\<rparr>))"

section \<open>Services\<close>

definition expose_service :: "time \<Rightarrow> string \<Rightarrow> string \<Rightarrow> string \<Rightarrow> string \<Rightarrow> string \<Rightarrow> string \<Rightarrow> int
    \<Rightarrow> network_manager \<Rightarrow> (string \<times> network_manager) result" where
  "expose_service now uuid nid provider name protocol lhost lport m =
     (if \<not> is_member m nid provider then Inl (ValueError ''client not a member of this network'')
      else
        (let svc = \<lparr>service_id = uuid, svc_network_id = nid, provider_id = provider, svc_name = name,
                    svc_protocol = protocol, local_host = lhost, local_port = lport, svc_created_at = now\<rparr>;
             tbl = dict_get_or (nm_services m) nid []
         in Inr (uuid, m\<lparr>nm_services := dict_set nid (dict_set uuid svc tbl) (nm_services m)\<rparr>)))"

definition unexpose_service :: "string \<Rightarrow> string \<Rightarrow> network_manager \<Rightarrow> bool \<times> network_manager" where
  "unexpose_service nid sid m =
     (if dict_has (dict_get_or (nm_services m) nid []) sid
      then (True, m\<lparr>nm_services := dict_upd nid (dict_del sid) (nm_services m)\<rparr>)
      else (False, m))"

definition list_services :: "network_manager \<Rightarrow> string \<Rightarrow> service_record list" where
  "list_services m nid = dict_values (dict_get_or (nm_services m) nid [])"

definition get_service :: "network_manager \<Rightarrow> string \<Rightarrow> service_record option" where
  "get_service m sid =
     (case find (\<lambda>tbl. dict_has tbl sid) (dict_values (nm_services m)) of
        None \<Rightarrow> None | Some tbl \<Rightarrow> dict_get tbl sid)"

definition owns_service :: "string \<Rightarrow> string \<Rightarrow> (string, service_record) dict \<Rightarrow> bool" where
  "owns_service sid client tbl =
     (case dict_get tbl sid of None \<Rightarrow> False | Some svc \<Rightarrow> provider_id svc = client)"

definition unexpose_service_owner :: "string \<Rightarrow> string \<Rightarrow> network_manager \<Rightarrow> string option \<times> network_manager" where
  "unexpose_service_owner sid client m =
     (case find (\<lambda>p. owns_service sid client (snd p)) (nm_services m) of
        None \<Rightarrow> (None, m)
      | Some (nid, _) \<Rightarrow> (Some nid, m\<lparr>nm_services := dict_upd nid (dict_del sid) (nm_services m)\<rparr>))"

definition purge_client_services :: "string \<Rightarrow> network_manager \<Rightarrow> string list \<times> network_manager" where
  "purge_client_services client m =
     (concat (map (\<lambda>p. map fst (filter (\<lambda>q. provider_id (snd q) = client) (snd p))) (nm_services m)),
      m\<lparr>nm_services := drop_provider client (nm_services m)\<rparr>)"

section \<open>Invite codes\<close>

text \<open>\<open>draws\<close> are the codes that \<^verbatim>\<open>random.choices\<close> returns, \<open>hex6\<close> the hexadecimal prefix
  of the UUID of the fallback.\<close>

definition generate_invite_code :: "(nat \<Rightarrow> string) \<Rightarrow> string \<Rightarrow> string \<Rightarrow> network_manager
    \<Rightarrow> (string \<times> network_manager) result" where
  "generate_invite_code draws hex6 nid m =
     (case dict_get (nm_networks m) nid of
        None \<Rightarrow> Inl (ValueError ''network not found'')
      | Some r \<Rightarrow>
          (case dict_get (network_invite_codes m) nid of
             Some code \<Rightarrow> Inr (code, m)
           | None \<Rightarrow>
               (let code = (case find (\<lambda>c. \<not> dict_has (invite_codes m) c) (map draws [0..<10]) of
                              Some c \<Rightarrow> c
                            | None \<Rightarrow> lower (py_take 4 (net_name r)) @ ''-'' @ hex6)
                in Inr (code, m\<lparr>invite_codes := dict_set code nid (invite_codes m),
                               network_invite_codes := dict_set nid code (network_invite_codes m)\<rparr>))))"

definition join_by_invite_code :: "bcrypt \<Rightarrow> string \<Rightarrow> string \<Rightarrow> string \<Rightarrow> network_manager
    \<Rightarrow> network_record option \<times> network_manager" where
  "join_by_invite_code bc code client password m =
     (case dict_get (invite_codes m) code of
        None \<Rightarrow> (None, m)
      | Some nid \<Rightarrow>
          (case dict_get (nm_networks m) nid of
             None \<Rightarrow> (None, m)
           | Some r \<Rightarrow>
               if nm_is_banned m nid then (None, m)
               else if checkpw bc (encode password) (password_hash r) = Some True
               then (let m' = add_member nid client m in (dict_get (nm_networks m') nid, m'))
               else (None, m)))"

definition get_invite_code :: "(nat \<Rightarrow> string) \<Rightarrow> string \<Rightarrow> string \<Rightarrow> network_manager
    \<Rightarrow> (string option \<times> network_manager) result" where
  "get_invite_code draws hex6 nid m =
     (if \<not> dict_has (nm_networks m) nid then Inr (None, m)
      else (case generate_invite_code draws hex6 nid m of
              Inl e \<Rightarrow> Inl e | Inr (c, m') \<Rightarrow> Inr (Some c, m')))"

section \<open>Endpoints\<close>

definition shared_endpoints_for :: "network_manager \<Rightarrow> string \<Rightarrow> string \<Rightarrow> string \<Rightarrow> (string \<times> int) list option" where
  "shared_endpoints_for m nid requester target =
     (case dict_get (nm_networks m) nid of
        None \<Rightarrow> None
      | Some r \<Rightarrow>
          if requester = target then None
          else if requester \<notin> set (members r) \<or> target \<notin> set (members r) then None
          else
            (case registry_get (nm_registry m) target of
               None \<Rightarrow> None
             | Some t \<Rightarrow>
                 if \<not> online t then None
                 else
                   (case public_endpoint t of
                      None \<Rightarrow> None
                    | Some ep \<Rightarrow>
                        if topology r = ''hub_and_spoke'' \<and> hub_id r \<noteq> Some target then None
                        else Some [ep])))"

section \<open>Invariant\<close>

definition net_ok :: "string \<Rightarrow> network_record \<Rightarrow> bool" where
  "net_ok n r \<longleftrightarrow> network_id r = n \<and> distinct (members r) \<and> topology r \<in> set SUPPORTED_TOPOLOGIES
     \<and> (\<forall>h. hub_id r = Some h \<longrightarrow> h \<in> set (members r))
     \<and> (\<forall>g. gateway_id r = Some g \<longrightarrow> g \<in> set (members r))"

text \<open>The tables agree: a client is in the member set of a network exactly when the registry
  lists the network for the client (in particular every member is a registered client).\<close>

definition nm_inv :: "network_manager \<Rightarrow> bool" where
  "nm_inv m \<longleftrightarrow> registry_wf (nm_registry m) \<and> dict_wf (nm_networks m)
     \<and> (\<forall>n r. dict_get (nm_networks m) n = Some r \<longrightarrow> net_ok n r)
     \<and> (\<forall>c n. in_network (nm_registry m) c n \<longleftrightarrow> is_member m n c)"

lemma nm_invI:
  assumes "registry_wf (nm_registry m)" "dict_wf (nm_networks m)"
    and "\<And>n r. dict_get (nm_networks m) n = Some r \<Longrightarrow> net_ok n r"
    and "\<And>c n. in_network (nm_registry m) c n \<longleftrightarrow> is_member m n c"
  shows "nm_inv m"
  using assms by (simp add: nm_inv_def)

lemma nm_invD:
  assumes "nm_inv m"
  shows "registry_wf (nm_registry m)" "dict_wf (nm_networks m)"
    "dict_get (nm_networks m) n = Some r \<Longrightarrow> net_ok n r"
    "in_network (nm_registry m) c n \<longleftrightarrow> is_member m n c"
  using assms by (simp_all add: nm_inv_def)

lemma member_known: "nm_inv m \<Longrightarrow> is_member m n c \<Longrightarrow> dict_has (nm_registry m) c"
  using nm_invD(4) [of m c n]
  by (cases "map_of (nm_registry m) c") (auto simp: in_network_def networks_for_def dict_has_def)

lemma nm_inv_init: "registry_wf reg \<Longrightarrow> (\<And>c. networks_for reg c = []) \<Longrightarrow> nm_inv (nm_init reg)"
  by (rule nm_invI) (simp_all add: nm_init_def in_network_def is_member_def)

text \<open>Operations of the registry that do not touch memberships keep the invariant.\<close>

lemma nm_inv_registry:
  assumes "nm_inv m" "registry_wf reg" "\<And>c. set (networks_for reg c) = set (networks_for (nm_registry m) c)"
  shows "nm_inv (m\<lparr>nm_registry := reg\<rparr>)"
proof -
  have "in_network reg c n \<longleftrightarrow> is_member m n c" for c n
    using nm_invD(4) [OF assms(1), of c n] assms(3) [of c] by (simp add: in_network_def)
  then show ?thesis using assms(1,2) by (simp add: nm_inv_def is_member_def)
qed

lemma networks_for_register: "set (networks_for (register now c pem reg) c') = set (networks_for reg c')"
  by (auto simp: networks_for_def register_def Let_def new_client_record_def split: option.splits)

lemma networks_for_unregister: "networks_for (unregister c reg) c' = networks_for reg c'"
  by (cases "map_of reg c") (auto simp: networks_for_def unregister_def)

lemma networks_for_set_online: "networks_for (snd (set_online now c reg)) c' = networks_for reg c'"
  by (auto simp: networks_for_def set_online_def split: option.splits)

lemma networks_for_update_endpoint: "networks_for (update_endpoint c a reg) c' = networks_for reg c'"
  by (cases "map_of reg c") (auto simp: networks_for_def update_endpoint_def)

lemma networks_for_heartbeat: "networks_for (snd (heartbeat now c reg)) c' = networks_for reg c'"
  by (auto simp: networks_for_def heartbeat_def split: option.splits)

lemma networks_for_prune_stale: "networks_for (snd (prune_stale now t reg)) c' = networks_for reg c'"
  by (auto simp: networks_for_def map_of_prune_stale split: option.splits)

lemmas networks_for_frame = networks_for_register networks_for_unregister networks_for_set_online
  networks_for_update_endpoint networks_for_heartbeat networks_for_prune_stale

section \<open>Every operation keeps the invariant\<close>

lemma create_Inr:
  assumes "create bc now uuid salt name pw owner topo None m = Inr (r, m')"
  shows "topo \<in> set SUPPORTED_TOPOLOGIES \<and> hashpw bc (encode pw) salt = Some (password_hash r)
    \<and> network_id r = uuid \<and> net_name r = name \<and> owner_id r = owner \<and> topology r = topo \<and> members r = [owner]
    \<and> hub_id r = (if topo = ''hub_and_spoke'' then Some owner else None)
    \<and> gateway_id r = (if topo = ''gateway'' then Some owner else None)
    \<and> m' = m\<lparr>nm_networks := dict_set uuid r (nm_networks m),
             nm_registry := add_network owner uuid (nm_registry m)\<rparr>"
  using assms by (auto simp: create_def Let_def set_add_def split: if_splits option.splits)

lemma create_inv:
  assumes "nm_inv m" "create bc now uuid salt name pw owner topo None m = Inr (r, m')"
    and fresh: "\<not> dict_has (nm_networks m) uuid" and known: "dict_has (nm_registry m) owner"
  shows "nm_inv m'"
proof -
  note c = create_Inr [OF assms(2)]
  have nm: "\<not> is_member m uuid x" for x using fresh by (simp add: is_member_def dict_has_def)
  show ?thesis
  proof (rule nm_invI)
    show "registry_wf (nm_registry m')" using nm_invD(1) [OF assms(1)] c by simp
    show "dict_wf (nm_networks m')" using nm_invD(2) [OF assms(1)] c by simp
    show "net_ok n x" if "dict_get (nm_networks m') n = Some x" for n x
      using that c nm_invD(3) [OF assms(1)] by (auto simp: net_ok_def split: if_splits)
    show "in_network (nm_registry m') x n \<longleftrightarrow> is_member m' n x" for x n
      using c nm_invD(4) [OF assms(1), of x n] nm known
      by (auto simp: reg_membership.in_add is_member_def split: if_splits)
  qed
qed

lemma add_member_inv:
  assumes "nm_inv m" "dict_has (nm_networks m) nid" "dict_has (nm_registry m) client"
  shows "nm_inv (add_member nid client m)"
proof (rule nm_invI)
  show "registry_wf (nm_registry (add_member nid client m))"
    using nm_invD(1) [OF assms(1)] by (simp add: add_member_def)
  show "dict_wf (nm_networks (add_member nid client m))"
    using nm_invD(2) [OF assms(1)] by (simp add: add_member_def)
  show "net_ok n r" if "dict_get (nm_networks (add_member nid client m)) n = Some r" for n r
    using that nm_invD(3) [OF assms(1)] by (auto simp: add_member_def net_ok_def split: if_splits)
  show "in_network (nm_registry (add_member nid client m)) c n \<longleftrightarrow> is_member (add_member nid client m) n c" for c n
    using assms(2,3) nm_invD(4) [OF assms(1), of c n]
    by (auto simp: add_member_def reg_membership.in_add is_member_def dict_has_def)
qed

lemma join_net_inv:
  "nm_inv m \<Longrightarrow> dict_has (nm_registry m) client \<Longrightarrow> nm_inv (snd (join_net bc nid client pw m))"
  by (auto simp: join_net_def dict_has_def intro!: add_member_inv split: option.splits)

lemma join_by_invite_code_inv:
  "nm_inv m \<Longrightarrow> dict_has (nm_registry m) client \<Longrightarrow> nm_inv (snd (join_by_invite_code bc code client pw m))"
  by (auto simp: join_by_invite_code_def Let_def dict_has_def intro!: add_member_inv split: option.splits)

lemma net_ok_drop: "net_ok n r \<Longrightarrow> net_ok n (drop_member c r)"
  by (auto simp: net_ok_def drop_member_def)

lemma leave_inv:
  assumes "nm_inv m"
  shows "nm_inv (snd (leave nid client m))"
proof (cases "fst (leave nid client m)")
  case False
  then have "snd (leave nid client m) = m" by (auto simp: leave_def split: option.splits if_splits)
  with assms show ?thesis by simp
next
  case True
  let ?m' = "m\<lparr>nm_networks := dict_upd nid (drop_member client) (nm_networks m),
                        nm_registry := remove_network client nid (nm_registry m)\<rparr>"
  have m': "snd (leave nid client m) = ?m'"
    using True by (auto simp: leave_def split: option.splits if_splits)
  have "nm_inv ?m'"
  proof (rule nm_invI)
    show "registry_wf (nm_registry ?m')" "dict_wf (nm_networks ?m')"
      using nm_invD(1,2) [OF assms] by simp_all
    show "net_ok n r" if "dict_get (nm_networks ?m') n = Some r" for n r
      using that nm_invD(3) [OF assms] by (auto intro: net_ok_drop split: if_splits)
    show "in_network (nm_registry ?m') c n \<longleftrightarrow> is_member ?m' n c" for c n
      using nm_invD(4) [OF assms, of c n]
      by (auto simp: reg_membership.in_remove is_member_def drop_member_def split: option.splits)
  qed
  with m' show ?thesis by simp
qed

lemma delete_net_inv:
  assumes "nm_inv m"
  shows "nm_inv (snd (delete_net nid requester m))"
proof (cases "fst (delete_net nid requester m)")
  case False
  then have "snd (delete_net nid requester m) = m"
    by (auto simp: delete_net_def Let_def split: option.splits if_splits)
  with assms show ?thesis by simp
next
  case True
  then obtain r where r: "dict_get (nm_networks m) nid = Some r"
    by (auto simp: delete_net_def split: option.splits)
  define m' where "m' = snd (delete_net nid requester m)"
  have m': "nm_registry m' = fold (\<lambda>c. remove_network c nid) (members r) (nm_registry m)"
    "nm_networks m' = dict_del nid (nm_networks m)"
    using True r by (auto simp: m'_def delete_net_def Let_def split: if_splits)
  have fold_wf: "registry_wf (fold (\<lambda>c. remove_network c nid) cs reg)" if "registry_wf reg" for cs reg
    using that by (induction cs arbitrary: reg) auto
  have "nm_inv m'"
  proof (rule nm_invI)
    show "registry_wf (nm_registry m')" "dict_wf (nm_networks m')"
      using m' fold_wf nm_invD(1,2) [OF assms] by simp_all
    show "net_ok n x" if "dict_get (nm_networks m') n = Some x" for n x
      using that m' nm_invD(3) [OF assms] by (auto split: if_splits)
    show "in_network (nm_registry m') c n \<longleftrightarrow> is_member m' n c" for c n
      using m' r nm_invD(4) [OF assms, of c n]
      by (auto simp: reg_membership.in_remove_all is_member_def)
  qed
  then show ?thesis by (simp add: m'_def)
qed

definition purged :: "string \<Rightarrow> network_record \<Rightarrow> network_record option" where
  "purged client r =
     (if client \<notin> set (members r) then Some r
      else if members (drop_member client r) = [] then None else Some (drop_member client r))"

lemma purge_fold:
  assumes "dict_wf ps" "dict_wf (nm_networks m)"
    and "\<And>n r. (n, r) \<in> set ps \<Longrightarrow> dict_get (nm_networks m) n = Some r"
    and "fold (purge_step client) ps (rm, m) = (removed, m')"
  shows "removed = rm @ map fst (filter (\<lambda>p. client \<in> set (members (snd p))) ps)
    \<and> dict_wf (nm_networks m')
    \<and> (\<forall>n. dict_get (nm_networks m') n =
          (case dict_get ps n of None \<Rightarrow> dict_get (nm_networks m) n | Some r \<Rightarrow> purged client r))
    \<and> nm_registry m' = fold (\<lambda>n. remove_network client n)
          (map fst (filter (\<lambda>p. client \<in> set (members (snd p))) ps)) (nm_registry m)
    \<and> nm_services m' = nm_services m \<and> invite_codes m' = invite_codes m
    \<and> network_invite_codes m' = network_invite_codes m \<and> nm_banned m' = nm_banned m"
  using assms
proof (induction ps arbitrary: rm m)
  case Nil
  then show ?case by simp
next
  case (Cons p ps)
  obtain n r where p: "p = (n, r)" by (cases p)
  have nr: "dict_get (nm_networks m) n = Some r" and fresh: "n \<notin> fst ` set ps"
    using Cons.prems(1,3) p by auto
  define s where "s = purge_step client p (rm, m)"
  obtain rm1 m1 where s: "s = (rm1, m1)" by (cases s)
  have look: "dict_get (nm_networks m1) k = (if k = n then purged client r else dict_get (nm_networks m) k)" for k
    using s nr by (auto simp: s_def purge_step_def p Let_def purged_def split: if_splits)
  have rest: "dict_wf (nm_networks m1)" "nm_services m1 = nm_services m" "invite_codes m1 = invite_codes m"
    "network_invite_codes m1 = network_invite_codes m" "nm_banned m1 = nm_banned m"
    "rm1 = rm @ (if client \<in> set (members r) then [n] else [])"
    "nm_registry m1 = (if client \<in> set (members r) then remove_network client n (nm_registry m) else nm_registry m)"
    using s Cons.prems(2) by (auto simp: s_def purge_step_def p Let_def split: if_splits)
  have "\<And>k x. (k, x) \<in> set ps \<Longrightarrow> dict_get (nm_networks m1) k = Some x"
    using Cons.prems(3) fresh look by (force simp: image_iff)
  note IH = Cons.IH [OF _ rest(1) this, of rm1]
  have "fold (purge_step client) ps (rm1, m1) = (removed, m')" using Cons.prems(4) s by (simp add: s_def)
  from IH [OF _ _ this] Cons.prems(1) have
    a: "removed = rm1 @ map fst (filter (\<lambda>p. client \<in> set (members (snd p))) ps)" "dict_wf (nm_networks m')"
      "nm_registry m' = fold (\<lambda>n. remove_network client n)
          (map fst (filter (\<lambda>p. client \<in> set (members (snd p))) ps)) (nm_registry m1)"
    and b: "\<And>k. dict_get (nm_networks m') k =
          (case dict_get ps k of None \<Rightarrow> dict_get (nm_networks m1) k | Some r \<Rightarrow> purged client r)"
    and c: "nm_services m' = nm_services m1" "invite_codes m' = invite_codes m1"
      "network_invite_codes m' = network_invite_codes m1" "nm_banned m' = nm_banned m1"
    by auto
  have "map_of ps n = None" using fresh by (simp add: map_of_eq_None_iff)
  then have "dict_get (nm_networks m') k =
          (case dict_get (p # ps) k of None \<Rightarrow> dict_get (nm_networks m) k | Some r \<Rightarrow> purged client r)" for k
    using b [of k] look [of k] p by (auto split: option.splits)
  then show ?case using a c rest p by auto
qed

lemma purge_client_effect:
  assumes "nm_inv m" "purge_client client m = (removed, m')"
  shows "set removed = {n. is_member m n client}"
    and "dict_wf (nm_networks m')"
    and "dict_get (nm_networks m') n = Option.bind (dict_get (nm_networks m) n) (purged client)"
    and "nm_registry m' = fold (\<lambda>n. remove_network client n) removed (nm_registry m)"
    and "nm_services m' = drop_provider client (nm_services m)"
proof -
  obtain rm m1 where f: "fold (purge_step client) (nm_networks m) ([], m) = (rm, m1)"
    by (metis prod.exhaust)
  have wf: "dict_wf (nm_networks m)" by (rule nm_invD(2) [OF assms(1)])
  have m': "removed = rm" "m' = m1\<lparr>nm_services := drop_provider client (nm_services m1)\<rparr>"
    using assms(2) f by (auto simp: purge_client_def)
  have "(k, r) \<in> set (nm_networks m) \<Longrightarrow> dict_get (nm_networks m) k = Some r" for k r
    using wf by simp
  note e = purge_fold [OF wf wf this f]
  have rm: "rm = map fst (filter (\<lambda>p. client \<in> set (members (snd p))) (nm_networks m))" using e by simp
  have "is_member m k client \<longleftrightarrow> (\<exists>r. (k, r) \<in> set (nm_networks m) \<and> client \<in> set (members r))" for k
    using dict_mem_iff [OF wf, of k] by (auto simp: is_member_def split: option.splits)
  then show "set removed = {n. is_member m n client}"
    unfolding m'(1) rm by (force simp: image_iff)
  show "dict_wf (nm_networks m')" using e m' by simp
  show "dict_get (nm_networks m') n = Option.bind (dict_get (nm_networks m) n) (purged client)"
    using e m' by (auto split: option.splits)
  show "nm_registry m' = fold (\<lambda>n. remove_network client n) removed (nm_registry m)"
    using e m' rm by simp
  show "nm_services m' = drop_provider client (nm_services m)" using e m' by simp
qed

lemma purge_is_member:
  assumes "nm_inv m" "purge_client client m = (removed, m')"
  shows "is_member m' n c \<longleftrightarrow> is_member m n c \<and> c \<noteq> client"
proof (cases "dict_get (nm_networks m) n")
  case None
  then show ?thesis using purge_client_effect(3) [OF assms, of n] by (simp add: is_member_def)
next
  case (Some r)
  then show ?thesis using purge_client_effect(3) [OF assms, of n]
    by (auto simp: is_member_def purged_def drop_member_def set_discard_Nil split: if_splits)
qed

lemma purge_client_inv:
  assumes "nm_inv m"
  shows "nm_inv (snd (purge_client client m))"
proof -
  obtain removed m' where p: "purge_client client m = (removed, m')" by (metis prod.exhaust)
  note e = purge_client_effect [OF assms p]
  have fold_wf: "registry_wf (fold (\<lambda>n. remove_network client n) ns reg)" if "registry_wf reg" for ns reg
    using that by (induction ns arbitrary: reg) auto
  have "nm_inv m'"
  proof (rule nm_invI)
    show "registry_wf (nm_registry m')" using e(4) fold_wf nm_invD(1) [OF assms] by simp
    show "dict_wf (nm_networks m')" by (rule e(2))
    show "net_ok n r" if "dict_get (nm_networks m') n = Some r" for n r
      using that e(3) [of n] nm_invD(3) [OF assms, of n] net_ok_drop
      by (cases "dict_get (nm_networks m) n") (auto simp: purged_def split: if_splits)
    show "in_network (nm_registry m') c n \<longleftrightarrow> is_member m' n c" for c n
      using e(1,4) nm_invD(4) [OF assms, of c n] purge_is_member [OF assms p, of n c]
      by (auto simp: reg_membership.in_leave_all)
  qed
  then show ?thesis using p by simp
qed

lemma nm_inv_frame:
  assumes "nm_inv m" "nm_registry m' = nm_registry m" "nm_networks m' = nm_networks m"
  shows "nm_inv m'"
  using assms by (simp add: nm_inv_def is_member_def)

lemma generate_invite_code_frame:
  "generate_invite_code draws hex6 n m = Inr (c, m') \<Longrightarrow>
     nm_registry m' = nm_registry m \<and> nm_networks m' = nm_networks m \<and> nm_banned m' = nm_banned m
     \<and> nm_services m' = nm_services m"
  by (auto simp: generate_invite_code_def Let_def split: option.splits)

lemma expose_service_frame:
  "expose_service now u n p nm pr h po m = Inr (sid, m') \<Longrightarrow>
     nm_registry m' = nm_registry m \<and> nm_networks m' = nm_networks m"
  by (auto simp: expose_service_def Let_def split: if_splits)

lemma unexpose_service_owner_frame:
  "nm_registry (snd (unexpose_service_owner sid c m)) = nm_registry m
   \<and> nm_networks (snd (unexpose_service_owner sid c m)) = nm_networks m"
  by (auto simp: unexpose_service_owner_def split: option.splits)

section \<open>Properties\<close>


definition toy_bcrypt :: bcrypt where
  "toy_bcrypt = \<lparr>hashpw = (\<lambda>p s. Some (p @ s)), checkpw = (\<lambda>p h. Some (take (length p) h = p))\<rparr>"

definition demo_registry :: registry where
  "demo_registry = register 1 ''bob'' ''k'' (register 0 ''alice'' ''k'' registry_init)"

definition demo_net :: network_record where
  "demo_net = \<lparr>network_id = ''n1'', net_name = ''home'', password_hash = [], owner_id = ''alice'',
     topology = ''mesh'', members = [''alice''], hub_id = None, gateway_id = None, net_created_at = 2\<rparr>"

definition demo_nm :: network_manager where
  "demo_nm = (nm_init (add_network ''alice'' ''n1'' demo_registry))\<lparr>nm_networks := [(''n1'', demo_net)]\<rparr>"

lemma demo_registry_inv: "nm_inv (nm_init demo_registry)"
  by (rule nm_inv_init)
    (auto simp: demo_registry_def registry_init_def register_def new_client_record_def networks_for_def
       dict_upd_def registry_wf_def)

lemma demo_nm_inv: "nm_inv demo_nm"
proof -
  have "create toy_bcrypt 2 ''n1'' [] ''home'' [] ''alice'' ''mesh'' None (nm_init demo_registry) = Inr (demo_net, demo_nm)"
    by (simp add: create_def Let_def toy_bcrypt_def demo_net_def demo_nm_def nm_init_def set_add_def model_defs encode_def)
  then show ?thesis
    by (rule create_inv [OF demo_registry_inv])
      (simp_all add: nm_init_def dict_has_def demo_registry_def register_def registry_init_def)
qed


text \<open>C13: joining: a join succeeds exactly when the network exists, is not banned and bcrypt
  accepts the password; a successful join adds that one membership, in both tables, and a failed
  one changes nothing.\<close>

theorem join_net_exact:
  assumes "nm_inv m" and "dict_has (nm_registry m) client"
    and "join_net bc nid client password m = (ok, m')"
  shows "(ok \<longleftrightarrow> (\<exists>r. nm_get m nid = Some r \<and> \<not> nm_is_banned m nid
                   \<and> checkpw bc (encode password) (password_hash r) = Some True))
    \<and> (ok \<longrightarrow> nm_inv m' \<and> nid \<in> set (networks_for (nm_registry m') client)
              \<and> (\<forall>n c. is_member m' n c \<longleftrightarrow> is_member m n c \<or> (n = nid \<and> c = client)))
    \<and> (\<not> ok \<longrightarrow> m' = m)"
proof -
  have inv: "nm_inv m'" using join_net_inv [OF assms(1,2), of bc nid password] assms(3) by simp
  have mem: "is_member m' n c \<longleftrightarrow> is_member m n c \<or> (n = nid \<and> c = client)" if ok for n c
    using assms(3) that
    by (auto simp: join_net_def is_member_def add_member_def split: option.splits if_splits)
  have "nid \<in> set (networks_for (nm_registry m') client)" if ok
    using nm_invD(4) [OF inv, of client nid] mem [OF that] by (simp add: in_network_def)
  then show ?thesis using inv mem assms(3)
    by (auto simp: join_net_def nm_get_def split: option.splits if_splits)
qed

theorem join_net_exact_witness:
  "fst (join_net toy_bcrypt ''n1'' ''bob'' [] demo_nm)
   \<and> is_member (snd (join_net toy_bcrypt ''n1'' ''bob'' [] demo_nm)) ''n1'' ''bob''"
proof -
  obtain ok m' where j: "join_net toy_bcrypt ''n1'' ''bob'' [] demo_nm = (ok, m')" by (metis prod.exhaust)
  have known: "dict_has (nm_registry demo_nm) ''bob''"
    by (simp add: demo_nm_def nm_init_def dict_has_def add_network_def demo_registry_def register_def registry_init_def)
  have ok: ok using j
    by (auto simp: join_net_def demo_nm_def demo_net_def nm_init_def nm_is_banned_def toy_bcrypt_def encode_def split: if_splits)
  show ?thesis using join_net_exact [OF demo_nm_inv known j] ok j by simp
qed

text \<open>An invite code works: after a client creates a network under a fresh identifier and the
  server generates its invite code, every registered client that presents the code with the right
  password becomes a member of that network.  The hypothesis on bcrypt is its documented
  behaviour: a hash made from a password checks against that password.\<close>

theorem invite_code_joins:
  assumes "nm_inv m" and "dict_has (nm_registry m) owner" and "dict_has (nm_registry m) client"
    and "\<not> dict_has (nm_networks m) uuid" and "\<not> dict_has (network_invite_codes m) uuid"
    and "\<not> nm_is_banned m uuid"
    and bcrypt_law: "\<And>h. hashpw bc (encode password) salt = Some h \<Longrightarrow> checkpw bc (encode password) h = Some True"
    and "create bc now uuid salt name password owner topo None m = Inr (r, m1)"
    and "generate_invite_code draws hex6 (network_id r) m1 = Inr (code, m2)"
  shows "\<exists>r' m3. join_by_invite_code bc code client password m2 = (Some r', m3)
    \<and> network_id r' = uuid \<and> is_member m3 uuid client \<and> is_member m3 uuid owner \<and> nm_inv m3"
proof -
  note c = create_Inr [OF assms(8)]
  have frame: "nm_registry m2 = nm_registry m1" "nm_networks m2 = nm_networks m1" "nm_banned m2 = nm_banned m1"
    using generate_invite_code_frame [OF assms(9)] by auto
  have code: "dict_get (invite_codes m2) code = Some uuid"
    using assms(5,9) c by (auto simp: generate_invite_code_def Let_def dict_has_def split: option.splits)
  have r: "dict_get (nm_networks m2) uuid = Some r" using frame c by simp
  have pw: "checkpw bc (encode password) (password_hash r) = Some True" using bcrypt_law c by blast
  have ban: "\<not> nm_is_banned m2 uuid" using assms(6) frame c by (simp add: nm_is_banned_def)
  let ?m3 = "add_member uuid client m2"
  have j: "join_by_invite_code bc code client password m2 = (dict_get (nm_networks ?m3) uuid, ?m3)"
    using code r pw ban by (simp add: join_by_invite_code_def Let_def)
  have inv2: "nm_inv m2"
    using nm_inv_frame [OF create_inv [OF assms(1,8,4,2)] frame(1,2)] .
  have "dict_has (nm_registry m2) client"
    using assms(3) frame c by (simp add: reg_membership.known_add)
  then have "nm_inv ?m3" using add_member_inv [OF inv2] r by (simp add: dict_has_def)
  then show ?thesis using j r c by (auto simp: add_member_def is_member_def)
qed

theorem invite_code_joins_witness:
  "\<exists>r' m3. join_by_invite_code toy_bcrypt ''abcd1234'' ''bob'' ''pw''
      (demo_nm\<lparr>nm_networks := [(''n1'', demo_net\<lparr>password_hash := encode ''pw''\<rparr>)],
               invite_codes := [(''abcd1234'', ''n1'')], network_invite_codes := [(''n1'', ''abcd1234'')]\<rparr>) = (Some r', m3)
    \<and> network_id r' = ''n1'' \<and> is_member m3 ''n1'' ''bob'' \<and> is_member m3 ''n1'' ''alice'' \<and> nm_inv m3"
proof (rule invite_code_joins)
  show "nm_inv (nm_init demo_registry)" by (rule demo_registry_inv)
  show "create toy_bcrypt 2 ''n1'' [] ''home'' ''pw'' ''alice'' ''mesh'' None (nm_init demo_registry)
      = Inr (demo_net\<lparr>password_hash := encode ''pw''\<rparr>, demo_nm\<lparr>nm_networks := [(''n1'', demo_net\<lparr>password_hash := encode ''pw''\<rparr>)]\<rparr>)"
    by (simp add: create_def Let_def toy_bcrypt_def demo_net_def demo_nm_def nm_init_def set_add_def model_defs)
  show "generate_invite_code (\<lambda>_. ''abcd1234'') ''000000'' (network_id (demo_net\<lparr>password_hash := encode ''pw''\<rparr>))
      (demo_nm\<lparr>nm_networks := [(''n1'', demo_net\<lparr>password_hash := encode ''pw''\<rparr>)]\<rparr>)
      = Inr (''abcd1234'', demo_nm\<lparr>nm_networks := [(''n1'', demo_net\<lparr>password_hash := encode ''pw''\<rparr>)],
               invite_codes := [(''abcd1234'', ''n1'')], network_invite_codes := [(''n1'', ''abcd1234'')]\<rparr>)"
    by (simp add: generate_invite_code_def Let_def demo_nm_def demo_net_def nm_init_def dict_has_def upt_rec)
qed (simp_all add: nm_init_def dict_has_def demo_registry_def register_def registry_init_def
       nm_is_banned_def toy_bcrypt_def)


definition demo_pair_nm :: network_manager where
  "demo_pair_nm = (nm_init (update_endpoint ''bob'' (''10.0.0.2'', 7000) (snd (set_online 3 ''bob'' demo_registry))))
     \<lparr>nm_networks := [(''n1'', demo_net\<lparr>members := [''alice'', ''bob'']\<rparr>)]\<rparr>"


section \<open>Services\<close>

definition services_wf :: "network_manager \<Rightarrow> bool" where
  "services_wf m \<longleftrightarrow> dict_wf (nm_services m)
     \<and> (\<forall>n tbl. dict_get (nm_services m) n = Some tbl \<longrightarrow> dict_wf tbl
          \<and> (\<forall>sid svc. dict_get tbl sid = Some svc \<longrightarrow> service_id svc = sid \<and> svc_network_id svc = n))"

lemma expose_service_wf:
  assumes "services_wf m" "expose_service now u n p nm pr h po m = Inr (sid, m')"
  shows "services_wf m'"
  using assms
  by (auto simp: services_wf_def expose_service_def Let_def dict_get_or_def split: if_splits option.splits)

lemma filter_dict_del:
  assumes "dict_wf tbl" "dict_get tbl sid = Some svc" "\<not> P svc"
  shows "filter P (map snd (dict_del sid tbl)) = filter P (map snd tbl)"
  using assms
proof (induction tbl)
  case (Cons p tbl)
  have "sid \<notin> fst ` set tbl \<Longrightarrow> filter (\<lambda>p. fst p \<noteq> sid) tbl = tbl"
    by (force simp: filter_id_conv)
  then show ?case using Cons by (cases p) (auto simp: dict_del_def split: if_splits)
qed simp

text \<open>A client can withdraw only its own services: \<open>unexpose_service_owner\<close> never removes or
  changes a service of another provider on any network, and reports a network exactly when the
  client does provide a service with that identifier.\<close>

theorem unexpose_service_owner_safe:
  assumes "services_wf m" and "unexpose_service_owner sid client m = (res, m')"
  shows "(\<forall>n. filter (\<lambda>s. provider_id s \<noteq> client) (list_services m' n)
              = filter (\<lambda>s. provider_id s \<noteq> client) (list_services m n))
    \<and> (res = None \<longleftrightarrow> \<not> (\<exists>n s. s \<in> set (list_services m n) \<and> service_id s = sid \<and> provider_id s = client))
    \<and> (res = None \<longrightarrow> m' = m) \<and> services_wf m'"
proof (cases "find (\<lambda>p. owns_service sid client (snd p)) (nm_services m)")
  case None
  then have no: "\<not> owns_service sid client tbl" if "(n, tbl) \<in> set (nm_services m)" for n tbl
    using that by (force simp: find_None_iff)
  have "provider_id s \<noteq> client" if s: "s \<in> set (list_services m n)" "service_id s = sid" for n s
  proof -
    obtain tbl where tbl: "dict_get (nm_services m) n = Some tbl" "s \<in> snd ` set tbl"
      using s(1) by (cases "dict_get (nm_services m) n") (auto simp: list_services_def dict_get_or_def)
    then obtain k where k: "dict_get tbl k = Some s" using assms(1) by (force simp: services_wf_def)
    then have "k = sid" using assms(1) tbl s(2) by (auto simp: services_wf_def)
    then show ?thesis using no [of n tbl] k tbl by (auto simp: owns_service_def dest: map_of_SomeD)
  qed
  then show ?thesis using None assms by (auto simp: unexpose_service_owner_def)
next
  case (Some p)
  obtain n tbl where p: "p = (n, tbl)" by (cases p)
  have mem: "(n, tbl) \<in> set (nm_services m)" and own: "owns_service sid client tbl"
    using Some p unfolding find_Some_iff by (metis nth_mem, metis snd_conv)
  have t: "dict_get (nm_services m) n = Some tbl" using mem assms(1) by (simp add: services_wf_def)
  obtain svc where svc: "dict_get tbl sid = Some svc" "provider_id svc = client"
    using own by (auto simp: owns_service_def split: option.splits)
  have m': "res = Some n" "m' = m\<lparr>nm_services := dict_upd n (dict_del sid) (nm_services m)\<rparr>"
    using assms(2) Some p by (simp_all add: unexpose_service_owner_def)
  have wf: "dict_wf tbl" using assms(1) t by (simp add: services_wf_def)
  have "svc \<in> set (list_services m n)" "service_id svc = sid"
    using t svc assms(1) by (auto simp: list_services_def dict_get_or_def services_wf_def dest: map_of_SomeD intro: rev_image_eqI)
  moreover have "filter (\<lambda>s. provider_id s \<noteq> client) (list_services m' k)
      = filter (\<lambda>s. provider_id s \<noteq> client) (list_services m k)" for k
    using filter_dict_del [OF wf svc(1), of "\<lambda>s. provider_id s \<noteq> client"] svc(2) t
    by (auto simp: m'(2) list_services_def dict_get_or_def split: option.splits)
  moreover have "services_wf m'" using assms(1) by (auto simp: m'(2) services_wf_def split: if_splits)
  ultimately show ?thesis using svc(2) m'(1) by auto
qed

definition demo_service :: service_record where
  "demo_service = \<lparr>service_id = ''svc'', svc_network_id = ''n1'', provider_id = ''alice'', svc_name = ''web'',
     svc_protocol = ''tcp'', local_host = ''127.0.0.1'', local_port = 80, svc_created_at = 3\<rparr>"

definition demo_service_nm :: network_manager where
  "demo_service_nm = demo_nm\<lparr>nm_services := [(''n1'', [(''svc'', demo_service)])]\<rparr>"

theorem unexpose_service_owner_safe_witness:
  "fst (unexpose_service_owner ''svc'' ''bob'' demo_service_nm) = None
   \<and> snd (unexpose_service_owner ''svc'' ''bob'' demo_service_nm) = demo_service_nm
   \<and> list_services demo_service_nm ''n1'' = [demo_service]"
proof -
  have wf: "services_wf demo_service_nm"
    by (auto simp: services_wf_def demo_service_nm_def demo_service_def split: if_splits)
  obtain res m' where u: "unexpose_service_owner ''svc'' ''bob'' demo_service_nm = (res, m')"
    by (metis prod.exhaust)
  have l: "list_services demo_service_nm n = (if n = ''n1'' then [demo_service] else [])" for n
    by (simp add: list_services_def demo_service_nm_def demo_nm_def nm_init_def dict_get_or_def)
  have "res = None"
    using unexpose_service_owner_safe [OF wf u] by (auto simp: l demo_service_def split: if_splits)
  then show ?thesis using unexpose_service_owner_safe [OF wf u] u by (simp add: l)
qed

end
