(* ===== verification/Auth.thy ===== *)
theory Auth
  imports Messages Registry
begin

text \<open>
  Challenge/response authentication of \<^verbatim>\<open>server/auth.py\<close>.  The \<^verbatim>\<open>cryptography\<close>
  package is the parameter \<open>rsa_lib\<close>: loading a PEM key, the test that it is an RSA key and the
  signature check, each with the exceptions it may raise.  The nonce that \<^verbatim>\<open>os.urandom\<close>
  returns and the clock are arguments.  The registry that an \<^verbatim>\<open>AuthSession\<close> shares with the
  server is passed to the operation that reads it.
\<close>

section \<open>Data\<close>

record 'k rsa_lib =
  load_pem_public_key :: "bytes \<Rightarrow> 'k result"
  is_rsa_key :: "'k \<Rightarrow> bool"
  rsa_verify :: "'k \<Rightarrow> bytes \<Rightarrow> bytes \<Rightarrow> unit result"

record pending_auth =
  pa_client_id :: string
  pa_challenge :: bytes
  pa_created_at :: time
  pa_attempts :: int

record auth_session =
  auth_ttl :: time
  auth_max_attempts :: int
  auth_pending :: "(string, pending_auth) dict"

definition CHALLENGE_LENGTH :: nat where [model_defs]: "CHALLENGE_LENGTH = 32"
definition AUTH_CHALLENGE_TTL :: time where [model_defs]: "AUTH_CHALLENGE_TTL = 60"
definition AUTH_MAX_ATTEMPTS :: int where [model_defs]: "AUTH_MAX_ATTEMPTS = 5"

definition auth_init :: "time \<Rightarrow> int \<Rightarrow> auth_session" where
  "auth_init ttl max_attempts = \<lparr>auth_ttl = ttl, auth_max_attempts = max_attempts, auth_pending = []\<rparr>"

section \<open>Operations\<close>

definition create_auth_challenge :: "string \<Rightarrow> bytes \<Rightarrow> instance_fields" where
  "create_auth_challenge client_id nonce =
     [(''type'', JStr ''AUTH_CHALLENGE''), (''challenge'', JStr (hexlify nonce)), (''client_id'', JStr client_id)]"

definition verify_auth_response :: "'k rsa_lib \<Rightarrow> string \<Rightarrow> bytes \<Rightarrow> bytes \<Rightarrow> bool result" where
  "verify_auth_response lib pem challenge signature =
     (case load_pem_public_key lib (encode pem) of
        Inl (ValueError _) \<Rightarrow> Inr False
      | Inl (TypeError _) \<Rightarrow> Inr False
      | Inl e \<Rightarrow> Inl e
      | Inr key \<Rightarrow>
          if \<not> is_rsa_key lib key then Inr False
          else (case rsa_verify lib key signature challenge of
                  Inr _ \<Rightarrow> Inr True
                | Inl (ValueError _) \<Rightarrow> Inr False
                | Inl (OtherError c msg) \<Rightarrow>
                    if c = ''InvalidSignature'' then Inr False else Inl (OtherError c msg)
                | Inl e \<Rightarrow> Inl e))"

definition issue :: "time \<Rightarrow> bytes \<Rightarrow> string \<Rightarrow> auth_session \<Rightarrow> instance_fields \<times> auth_session" where
  "issue now nonce client_id s =
     (create_auth_challenge client_id nonce,
      s\<lparr>auth_pending := dict_set client_id
           \<lparr>pa_client_id = client_id, pa_challenge = nonce, pa_created_at = now, pa_attempts = 0\<rparr>
           (auth_pending s)\<rparr>)"

definition consume :: "time \<Rightarrow> string \<Rightarrow> auth_session \<Rightarrow> pending_auth option \<times> auth_session" where
  "consume now client_id s =
     (case dict_get (auth_pending s) client_id of
        None \<Rightarrow> (None, s)
      | Some p \<Rightarrow>
          (let s' = s\<lparr>auth_pending := dict_del client_id (auth_pending s)\<rparr> in
           if now - pa_created_at p > auth_ttl s then (None, s') else (Some p, s')))"

definition verify :: "'k rsa_lib \<Rightarrow> registry \<Rightarrow> time \<Rightarrow> string \<Rightarrow> string \<Rightarrow> string \<Rightarrow> auth_session
    \<Rightarrow> (bool \<times> string) result \<times> auth_session" where
  "verify lib reg now client_id challenge_hex signature_hex s =
     (case consume now client_id s of
        (None, s') \<Rightarrow> (Inr (False, ''no pending challenge (expired or not issued)''), s')
      | (Some p, s') \<Rightarrow>
     (case unhexlify signature_hex of
        None \<Rightarrow> (Inr (False, ''malformed signature''), s')
      | Some signature \<Rightarrow>
     (case registry_get reg client_id of
        None \<Rightarrow> (Inr (False, ''unknown client''), s')
      | Some record \<Rightarrow>
     (case verify_auth_response lib (public_key_pem record) (pa_challenge p) signature of
        Inl e \<Rightarrow> (Inl e, s')
      | Inr True \<Rightarrow> (Inr (True, ''authenticated''), s')
      | Inr False \<Rightarrow>
          (let p' = p\<lparr>pa_attempts := pa_attempts p + 1\<rparr> in
           if pa_attempts p' \<ge> auth_max_attempts s then (Inr (False, ''auth failed; too many attempts''), s')
           else (Inr (False, ''signature verification failed''),
                 s'\<lparr>auth_pending := dict_set client_id p' (auth_pending s')\<rparr>))))))"

definition expire_stale :: "time \<Rightarrow> auth_session \<Rightarrow> string list \<times> auth_session" where
  "expire_stale now s =
     (let cutoff = now - auth_ttl s;
          stale = map fst (filter (\<lambda>p. pa_created_at (snd p) < cutoff) (auth_pending s))
      in (stale, s\<lparr>auth_pending := filter (\<lambda>p. fst p \<notin> set stale) (auth_pending s)\<rparr>))"

definition pending_count :: "auth_session \<Rightarrow> nat" where
  "pending_count s = length (auth_pending s)"

section \<open>The session as a machine\<close>

text \<open>The calls the server makes on a session, with the values they take from outside.\<close>

datatype auth_event =
    Issue time bytes string
  | Verify registry time string string string
  | Expire time

primrec auth_step :: "'k rsa_lib \<Rightarrow> auth_session \<Rightarrow> auth_event \<Rightarrow> auth_session" where
  "auth_step lib s (Issue now nonce c) = snd (issue now nonce c s)"
| "auth_step lib s (Verify reg now c ch sig) = snd (verify lib reg now c ch sig s)"
| "auth_step lib s (Expire now) = snd (expire_stale now s)"

primrec nonce_ok :: "auth_event \<Rightarrow> bool" where
  "nonce_ok (Issue now nonce c) = (length nonce = CHALLENGE_LENGTH)"
| "nonce_ok (Verify reg now c ch sig) = True"
| "nonce_ok (Expire now) = True"

text \<open>The signature check is reached: a challenge is pending and fresh, the signature is
  well-formed and the client is registered.\<close>

primrec checks_signature :: "string \<Rightarrow> auth_session \<Rightarrow> auth_event \<Rightarrow> bool" where
  "checks_signature c s (Issue now nonce d) = False"
| "checks_signature c s (Verify reg now d ch sig) =
     (d = c \<and> fst (consume now c s) \<noteq> None \<and> unhexlify sig \<noteq> None \<and> dict_has reg c)"
| "checks_signature c s (Expire now) = False"

primrec issues_for :: "string \<Rightarrow> auth_event \<Rightarrow> bool" where
  "issues_for c (Issue now nonce d) = (d = c)"
| "issues_for c (Verify reg now d ch sig) = False"
| "issues_for c (Expire now) = False"

primrec signature_checks :: "'k rsa_lib \<Rightarrow> string \<Rightarrow> auth_session \<Rightarrow> auth_event list \<Rightarrow> nat" where
  "signature_checks lib c s [] = 0"
| "signature_checks lib c s (e # es) =
     (if checks_signature c s e then 1 else 0) + signature_checks lib c (auth_step lib s e) es"

definition auth_inv :: "auth_session \<Rightarrow> bool" where
  "auth_inv s \<longleftrightarrow> dict_wf (auth_pending s) \<and> auth_max_attempts s > 0
     \<and> (\<forall>c p. dict_get (auth_pending s) c = Some p \<longrightarrow>
          pa_client_id p = c \<and> length (pa_challenge p) = CHALLENGE_LENGTH
          \<and> 0 \<le> pa_attempts p \<and> pa_attempts p < auth_max_attempts s)"

definition tries_left :: "auth_session \<Rightarrow> string \<Rightarrow> nat" where
  "tries_left s c = (case dict_get (auth_pending s) c of None \<Rightarrow> 0 | Some p \<Rightarrow> nat (auth_max_attempts s - pa_attempts p))"

lemmas auth_op_defs = issue_def consume_def verify_def expire_stale_def Let_def

lemma auth_step_params [simp]:
  "auth_max_attempts (auth_step lib s e) = auth_max_attempts s" "auth_ttl (auth_step lib s e) = auth_ttl s"
  by (cases e; auto simp: auth_op_defs split: option.splits sum.splits bool.splits)+

lemma verify_pending:
  "dict_get (auth_pending (snd (verify lib reg now c ch sig s))) d =
     (if d \<noteq> c then dict_get (auth_pending s) d
      else case verify lib reg now c ch sig s of
        (Inr (False, msg), s') \<Rightarrow>
          (if msg = ''signature verification failed''
           then map_option (\<lambda>p. p\<lparr>pa_attempts := pa_attempts p + 1\<rparr>) (dict_get (auth_pending s) c) else None)
      | _ \<Rightarrow> None)"
  by (auto simp: auth_op_defs split: option.splits sum.splits bool.splits if_splits)

lemma expire_pending:
  assumes "dict_wf (auth_pending s)"
  shows "dict_get (auth_pending (snd (expire_stale now s))) c =
     (case dict_get (auth_pending s) c of
        None \<Rightarrow> None | Some p \<Rightarrow> if pa_created_at p < now - auth_ttl s then None else Some p)"
proof -
  let ?stale = "fst ` {x \<in> set (auth_pending s). pa_created_at (snd x) < now - auth_ttl s}"
  have e: "dict_get (auth_pending (snd (expire_stale now s))) c
      = (if c \<notin> ?stale then dict_get (auth_pending s) c else None)"
    using map_of_filter_keys [of "\<lambda>k. k \<notin> ?stale" "auth_pending s" c] by (simp add: expire_stale_def Let_def)
  show ?thesis
  proof (cases "dict_get (auth_pending s) c")
    case (Some p)
    have "c \<in> ?stale \<longleftrightarrow> pa_created_at p < now - auth_ttl s"
    proof
      assume "c \<in> ?stale"
      then obtain q where "(c, q) \<in> set (auth_pending s)" "pa_created_at q < now - auth_ttl s" by auto
      then show "pa_created_at p < now - auth_ttl s" using Some map_of_is_SomeI [OF assms] by fastforce
    qed (use map_of_SomeD [OF Some] in \<open>auto simp: image_iff\<close>)
    then show ?thesis using Some e by simp
  qed (simp add: e)
qed

lemma verify_wf: "dict_wf (auth_pending s) \<Longrightarrow> dict_wf (auth_pending (snd (verify lib reg now c ch sig s)))"
  by (auto simp: auth_op_defs split: option.splits sum.splits bool.splits)

lemma auth_invD:
  assumes "auth_inv s" "dict_get (auth_pending s) c = Some p"
  shows "pa_client_id p = c" "length (pa_challenge p) = CHALLENGE_LENGTH" "0 \<le> pa_attempts p"
    "pa_attempts p < auth_max_attempts s"
  using assms by (auto simp: auth_inv_def)

lemma verify_retry:
  assumes "fst (verify lib reg now c ch sig s) = Inr (False, ''signature verification failed'')"
  shows "\<exists>p. dict_get (auth_pending s) c = Some p \<and> pa_attempts p + 1 < auth_max_attempts s"
  using assms by (auto simp: auth_op_defs split: option.splits sum.splits bool.splits if_splits)

lemma verify_keeps_auth_inv:
  assumes "auth_inv s"
  shows "auth_inv (snd (verify lib reg now c ch sig s))"
proof -
  let ?v = "verify lib reg now c ch sig s"
  have "auth_max_attempts (snd ?v) = auth_max_attempts s"
    using auth_step_params(1) [of lib s "Verify reg now c ch sig"] by simp
  moreover have "pa_client_id p = d \<and> length (pa_challenge p) = CHALLENGE_LENGTH
      \<and> 0 \<le> pa_attempts p \<and> pa_attempts p < auth_max_attempts s"
    if p: "dict_get (auth_pending (snd ?v)) d = Some p" for d p
  proof (cases "d = c")
    case False
    then show ?thesis using p assms by (simp add: verify_pending auth_inv_def)
  next
    case True
    then obtain q where "fst ?v = Inr (False, ''signature verification failed'')"
        "dict_get (auth_pending s) c = Some q" "p = q\<lparr>pa_attempts := pa_attempts q + 1\<rparr>"
      using p by (auto simp: verify_pending split: prod.splits sum.splits bool.splits if_splits)
    then show ?thesis using verify_retry [of lib reg now c ch sig s] auth_invD [OF assms, of c] True by auto
  qed
  ultimately show ?thesis using assms verify_wf [of s lib reg now c ch sig] by (simp add: auth_inv_def)
qed

lemma auth_step_keeps_inv:
  assumes "auth_inv s" "nonce_ok e"
  shows "auth_inv (auth_step lib s e)"
proof (cases e)
  case (Expire now)
  have "dict_wf (auth_pending (snd (expire_stale now s)))"
    using assms(1) by (simp add: expire_stale_def Let_def auth_inv_def)
  moreover have "auth_max_attempts (snd (expire_stale now s)) = auth_max_attempts s"
    by (simp add: expire_stale_def Let_def)
  ultimately show ?thesis using assms(1) Expire expire_pending [of s now]
    by (auto simp: auth_inv_def split: option.splits if_splits)
next
  case (Issue now nonce c)
  then show ?thesis using assms by (auto simp: auth_inv_def issue_def)
qed (use assms verify_keeps_auth_inv in auto)

interpretation auth_run: guarded_machine "auth_step lib" "\<lambda>_. nonce_ok" auth_inv
  by unfold_locales (rule auth_step_keeps_inv)

lemma tries_left_step:
  assumes "auth_inv s" "\<not> issues_for c e"
  shows "(if checks_signature c s e then 1 else 0) + tries_left (auth_step lib s e) c \<le> tries_left s c"
proof (cases e)
  case (Issue now nonce d)
  then show ?thesis using assms(2) by (cases "dict_get (auth_pending s) c") (simp_all add: tries_left_def issue_def)
next
  case (Expire now)
  have "auth_max_attempts (snd (expire_stale now s)) = auth_max_attempts s"
    by (simp add: expire_stale_def Let_def)
  then show ?thesis using Expire assms(1) expire_pending [of s now c]
    by (auto simp: tries_left_def auth_inv_def split: option.splits)
next
  case (Verify reg now d ch sig)
  let ?v = "verify lib reg now d ch sig s"
  have mx: "auth_max_attempts (snd ?v) = auth_max_attempts s"
    using auth_step_params(1) [of lib s "Verify reg now d ch sig"] by simp
  show ?thesis
  proof (cases "d = c")
    case False
    then show ?thesis using Verify mx by (cases "dict_get (auth_pending s) c") (simp_all add: tries_left_def verify_pending)
  next
    case True
    show ?thesis
    proof (cases "dict_get (auth_pending s) c")
      case None
      then show ?thesis using Verify True by (simp add: tries_left_def consume_def verify_def)
    next
      case (Some p)
      have "tries_left (snd ?v) c \<le> nat (auth_max_attempts s - pa_attempts p) - 1"
        using True Some mx by (auto simp: tries_left_def verify_pending split: option.splits prod.splits sum.splits bool.splits)
      moreover have "nat (auth_max_attempts s - pa_attempts p) \<ge> 1" using auth_invD(4) [OF assms(1) Some] by simp
      ultimately have "1 + tries_left (auth_step lib s e) c \<le> tries_left s c"
        using Verify True Some by (simp add: tries_left_def [of s])
      then show ?thesis by simp
    qed
  qed
qed

lemma verify_accepted:
  assumes "verify lib reg now c ch sig s = (Inr (True, msg), s')"
  shows "\<exists>p r key sg. dict_get (auth_pending s) c = Some p \<and> now - pa_created_at p \<le> auth_ttl s
      \<and> registry_get reg c = Some r \<and> unhexlify sig = Some sg
      \<and> load_pem_public_key lib (encode (public_key_pem r)) = Inr key \<and> is_rsa_key lib key
      \<and> rsa_verify lib key sg (pa_challenge p) = Inr () \<and> dict_get (auth_pending s') c = None"
  using assms
  by (auto simp: verify_def consume_def verify_auth_response_def Let_def
      split: option.splits sum.splits bool.splits if_splits py_exc.splits)

section \<open>Properties\<close>

text \<open>No authentication without a valid signature, and no replay: \<open>verify\<close> accepts only when
  a challenge is pending for the client and not older than the lifetime, and the RSA library
  accepts the decoded signature over exactly that challenge under the client's registered key;
  the challenge is then used up, so that every later response fails until a new one is issued.\<close>

theorem verify_accepts_only_signed:
  assumes "verify lib reg now c ch sig s = (Inr (True, msg), s')"
  shows "\<exists>p r key sg. dict_get (auth_pending s) c = Some p \<and> now - pa_created_at p \<le> auth_ttl s
      \<and> registry_get reg c = Some r \<and> unhexlify sig = Some sg
      \<and> load_pem_public_key lib (encode (public_key_pem r)) = Inr key \<and> is_rsa_key lib key
      \<and> rsa_verify lib key sg (pa_challenge p) = Inr ()
      \<and> fst (verify lib reg2 now2 c ch2 sig2 s')
          = Inr (False, ''no pending challenge (expired or not issued)'')"
proof -
  have "fst (verify lib reg2 now2 c ch2 sig2 s') = Inr (False, ''no pending challenge (expired or not issued)'')"
    if "dict_get (auth_pending s') c = None"
    using that by (simp add: verify_def consume_def)
  then show ?thesis using verify_accepted [OF assms] by auto
qed

text \<open>C14: brute force is bounded: from the state after a challenge was issued, however the
  calls on the session are interleaved, no more than \<^verbatim>\<open>max_attempts\<close> signatures are ever
  checked against it before a new challenge is issued for that client.\<close>

theorem signature_checks_bounded:
  assumes "auth_inv s" and "\<forall>e \<in> set es. nonce_ok e \<and> \<not> issues_for c e"
  shows "signature_checks lib c s es \<le> nat (auth_max_attempts s)"
proof -
  have "signature_checks lib c s es \<le> tries_left s c"
    using assms
  proof (induction es arbitrary: s)
    case (Cons e es)
    then have "auth_inv (auth_step lib s e)" by (simp add: auth_step_keeps_inv)
    then have "signature_checks lib c (auth_step lib s e) es \<le> tries_left (auth_step lib s e) c"
      using Cons by simp
    then show ?case using tries_left_step [of s c e lib] Cons.prems by simp
  qed simp
  also have "\<dots> \<le> nat (auth_max_attempts s)"
    using auth_invD(3) [OF assms(1), of c] by (cases "dict_get (auth_pending s) c") (auto simp: tries_left_def)
  finally show ?thesis .
qed

primrec leaves_alone :: "string \<Rightarrow> time \<Rightarrow> auth_event \<Rightarrow> bool" where
  "leaves_alone c limit (Issue now nonce d) = (d \<noteq> c)"
| "leaves_alone c limit (Verify reg now d ch sig) = (d \<noteq> c)"
| "leaves_alone c limit (Expire now) = (now \<le> limit)"

lemma undisturbed:
  assumes "auth_inv s" "dict_get (auth_pending s) c = Some p"
    and "\<forall>e \<in> set es. nonce_ok e \<and> leaves_alone c (pa_created_at p + auth_ttl s) e"
  shows "dict_get (auth_pending (foldl (auth_step lib) s es)) c = Some p
    \<and> auth_ttl (foldl (auth_step lib) s es) = auth_ttl s"
  using assms
proof (induction es arbitrary: s)
  case (Cons e es)
  have wf: "dict_wf (auth_pending s)" using Cons.prems(1) by (simp add: auth_inv_def)
  have "dict_get (auth_pending (auth_step lib s e)) c = Some p"
    using Cons.prems(2,3) expire_pending [OF wf, of _ c]
    by (cases e) (auto simp: issue_def verify_pending)
  then show ?case using Cons auth_step_keeps_inv [of s e lib] by simp
qed simp

text \<open>An honest client gets in: once a challenge was issued to a client, other clients' calls
  and expiry sweeps within the lifetime do not disturb it, and a response within the lifetime
  whose signature the RSA library accepts over the issued nonce is accepted, whatever challenge
  text accompanies it.\<close>

theorem honest_client_authenticates:
  assumes "auth_inv s" and "length nonce = CHALLENGE_LENGTH"
    and "\<forall>e \<in> set es. nonce_ok e \<and> leaves_alone c (now + auth_ttl s) e"
    and "now2 \<le> now + auth_ttl s" and "registry_get reg c = Some r"
    and "load_pem_public_key lib (encode (public_key_pem r)) = Inr key" and "is_rsa_key lib key"
    and "rsa_verify lib key signature nonce = Inr ()"
  shows "fst (verify lib reg now2 c ch (hexlify signature) (foldl (auth_step lib) (snd (issue now nonce c s)) es))
    = Inr (True, ''authenticated'')"
proof -
  let ?s = "snd (issue now nonce c s)"
  let ?p = "\<lparr>pa_client_id = c, pa_challenge = nonce, pa_created_at = now, pa_attempts = 0\<rparr>"
  have "auth_inv ?s" using auth_step_keeps_inv [OF assms(1), of "Issue now nonce c"] assms(2) by simp
  then have "dict_get (auth_pending (foldl (auth_step lib) ?s es)) c = Some ?p
      \<and> auth_ttl (foldl (auth_step lib) ?s es) = auth_ttl s"
    using undisturbed [of ?s c ?p es lib] assms(3) by (simp add: issue_def)
  then show ?thesis using assms(4-) by (simp add: verify_def consume_def verify_auth_response_def Let_def)
qed

subsection \<open>Witnesses\<close>

text \<open>A library that accepts as signature the first byte of the challenge.\<close>

definition echo_rsa :: "unit rsa_lib" where
  "echo_rsa = \<lparr>load_pem_public_key = (\<lambda>_. Inr ()), is_rsa_key = (\<lambda>_. True),
     rsa_verify = (\<lambda>_ sig ch. if sig = take 1 ch then Inr () else Inl (OtherError ''InvalidSignature'' []))\<rparr>"

definition auth_demo_reg :: registry where
  "auth_demo_reg = [(''alice'', new_client_record 0 ''alice'' ''k'')]"

definition auth_demo_nonce :: bytes where
  "auth_demo_nonce = replicate 32 7"

definition auth_demo :: auth_session where
  "auth_demo = snd (issue 10 auth_demo_nonce ''alice'' (auth_init 60 5))"

lemma auth_inv_init: "n > 0 \<Longrightarrow> auth_inv (auth_init ttl n)"
  by (simp add: auth_inv_def auth_init_def)

lemma auth_demo_inv: "auth_inv auth_demo"
  using auth_step_keeps_inv [OF auth_inv_init [of 5 60], of "Issue 10 auth_demo_nonce ''alice''"]
  by (simp add: auth_demo_def auth_demo_nonce_def CHALLENGE_LENGTH_def)

theorem verify_accepts_only_signed_witness:
  "verify echo_rsa auth_demo_reg 20 ''alice'' [] (hexlify [7]) auth_demo
     = (Inr (True, ''authenticated''), auth_init 60 5)
   \<and> fst (verify echo_rsa auth_demo_reg 21 ''alice'' [] (hexlify [7]) (auth_init 60 5))
     = Inr (False, ''no pending challenge (expired or not issued)'')"
proof -
  have v: "verify echo_rsa auth_demo_reg 20 ''alice'' [] (hexlify [7]) auth_demo
     = (Inr (True, ''authenticated''), auth_init 60 5)"
    by (simp add: verify_def consume_def auth_demo_def issue_def auth_init_def Let_def auth_demo_reg_def
        verify_auth_response_def echo_rsa_def registry_get_def new_client_record_def dict_del_def auth_demo_nonce_def)
  show ?thesis using v verify_accepts_only_signed [OF v] by auto
qed

theorem signature_checks_bounded_witness:
  "signature_checks echo_rsa ''alice'' auth_demo (replicate 7 (Verify auth_demo_reg 20 ''alice'' [] ''00'')) \<le> 5"
proof -
  have "signature_checks echo_rsa ''alice'' auth_demo (replicate 7 (Verify auth_demo_reg 20 ''alice'' [] ''00''))
      \<le> nat (auth_max_attempts auth_demo)"
    by (rule signature_checks_bounded [OF auth_demo_inv]) simp
  then show ?thesis by (simp add: auth_demo_def issue_def auth_init_def)
qed

theorem honest_client_authenticates_witness:
  "fst (verify echo_rsa auth_demo_reg 40 ''alice'' [] (hexlify [7])
      (foldl (auth_step echo_rsa) (snd (issue 10 auth_demo_nonce ''alice'' (auth_init 60 5)))
        [Issue 11 auth_demo_nonce ''bob'', Expire 65]))
    = Inr (True, ''authenticated'')"
  by (rule honest_client_authenticates [where r = "new_client_record 0 ''alice'' ''k''" and key = "()"])
    (simp_all add: auth_inv_init auth_demo_nonce_def CHALLENGE_LENGTH_def auth_init_def registry_get_def
      auth_demo_reg_def echo_rsa_def auth_inv_def)

end
