(* ===== verification/Relay.thy ===== *)
theory Relay
  imports Bytes
begin

text \<open>
  The relay of \<^verbatim>\<open>server/relay.py\<close>: per-destination queues of frames, the set of granted paths
  and the byte counters.  The two coroutines that talk to the server (\<^verbatim>\<open>handle_relay_request\<close>
  and \<^verbatim>\<open>deliver_relayed\<close>) are in the theory of the server, which owns the connections.
\<close>

section \<open>Data\<close>

record relay =
  rl_queues :: "(string, (string \<times> bytes) list) dict"
  rl_paths :: "(string \<times> string) list"
  rl_bytes_relayed :: "(string \<times> string, nat) dict"
  rl_dropped_frames :: nat

definition MAX_RELAY_QUEUE :: nat where [model_defs]: "MAX_RELAY_QUEUE = 1024"

definition relay_init :: relay where
  "relay_init = \<lparr>rl_queues = [], rl_paths = [], rl_bytes_relayed = [], rl_dropped_frames = 0\<rparr>"

section \<open>Operations\<close>

definition queue_for :: "string \<Rightarrow> relay \<Rightarrow> relay" where
  "queue_for client_id r =
     (case dict_get (rl_queues r) client_id of
        None \<Rightarrow> r\<lparr>rl_queues := dict_set client_id [] (rl_queues r)\<rparr>
      | Some _ \<Rightarrow> r)"

definition has_path :: "relay \<Rightarrow> string \<Rightarrow> string \<Rightarrow> bool" where
  "has_path r src dst \<longleftrightarrow> (src, dst) \<in> set (rl_paths r)"

definition register_relay_path :: "string \<Rightarrow> string \<Rightarrow> relay \<Rightarrow> bool \<times> relay" where
  "register_relay_path src dst r =
     (let r1 = queue_for src (queue_for dst r);
          is_new = \<not> has_path r1 src dst
      in (is_new, r1\<lparr>rl_paths := set_add (dst, src) (set_add (src, dst) (rl_paths r1))\<rparr>))"

definition relay_frame :: "string \<Rightarrow> string \<Rightarrow> bytes \<Rightarrow> relay \<Rightarrow> bool \<times> relay" where
  "relay_frame src dst raw r =
     (case dict_get (rl_queues r) dst of
        None \<Rightarrow> (False, r)
      | Some q \<Rightarrow>
          if \<not> has_path r src dst then (False, r)
          else if length q \<ge> MAX_RELAY_QUEUE then (False, r\<lparr>rl_dropped_frames := rl_dropped_frames r + 1\<rparr>)
          else (True, r\<lparr>rl_queues := dict_set dst (q @ [(src, raw)]) (rl_queues r),
                        rl_bytes_relayed := dict_set (src, dst)
                          (dict_get_or (rl_bytes_relayed r) (src, dst) 0 + length raw) (rl_bytes_relayed r)\<rparr>))"

definition encode_frame :: "string \<times> bytes \<Rightarrow> string \<times> string" where
  "encode_frame f = (fst f, b64encode (snd f))"

definition pending_frames :: "string \<Rightarrow> relay \<Rightarrow> (string \<times> string) list \<times> relay" where
  "pending_frames dst r =
     (case dict_get (rl_queues r) dst of
        None \<Rightarrow> ([], r)
      | Some q \<Rightarrow> if q = [] then ([], r) else (map encode_frame q, r\<lparr>rl_queues := dict_set dst [] (rl_queues r)\<rparr>))"

text \<open>One turn of the asynchronous iterator: it yields the oldest frame or sleeps.\<close>

definition consume_frame :: "string \<Rightarrow> relay \<Rightarrow> (string \<times> bytes) option \<times> relay" where
  "consume_frame client r =
     (case dict_get (rl_queues r) client of
        None \<Rightarrow> (None, r)
      | Some [] \<Rightarrow> (None, r)
      | Some (f # q) \<Rightarrow> (Some f, r\<lparr>rl_queues := dict_set client q (rl_queues r)\<rparr>))"

definition drop_client :: "string \<Rightarrow> relay \<Rightarrow> relay" where
  "drop_client client r =
     r\<lparr>rl_queues := map (\<lambda>p. (fst p, filter (\<lambda>item. fst item \<noteq> client) (snd p))) (dict_del client (rl_queues r)),
       rl_paths := filter (\<lambda>p. fst p \<noteq> client \<and> snd p \<noteq> client) (rl_paths r),
       rl_bytes_relayed := filter (\<lambda>p. client \<noteq> fst (fst p) \<and> client \<noteq> snd (fst p)) (rl_bytes_relayed r)\<rparr>"

record relay_stats =
  st_paths :: nat
  st_queues :: nat
  st_bytes_relayed :: nat
  st_dropped_frames :: nat

definition stats :: "relay \<Rightarrow> relay_stats" where
  "stats r = \<lparr>st_paths = length (rl_paths r) div 2, st_queues = length (rl_queues r),
     st_bytes_relayed = sum_list (dict_values (rl_bytes_relayed r)), st_dropped_frames = rl_dropped_frames r\<rparr>"

section \<open>The relay as a machine\<close>

datatype relay_event =
    Path string string
  | Frame string string bytes
  | Drain string
  | Drop string

primrec relay_step :: "relay \<Rightarrow> relay_event \<Rightarrow> relay" where
  "relay_step r (Path src dst) = snd (register_relay_path src dst r)"
| "relay_step r (Frame src dst raw) = snd (relay_frame src dst raw r)"
| "relay_step r (Drain dst) = snd (pending_frames dst r)"
| "relay_step r (Drop client) = drop_client client r"

definition relay_inv :: "relay \<Rightarrow> bool" where
  "relay_inv r \<longleftrightarrow> dict_wf (rl_queues r) \<and> distinct (rl_paths r) \<and> dict_wf (rl_bytes_relayed r)
     \<and> (\<forall>a b. has_path r a b \<longrightarrow> has_path r b a \<and> dict_has (rl_queues r) a)
     \<and> (\<forall>d q. dict_get (rl_queues r) d = Some q \<longrightarrow> length q \<le> MAX_RELAY_QUEUE \<and> (\<forall>s \<in> fst ` set q. has_path r s d))
     \<and> (\<forall>p \<in> fst ` set (rl_bytes_relayed r). has_path r (fst p) (snd p))"

lemmas relay_op_defs = queue_for_def register_relay_path_def relay_frame_def pending_frames_def Let_def

lemma relay_invD:
  assumes "relay_inv r"
  shows "dict_wf (rl_queues r)" "has_path r a b \<Longrightarrow> has_path r b a" "has_path r a b \<Longrightarrow> dict_has (rl_queues r) a"
    "dict_get (rl_queues r) d = Some q \<Longrightarrow> length q \<le> MAX_RELAY_QUEUE"
    "dict_get (rl_queues r) d = Some q \<Longrightarrow> (s, f) \<in> set q \<Longrightarrow> has_path r s d"
  using assms by (force simp: relay_inv_def)+

lemma queue_for_inv:
  assumes "relay_inv r"
  shows "relay_inv (queue_for c r)"
  using assms by (auto simp del: map_of_eq_Some_iff simp: relay_inv_def queue_for_def has_path_def split: option.splits if_splits)

lemma queue_for_has: "dict_has (rl_queues (queue_for c r)) d \<longleftrightarrow> d = c \<or> dict_has (rl_queues r) d"
  by (auto simp: queue_for_def dict_has_def split: option.splits)

lemma queue_for_paths [simp]: "rl_paths (queue_for c r) = rl_paths r"
  by (simp add: queue_for_def split: option.splits)

lemma register_inv:
  assumes "relay_inv r"
  shows "relay_inv (snd (register_relay_path src dst r))"
proof -
  let ?r = "queue_for src (queue_for dst r)"
  have "relay_inv ?r" using assms by (simp add: queue_for_inv)
  moreover have "dict_has (rl_queues ?r) src" "dict_has (rl_queues ?r) dst" by (simp_all add: queue_for_has)
  ultimately show ?thesis by (auto simp del: map_of_eq_Some_iff simp: relay_inv_def register_relay_path_def Let_def has_path_def)
qed

lemma frame_inv:
  assumes "relay_inv r"
  shows "relay_inv (snd (relay_frame src dst raw r))"
proof (cases "fst (relay_frame src dst raw r)")
  case True
  then obtain q where q: "dict_get (rl_queues r) dst = Some q" "has_path r src dst" "length q < MAX_RELAY_QUEUE"
    by (auto simp: relay_frame_def split: option.splits if_splits)
  then show ?thesis using assms by (auto simp del: map_of_eq_Some_iff simp: relay_inv_def relay_frame_def has_path_def dict_has_def split: if_splits)
next
  case False
  then show ?thesis using assms by (auto simp del: map_of_eq_Some_iff simp: relay_inv_def relay_frame_def has_path_def split: option.splits if_splits)
qed

lemma drain_inv:
  assumes "relay_inv r"
  shows "relay_inv (snd (pending_frames dst r))"
  using assms by (auto simp del: map_of_eq_Some_iff simp: relay_inv_def pending_frames_def has_path_def split: option.splits if_splits)

lemma drop_queue:
  "dict_get (rl_queues (drop_client c r)) d =
     (if d = c then None else map_option (filter (\<lambda>item. fst item \<noteq> c)) (dict_get (rl_queues r) d))"
  using map_of_map_vals [of "\<lambda>_. filter (\<lambda>item. fst item \<noteq> c)" "dict_del c (rl_queues r)" d]
  by (simp add: drop_client_def)

lemma drop_path: "has_path (drop_client c r) a b \<longleftrightarrow> has_path r a b \<and> a \<noteq> c \<and> b \<noteq> c"
  by (auto simp: has_path_def drop_client_def)

lemma drop_inv:
  assumes "relay_inv r"
  shows "relay_inv (drop_client c r)"
proof -
  have "dict_wf (rl_queues (drop_client c r))" "distinct (rl_paths (drop_client c r))"
      "dict_wf (rl_bytes_relayed (drop_client c r))"
    using assms by (simp_all add: relay_inv_def drop_client_def comp_def wf_dict_del [unfolded dict_del_def])
  moreover have "length q \<le> MAX_RELAY_QUEUE \<and> (\<forall>s \<in> fst ` set q. has_path (drop_client c r) s d)"
    if q: "dict_get (rl_queues (drop_client c r)) d = Some q" for d q
  proof -
    obtain q' where q': "d \<noteq> c" "dict_get (rl_queues r) d = Some q'" "q = filter (\<lambda>item. fst item \<noteq> c) q'"
      using q by (auto simp: drop_queue split: if_splits)
    have "length q \<le> MAX_RELAY_QUEUE"
      using relay_invD(4) [OF assms q'(2)] length_filter_le le_trans q'(3) by blast
    then show ?thesis using q' relay_invD(5) [OF assms q'(2)] by (auto simp: drop_path)
  qed
  moreover have "has_path (drop_client c r) (fst p) (snd p)"
    if "p \<in> fst ` set (rl_bytes_relayed (drop_client c r))" for p
    using that assms by (auto simp: drop_path) (auto simp: drop_client_def relay_inv_def)
  moreover have "has_path (drop_client c r) b a \<and> dict_has (rl_queues (drop_client c r)) a"
    if "has_path (drop_client c r) a b" for a b
    using that relay_invD(2,3) [OF assms, of a b] by (simp add: drop_path dict_has_def drop_queue)
  ultimately show ?thesis unfolding relay_inv_def by blast
qed

interpretation relay_run: invariant_machine relay_step relay_inv
proof
  fix s e
  show "relay_inv s \<Longrightarrow> relay_inv (relay_step s e)"
    by (cases e) (simp_all add: register_inv frame_inv drain_inv drop_inv)
qed

lemma relay_inv_init: "relay_inv relay_init"
  by (simp add: relay_inv_def relay_init_def has_path_def)

section \<open>Properties\<close>

text \<open>C15: bounded, isolated queues: after any sequence of relay operations from the empty relay no
  queue holds more than \<^verbatim>\<open>MAX_RELAY_QUEUE\<close> frames, paths are symmetric, every queued frame comes
  over a path that is still granted in both directions, and both its ends have a queue.\<close>

theorem relay_queues_bounded_and_authorised:
  defines "r \<equiv> foldl relay_step relay_init"
  shows "(\<forall>d q. dict_get (rl_queues (r es)) d = Some q \<longrightarrow> length q \<le> MAX_RELAY_QUEUE
            \<and> (\<forall>s f. (s, f) \<in> set q \<longrightarrow> has_path (r es) s d \<and> has_path (r es) d s
                 \<and> dict_has (rl_queues (r es)) s))
       \<and> (\<forall>a b. has_path (r es) a b \<longleftrightarrow> has_path (r es) b a)"
proof -
  have "relay_inv (r es)" unfolding r_def by (rule relay_run.run_keeps [OF relay_inv_init])
  note inv = relay_invD [OF this]
  show ?thesis using inv(2-5) by blast
qed

abbreviation queued :: "relay \<Rightarrow> string \<Rightarrow> (string \<times> bytes) list" where
  "queued r d \<equiv> dict_get_or (rl_queues r) d []"

primrec accepted :: "string \<Rightarrow> relay \<Rightarrow> relay_event \<Rightarrow> (string \<times> bytes) list" where
  "accepted d r (Path src dst) = []"
| "accepted d r (Frame src dst raw) = (if dst = d \<and> fst (relay_frame src dst raw r) then [(src, raw)] else [])"
| "accepted d r (Drain dst) = []"
| "accepted d r (Drop c) = []"

primrec delivered :: "string \<Rightarrow> relay \<Rightarrow> relay_event \<Rightarrow> (string \<times> string) list" where
  "delivered d r (Path src dst) = []"
| "delivered d r (Frame src dst raw) = []"
| "delivered d r (Drain dst) = (if dst = d then fst (pending_frames dst r) else [])"
| "delivered d r (Drop c) = []"

primrec over_run :: "(relay \<Rightarrow> relay_event \<Rightarrow> 'a list) \<Rightarrow> relay \<Rightarrow> relay_event list \<Rightarrow> 'a list" where
  "over_run f r [] = []"
| "over_run f r (e # es) = f r e @ over_run f (relay_step r e) es"

primrec drops :: "relay_event \<Rightarrow> bool" where
  "drops (Path src dst) = False"
| "drops (Frame src dst raw) = False"
| "drops (Drain dst) = False"
| "drops (Drop c) = True"

lemma fifo_step:
  assumes "\<not> drops e"
  shows "delivered d r e @ map encode_frame (queued (relay_step r e) d)
    = map encode_frame (queued r d @ accepted d r e)"
proof (cases e)
  case (Drain dst)
  then show ?thesis by (cases "dict_get (rl_queues r) dst") (auto simp: pending_frames_def dict_get_or_def)
next
  case (Frame src dst raw)
  then show ?thesis by (cases "dict_get (rl_queues r) dst") (auto simp: relay_frame_def dict_get_or_def)
next
  case (Path src dst)
  then show ?thesis
    by (cases "dict_get (rl_queues r) src"; cases "dict_get (rl_queues r) dst")
      (auto simp: register_relay_path_def queue_for_def dict_get_or_def Let_def)
qed (use assms in simp)

text \<open>The relay is a reliable FIFO channel: as long as no client is dropped, the frames handed
  out for a destination followed by those still queued are, in base64, exactly the frames that
  were queued before and those whose relaying was reported as accepted since, in that order:
  none lost, duplicated, reordered or invented.\<close>

theorem relay_fifo:
  assumes "\<forall>e \<in> set es. \<not> drops e"
  shows "over_run (delivered d) r es @ map encode_frame (queued (foldl relay_step r es) d)
    = map encode_frame (queued r d @ over_run (accepted d) r es)"
  using assms
proof (induction es arbitrary: r)
  case (Cons e es)
  then show ?case using fifo_step [of e d r] by (simp flip: append_assoc) (simp add: append_assoc)
qed simp

theorem relay_queues_bounded_and_authorised_witness:
  "dict_get (rl_queues (foldl relay_step relay_init [Path ''a'' ''b'', Frame ''a'' ''b'' [1]])) ''b'' = Some [(''a'', [1])]
   \<and> has_path (foldl relay_step relay_init [Path ''a'' ''b'', Frame ''a'' ''b'' [1]]) ''b'' ''a''"
proof -
  have q: "dict_get (rl_queues (foldl relay_step relay_init [Path ''a'' ''b'', Frame ''a'' ''b'' [1]])) ''b'' = Some [(''a'', [1])]"
    by (simp add: relay_op_defs relay_init_def has_path_def MAX_RELAY_QUEUE_def set_add_def)
  then show ?thesis using relay_queues_bounded_and_authorised [of "[Path ''a'' ''b'', Frame ''a'' ''b'' [1]]"] by force
qed

theorem relay_fifo_witness:
  "over_run (delivered ''b'') relay_init [Path ''a'' ''b'', Frame ''a'' ''b'' [1], Frame ''a'' ''b'' [2], Drain ''b'']
     = [(''a'', b64encode [1]), (''a'', b64encode [2])]"
proof -
  let ?es = "[Path ''a'' ''b'', Frame ''a'' ''b'' [1], Frame ''a'' ''b'' [2], Drain ''b'']"
  have q: "queued (foldl relay_step relay_init ?es) ''b'' = []"
    and a: "over_run (accepted ''b'') relay_init ?es = [(''a'', [1]), (''a'', [2])]"
    by (simp_all add: relay_op_defs relay_init_def has_path_def MAX_RELAY_QUEUE_def set_add_def dict_get_or_def)
  have "over_run (delivered ''b'') relay_init ?es @ map encode_frame (queued (foldl relay_step relay_init ?es) ''b'')
    = map encode_frame (queued relay_init ''b'' @ over_run (accepted ''b'') relay_init ?es)"
    by (rule relay_fifo) simp
  then show ?thesis unfolding q a by (simp add: encode_frame_def relay_init_def dict_get_or_def)
qed

end
