(* ===== verification/Server.thy ===== *)
theory Server
  imports Network_Manager Auth Relay
begin

text \<open>
  The mediation server of \<^verbatim>\<open>server/main.py\<close>: the connection coroutine, registration,
  authentication, the command dispatch with all its handlers, peer announcements, disconnects and
  the two periodic tasks, with the relay's two server-facing coroutines of
  \<^verbatim>\<open>server/relay.py\<close>.

  A handler is a function from the server to the list of messages it sends, in order, the new
  server and the exception it ends with, if any.  Every handler changes the state before its
  first \<^verbatim>\<open>await\<close>, so that it is one step; what is sent is then flushed message by message,
  and a message that cannot be built or serialized raises there and suppresses the rest, as in
  the code.  A connection is named by a number; the coroutine's local variables are the
  record \<open>connection\<close>.  Failures of the transport while sending are not modelled.
\<close>

section \<open>State\<close>

record connection =
  cn_peer :: "string \<times> int"
  cn_client_id :: "string option"
  cn_registered :: bool
  cn_authenticated :: bool

record server =
  sv_max_clients :: int
  sv_heartbeat_timeout :: int
  sv_networks :: network_manager
  sv_auth :: auth_session
  sv_relay :: "relay option"
  sv_writers :: "(string, nat) dict"
  sv_authenticated :: "(string, bool) dict"
  sv_conns :: "(nat, connection) dict"
  sv_closed :: "nat list"
  sv_prune_alive :: bool
  sv_shutting_down :: bool

abbreviation sv_registry :: "server \<Rightarrow> registry" where
  "sv_registry s \<equiv> nm_registry (sv_networks s)"

abbreviation with_registry :: "(registry \<Rightarrow> registry) \<Rightarrow> server \<Rightarrow> server" where
  "with_registry f s \<equiv> s\<lparr>sv_networks := (sv_networks s)\<lparr>nm_registry := f (sv_registry s)\<rparr>\<rparr>"

text \<open>What a step takes from outside: the clock, the random values drawn for it, the libraries and
  the printing of a floating-point time.\<close>

record 'k env =
  ev_now :: time
  ev_nonce :: bytes
  ev_uuid :: string
  ev_salt :: bytes
  ev_draws :: "nat \<Rightarrow> string"
  ev_hex6 :: string
  ev_float_repr :: "time \<Rightarrow> string"
  ev_bcrypt :: bcrypt
  ev_rsa :: "'k rsa_lib"

datatype failure =
    ProtocolError string
  | Raised py_exc

type_synonym sends = "(nat \<times> message result) list"
type_synonym outs = "(nat \<times> message) list"
type_synonym outcome = "sends \<times> server \<times> failure option"

definition server_init :: "int \<Rightarrow> int \<Rightarrow> time \<Rightarrow> int \<Rightarrow> server" where
  "server_init max_clients heartbeat_timeout ttl max_attempts =
     \<lparr>sv_max_clients = max_clients, sv_heartbeat_timeout = heartbeat_timeout,
      sv_networks = nm_init registry_init, sv_auth = auth_init ttl max_attempts,
      sv_relay = Some relay_init, sv_writers = [], sv_authenticated = [], sv_conns = [],
      sv_closed = [], sv_prune_alive = True, sv_shutting_down = False\<rparr>"

section \<open>Sending\<close>

definition too_large :: "message \<Rightarrow> py_exc" where
  "too_large m = OtherError ''MessageTooLargeError''
     (''message payload of '' @ str_int (int (length (encode (dumps (message_body m))))) @ '' bytes exceeds MAX_MESSAGE_SIZE'')"

fun flush :: "sends \<Rightarrow> failure option \<Rightarrow> outs \<times> failure option" where
  "flush [] e = ([], e)"
| "flush ((w, Inl x) # ss) e = ([], Some (Raised x))"
| "flush ((w, Inr m) # ss) e =
     (case serialize m of
        Inl _ \<Rightarrow> ([], Some (Raised (too_large m)))
      | Inr _ \<Rightarrow> (case flush ss e of (os, e') \<Rightarrow> ((w, m) # os, e')))"

definition send_error :: "nat \<Rightarrow> string \<Rightarrow> string \<Rightarrow> nat \<times> message result" where
  "send_error w code text = (w, make_message ErrorMessage [(''code'', JStr code), (''message'', JStr text)])"

definition exc_text :: "py_exc \<Rightarrow> string" where
  "exc_text e =
     (case e of ValueError m \<Rightarrow> m | TypeError m \<Rightarrow> m | KeyError m \<Rightarrow> repr_str m
      | IndexError \<Rightarrow> ''list index out of range'' | OSError m \<Rightarrow> m | StructError \<Rightarrow> ''struct error''
      | AttributeError m \<Rightarrow> m | OtherError _ m \<Rightarrow> m)"

definition member_writers :: "server \<Rightarrow> string \<Rightarrow> (string \<times> nat) list" where
  "member_writers s n =
     List.map_filter (\<lambda>r. map_option (\<lambda>w. (cr_client_id r, w)) (dict_get (sv_writers s) (cr_client_id r)))
       (members_in_networks (sv_registry s) [n])"

section \<open>Announcements and disconnects\<close>

definition announce_peer_online :: "string \<Rightarrow> server \<Rightarrow> sends" where
  "announce_peer_online client_id s =
     concat (map (\<lambda>n. map (\<lambda>p. (snd p, make_message PeerOnline [(''network_id'', JStr n), (''peer_id'', JStr client_id)]))
                        (filter (\<lambda>p. fst p \<noteq> client_id) (member_writers s n)))
              (networks_for (sv_registry s) client_id))"

definition announce_peer_offline :: "string \<Rightarrow> string \<Rightarrow> server \<Rightarrow> sends" where
  "announce_peer_offline client_id n s =
     map (\<lambda>p. (snd p, make_message PeerOffline [(''network_id'', JStr n), (''peer_id'', JStr client_id)]))
       (filter (\<lambda>p. fst p \<noteq> client_id) (member_writers s n))"

definition handle_disconnect :: "string \<Rightarrow> server \<Rightarrow> sends \<times> server" where
  "handle_disconnect client_id s =
     (let nets = networks_for (sv_registry s) client_id;
          s1 = s\<lparr>sv_writers := dict_del client_id (sv_writers s),
                 sv_authenticated := dict_del client_id (sv_authenticated s)\<rparr>;
          s2 = with_registry (unregister client_id) s1;
          s3 = s2\<lparr>sv_relay := map_option (drop_client client_id) (sv_relay s2)\<rparr>
      in (concat (map (\<lambda>n. announce_peer_offline client_id n s3) nets), s3))"

definition broadcast_service :: "string \<Rightarrow> dataclass \<Rightarrow> payload \<Rightarrow> server \<Rightarrow> sends" where
  "broadcast_service n cls kw s = map (\<lambda>p. (snd p, make_message cls kw)) (member_writers s n)"

section \<open>Registration and authentication\<close>

definition on_register :: "'k env \<Rightarrow> nat \<Rightarrow> string \<times> int \<Rightarrow> message \<Rightarrow> server \<Rightarrow> sends \<times> server \<times> string option" where
  "on_register ev w peer msg s =
     (case validate_register (m_payload msg) of
        Inl e \<Rightarrow> ([send_error w ''INVALID_REGISTER'' e], s, None)
      | Inr (client_id, public_key) \<Rightarrow>
          if int (length (sv_writers s)) \<ge> sv_max_clients s \<and> \<not> dict_has (sv_writers s) client_id
          then ([send_error w ''SERVER_FULL'' ''server is at capacity''], s, None)
          else if is_banned (sv_registry s) client_id
          then ([send_error w ''BANNED'' ''client is banned''], s, None)
          else
            (let s1 = with_registry (register (ev_now ev) client_id public_key) s;
                 s2 = (case dict_get (sv_writers s1) client_id of
                         Some old \<Rightarrow> if old \<noteq> w then s1\<lparr>sv_closed := set_add old (sv_closed s1)\<rparr> else s1
                       | None \<Rightarrow> s1);
                 s3 = with_registry (\<lambda>reg. snd (set_online (ev_now ev) client_id (update_endpoint client_id peer reg))) s2;
                 s4 = s3\<lparr>sv_writers := dict_set client_id w (sv_writers s3),
                         sv_authenticated := dict_set client_id False (sv_authenticated s3)\<rparr>;
                 (ch, a) = issue (ev_now ev) (ev_nonce ev) client_id (sv_auth s4)
             in ([(w, make_message AuthChallenge
                        (filter (\<lambda>kv. fst kv \<in> {''challenge'', ''client_id''}) ch))],
                 s4\<lparr>sv_auth := a\<rparr>, Some client_id)))"

definition on_auth :: "'k env \<Rightarrow> nat \<Rightarrow> string \<Rightarrow> message \<Rightarrow> server
    \<Rightarrow> sends \<times> server \<times> (bool \<times> string) result" where
  "on_auth ev w client_id msg s =
     (case validate_auth_response (m_payload msg) of
        Inl e \<Rightarrow> ([], s, Inr (False, e))
      | Inr (challenge_hex, signature_hex) \<Rightarrow>
          (case verify (ev_rsa ev) (sv_registry s) (ev_now ev) client_id challenge_hex signature_hex (sv_auth s) of
             (Inl e, a) \<Rightarrow> ([], s\<lparr>sv_auth := a\<rparr>, Inl e)
           | (Inr (ok, detail), a) \<Rightarrow>
               (let s1 = s\<lparr>sv_auth := a\<rparr> in
                if ok then
                  (let s2 = s1\<lparr>sv_authenticated := dict_set client_id True (sv_authenticated s1)\<rparr> in
                   ((w, make_message AuthResult [(''ok'', JBool True), (''message'', JStr ''authenticated'')])
                      # announce_peer_online client_id s2, s2, Inr (ok, detail)))
                else ([], s1, Inr (ok, detail)))))"

section \<open>Commands\<close>

definition on_heartbeat :: "'k env \<Rightarrow> string \<Rightarrow> nat \<Rightarrow> message \<Rightarrow> server \<Rightarrow> outcome" where
  "on_heartbeat ev client_id w msg s =
     ([(w, make_message HeartbeatAck
             [(''ts'', case dict_get (m_payload msg) ''ts'' of Some v \<Rightarrow> v | None \<Rightarrow> JFloat ''0.0'')])],
      with_registry (\<lambda>reg. snd (heartbeat (ev_now ev) client_id reg)) s, None)"

definition on_create_network :: "'k env \<Rightarrow> string \<Rightarrow> nat \<Rightarrow> message \<Rightarrow> server \<Rightarrow> outcome" where
  "on_create_network ev client_id w msg s =
     (case validate_create_network (m_payload msg) of
        Inl e \<Rightarrow> ([], s, Some (ProtocolError e))
      | Inr (name, password, topo) \<Rightarrow>
     (case create (ev_bcrypt ev) (ev_now ev) (ev_uuid ev) (ev_salt ev) name password client_id topo None (sv_networks s) of
        Inl e \<Rightarrow> ([], s, Some (Raised e))
      | Inr (record, m1) \<Rightarrow>
     (case generate_invite_code (ev_draws ev) (ev_hex6 ev) (network_id record) m1 of
        Inl e \<Rightarrow> ([], s\<lparr>sv_networks := m1\<rparr>, Some (Raised e))
      | Inr (invite_code, m2) \<Rightarrow>
          (let s' = s\<lparr>sv_networks := m2\<rparr> in
           ((w, make_message NetworkCreated
                  [(''network_id'', JStr (network_id record)), (''name'', JStr (net_name record)),
                   (''owner_id'', JStr client_id), (''topology'', JStr (topology record)),
                   (''invite_code'', JStr invite_code)])
              # announce_peer_online client_id s', s', None)))))"

definition on_join_network :: "'k env \<Rightarrow> string \<Rightarrow> nat \<Rightarrow> message \<Rightarrow> server \<Rightarrow> outcome" where
  "on_join_network ev client_id w msg s =
     (case validate_join_network (m_payload msg) of
        Inl e \<Rightarrow> ([], s, Some (ProtocolError e))
      | Inr (key, password) \<Rightarrow>
          if nm_is_banned (sv_networks s) key
          then ([send_error w ''NETWORK_BANNED'' ''network is banned''], s, None)
          else
            (let joined = (\<lambda>record m.
                   (let s' = s\<lparr>sv_networks := m\<rparr> in
                    ((w, make_message NetworkJoined
                           [(''network_id'', JStr (network_id record)), (''name'', JStr (net_name record))])
                       # announce_peer_online client_id s', s', None)))
             in case nm_get (sv_networks s) key of
                  Some record \<Rightarrow>
                    (case join_net (ev_bcrypt ev) key client_id password (sv_networks s) of
                       (True, m) \<Rightarrow> joined record m
                     | (False, m) \<Rightarrow> ([send_error w ''WRONG_PASSWORD'' ''join rejected''], s\<lparr>sv_networks := m\<rparr>, None))
                | None \<Rightarrow>
                    (case join_by_invite_code (ev_bcrypt ev) key client_id password (sv_networks s) of
                       (Some record, m) \<Rightarrow> joined record m
                     | (None, m) \<Rightarrow>
                         ([send_error w ''NETWORK_NOT_FOUND''
                             (''no such network '' @ [CHR 0xE2, CHR 0x80, CHR 0x94] @ '' check the network id or invite code'')],
                          s\<lparr>sv_networks := m\<rparr>, None))))"

definition on_leave_network :: "string \<Rightarrow> nat \<Rightarrow> message \<Rightarrow> server \<Rightarrow> outcome" where
  "on_leave_network client_id w msg s =
     (case validate_network_id (m_payload msg) of
        Inl e \<Rightarrow> ([], s, Some (ProtocolError e))
      | Inr nid \<Rightarrow>
          (case leave nid client_id (sv_networks s) of
             (True, m) \<Rightarrow>
               (let s' = s\<lparr>sv_networks := m\<rparr> in
                ((w, make_message NetworkLeft [(''network_id'', JStr nid)]) # announce_peer_offline client_id nid s', s', None))
           | (False, m) \<Rightarrow>
               ([send_error w ''NOT_MEMBER'' ''you are not a member of this network''], s\<lparr>sv_networks := m\<rparr>, None)))"

definition on_list_networks :: "'k env \<Rightarrow> string \<Rightarrow> nat \<Rightarrow> server \<Rightarrow> outcome" where
  "on_list_networks ev client_id w s =
     ([(w, make_message NetworkList
             [(''networks'', JArr (map (\<lambda>r. JObj (network_to_dict (ev_float_repr ev) r None))
                                     (list_for_client (sv_networks s) client_id)))])], s, None)"

definition on_request_peer_conn :: "string \<Rightarrow> nat \<Rightarrow> message \<Rightarrow> server \<Rightarrow> outcome" where
  "on_request_peer_conn client_id w msg s =
     (case validate_peer_id (m_payload msg) of
        Inl e \<Rightarrow> ([], s, Some (ProtocolError e))
      | Inr peer_id \<Rightarrow>
          (case find (\<lambda>n. is_member (sv_networks s) n peer_id) (networks_for (sv_registry s) client_id) of
             None \<Rightarrow> ([send_error w ''NO_SHARED_NETWORK'' ''no shared network with that peer''], s, None)
           | Some shared \<Rightarrow>
               (case shared_endpoints_for (sv_networks s) shared client_id peer_id of
                  None \<Rightarrow> ([send_error w ''PEER_UNAVAILABLE'' ''peer is offline or endpoints hidden''], s, None)
                | Some [] \<Rightarrow> ([send_error w ''PEER_UNAVAILABLE'' ''peer is offline or endpoints hidden''], s, None)
                | Some eps \<Rightarrow>
                    ([(w, make_message PeerEndpoints
                            [(''peer_id'', JStr peer_id),
                             (''endpoints'', JArr (map (\<lambda>ep. JArr [JStr (fst ep), JInt (snd ep)]) eps))])], s, None))))"

text \<open>\<^verbatim>\<open>payload.get("network_id") or networks[0].network_id\<close>, then the membership test: a value
  that is not a string is never a key of the network table, and a list or dictionary is not
  hashable.  A service that was registered is returned as its identifier, a string, on which the
  handler then looks up \<^verbatim>\<open>service_id\<close>: it raises after the service has been stored.\<close>

definition on_expose_service :: "'k env \<Rightarrow> string \<Rightarrow> nat \<Rightarrow> message \<Rightarrow> server \<Rightarrow> outcome" where
  "on_expose_service ev client_id w msg s =
     (case validate_expose_service (m_payload msg) of
        Inl e \<Rightarrow> ([], s, Some (ProtocolError e))
      | Inr (name, protocol, lhost, lport) \<Rightarrow>
          (case list_for_client (sv_networks s) client_id of
             [] \<Rightarrow> ([send_error w ''NO_NETWORK'' ''join a network before exposing a service''], s, None)
           | r # _ \<Rightarrow>
               (case get_or (m_payload msg) ''network_id'' (JStr (network_id r)) of
                  JStr nid \<Rightarrow>
                    (case expose_service (ev_now ev) (ev_uuid ev) nid client_id name protocol lhost lport (sv_networks s) of
                       Inl e \<Rightarrow> ([], s, Some (Raised e))
                     | Inr (_, m) \<Rightarrow>
                         ([], s\<lparr>sv_networks := m\<rparr>,
                          Some (Raised (AttributeError (repr_str ''str'' @ '' object has no attribute '' @ repr_str ''service_id'')))))
                | JArr _ \<Rightarrow> ([], s, Some (Raised (TypeError (''unhashable type: '' @ repr_str ''list''))))
                | JObj _ \<Rightarrow> ([], s, Some (Raised (TypeError (''unhashable type: '' @ repr_str ''dict''))))
                | _ \<Rightarrow> ([], s, Some (Raised (ValueError ''client not a member of this network''))))))"

definition on_unexpose_service :: "string \<Rightarrow> nat \<Rightarrow> message \<Rightarrow> server \<Rightarrow> outcome" where
  "on_unexpose_service client_id w msg s =
     (case validate_service_id (m_payload msg) of
        Inl e \<Rightarrow> ([], s, Some (ProtocolError e))
      | Inr sid \<Rightarrow>
          (case unexpose_service_owner sid client_id (sv_networks s) of
             (None, m) \<Rightarrow> ([send_error w ''SERVICE_NOT_FOUND'' ''service not found''], s\<lparr>sv_networks := m\<rparr>, None)
           | (Some nid, m) \<Rightarrow>
               (let s' = s\<lparr>sv_networks := m\<rparr> in
                (broadcast_service nid ServiceRemoved [(''service_id'', JStr sid)] s', s', None))))"

definition handle_relay_request :: "string \<Rightarrow> string \<Rightarrow> nat \<Rightarrow> relay \<Rightarrow> server \<Rightarrow> outcome" where
  "handle_relay_request src dst w rl s =
     (case (registry_get (sv_registry s) src, registry_get (sv_registry s) dst) of
        (Some a, Some b) \<Rightarrow>
          if \<not> (online a \<and> online b) then ([send_error w ''RELAY_FAILED'' ''peer is not online''], s, None)
          else if \<not> (\<exists>r \<in> set (list_for_client (sv_networks s) src). dst \<in> set (members_of (sv_networks s) (network_id r)))
          then ([send_error w ''RELAY_FAILED'' ''no shared network with that peer''], s, None)
          else
            ((w, make_message RelayGranted [(''peer_id'', JStr dst), (''path_id'', JStr (src @ ''->'' @ dst))])
               # (case dict_get (sv_writers s) dst of
                    None \<Rightarrow> []
                  | Some dw \<Rightarrow> [(dw, make_message RelayGranted [(''peer_id'', JStr src), (''path_id'', JStr (dst @ ''->'' @ src))])]),
             s\<lparr>sv_relay := Some (snd (register_relay_path src dst rl))\<rparr>, None)
      | _ \<Rightarrow> ([send_error w ''RELAY_FAILED'' ''unknown peer''], s, None))"

definition on_relay_request :: "string \<Rightarrow> nat \<Rightarrow> message \<Rightarrow> server \<Rightarrow> outcome" where
  "on_relay_request client_id w msg s =
     (case sv_relay s of
        None \<Rightarrow> ([send_error w ''RELAY_DISABLED'' ''relay unavailable (relay module missing)''], s, None)
      | Some rl \<Rightarrow>
          (case validate_peer_id (m_payload msg) of
             Inl e \<Rightarrow> ([], s, Some (ProtocolError e))
           | Inr peer_id \<Rightarrow> handle_relay_request client_id peer_id w rl s))"

definition handler :: "'k env \<Rightarrow> string \<Rightarrow> nat \<Rightarrow> message \<Rightarrow> server \<Rightarrow> outcome" where
  "handler ev client_id w msg s =
     (if m_type msg = ''HEARTBEAT'' then on_heartbeat ev client_id w msg s
      else if m_type msg = ''CREATE_NETWORK'' then on_create_network ev client_id w msg s
      else if m_type msg = ''JOIN_NETWORK'' then on_join_network ev client_id w msg s
      else if m_type msg = ''LEAVE_NETWORK'' then on_leave_network client_id w msg s
      else if m_type msg = ''LIST_NETWORKS'' then on_list_networks ev client_id w s
      else if m_type msg = ''REQUEST_PEER_CONN'' then on_request_peer_conn client_id w msg s
      else if m_type msg = ''EXPOSE_SERVICE'' then on_expose_service ev client_id w msg s
      else if m_type msg = ''UNEXPOSE_SERVICE'' then on_unexpose_service client_id w msg s
      else if m_type msg = ''RELAY_REQUEST'' then on_relay_request client_id w msg s
      else ([send_error w ''UNKNOWN_MESSAGE'' (''unhandled message type '' @ m_type msg)], s, None))"

text \<open>The dispatch turns the exception of a handler into an error reply; the reply itself may fail
  to serialize, and then the exception leaves the dispatch.\<close>

definition dispatch :: "'k env \<Rightarrow> string \<Rightarrow> nat \<Rightarrow> message \<Rightarrow> server \<Rightarrow> outs \<times> server \<times> failure option" where
  "dispatch ev client_id w msg s =
     (case handler ev client_id w msg s of
        (ss, s', e) \<Rightarrow>
          (case flush ss e of
             (os, None) \<Rightarrow> (os, s', None)
           | (os, Some (ProtocolError t)) \<Rightarrow>
               (case flush [send_error w ''INVALID_MESSAGE'' t] None of (os', e') \<Rightarrow> (os @ os', s', e'))
           | (os, Some (Raised x)) \<Rightarrow>
               (case flush [send_error w ''INTERNAL'' (''internal error: '' @ exc_text x)] None of
                  (os', e') \<Rightarrow> (os @ os', s', e'))))"

definition deliver_relayed :: "string \<Rightarrow> nat \<Rightarrow> server \<Rightarrow> sends \<times> server" where
  "deliver_relayed client_id w s =
     (case sv_relay s of
        None \<Rightarrow> ([], s)
      | Some rl \<Rightarrow>
          (case pending_frames client_id rl of
             (fs, rl') \<Rightarrow>
               (map (\<lambda>f. (w, make_message RelayFrame
                           [(''src_id'', JStr (fst f)), (''dst_id'', JStr client_id), (''frame_b64'', JStr (snd f))])) fs,
                s\<lparr>sv_relay := Some rl'\<rparr>)))"

section \<open>Connections\<close>

text \<open>The \<^verbatim>\<open>finally\<close> block of the coroutine; afterwards the connection is gone.\<close>

definition finish :: "nat \<Rightarrow> connection \<Rightarrow> server \<Rightarrow> outs \<times> server" where
  "finish w cn s =
     (let s0 = s\<lparr>sv_conns := dict_del w (sv_conns s)\<rparr>;
          (os, s1, e) =
            (case cn_client_id cn of
               Some c \<Rightarrow>
                 if c \<noteq> [] \<and> cn_authenticated cn
                 then (case handle_disconnect c s0 of (ss, s') \<Rightarrow> (case flush ss None of (os, e) \<Rightarrow> (os, s', e)))
                 else ([], s0, None)
             | None \<Rightarrow> ([], s0, None))
      in (os, if e = None then s1\<lparr>sv_closed := set_add w (sv_closed s1)\<rparr> else s1))"

definition set_conn :: "nat \<Rightarrow> connection \<Rightarrow> server \<Rightarrow> server" where
  "set_conn w cn s = s\<lparr>sv_conns := dict_set w cn (sv_conns s)\<rparr>"

text \<open>One turn of the loop of \<^verbatim>\<open>handle_client\<close> on a received message.\<close>

definition conn_register :: "'k env \<Rightarrow> nat \<Rightarrow> connection \<Rightarrow> message \<Rightarrow> server \<Rightarrow> outs \<times> server" where
  "conn_register ev w cn msg s =
     (case on_register ev w (cn_peer cn) msg s of
        (ss, s', c) \<Rightarrow>
          (case flush ss None of
             (os, None) \<Rightarrow> (os, set_conn w (cn\<lparr>cn_client_id := c, cn_registered := (c \<noteq> None)\<rparr>) s')
           | (os, Some _) \<Rightarrow> (case finish w cn s' of (os', s'') \<Rightarrow> (os @ os', s''))))"

definition conn_auth :: "'k env \<Rightarrow> nat \<Rightarrow> connection \<Rightarrow> string \<Rightarrow> message \<Rightarrow> server \<Rightarrow> outs \<times> server" where
  "conn_auth ev w cn c msg s =
     (case on_auth ev w c msg s of
        (ss, s', Inl e) \<Rightarrow> finish w cn s'
      | (ss, s', Inr (ok, detail)) \<Rightarrow>
          (case flush ss None of
             (os, Some _) \<Rightarrow> (case finish w cn s' of (os', s'') \<Rightarrow> (os @ os', s''))
           | (os, None) \<Rightarrow>
               (let cn' = cn\<lparr>cn_authenticated := ok\<rparr> in
                case flush (if ok then [] else [send_error w ''AUTH_FAILED'' detail]) None of
                  (os', None) \<Rightarrow> (os @ os', set_conn w cn' s')
                | (os', Some _) \<Rightarrow> (case finish w cn' s' of (os'', s'') \<Rightarrow> (os @ os' @ os'', s'')))))"

definition conn_command :: "'k env \<Rightarrow> nat \<Rightarrow> connection \<Rightarrow> string \<Rightarrow> message \<Rightarrow> server \<Rightarrow> outs \<times> server" where
  "conn_command ev w cn c msg s =
     (case dispatch ev c w msg s of
        (os, s', Some _) \<Rightarrow> (case finish w cn s' of (os', s'') \<Rightarrow> (os @ os', s''))
      | (os, s', None) \<Rightarrow>
          (case deliver_relayed c w s' of
             (ss, s'') \<Rightarrow>
               (case flush ss None of
                  (os', None) \<Rightarrow> (os @ os', s'')
                | (os', Some _) \<Rightarrow> (case finish w cn s'' of (os'', s3) \<Rightarrow> (os @ os' @ os'', s3)))))"

definition conn_reject :: "nat \<Rightarrow> connection \<Rightarrow> string \<Rightarrow> string \<Rightarrow> server \<Rightarrow> outs \<times> server" where
  "conn_reject w cn code text s =
     (case flush [send_error w code text] None of
        (os, None) \<Rightarrow> (os, s)
      | (os, Some _) \<Rightarrow> (case finish w cn s of (os', s') \<Rightarrow> (os @ os', s')))"

definition handle_message :: "'k env \<Rightarrow> nat \<Rightarrow> connection \<Rightarrow> message \<Rightarrow> server \<Rightarrow> outs \<times> server" where
  "handle_message ev w cn msg s =
     (if \<not> cn_registered cn then
        if m_type msg \<noteq> ''REGISTER'' then conn_reject w cn ''REGISTER_REQUIRED'' ''register first'' s
        else conn_register ev w cn msg s
      else
        (case cn_client_id cn of
           None \<Rightarrow> ([], s)
         | Some c \<Rightarrow>
             if \<not> cn_authenticated cn then
               if m_type msg \<noteq> ''AUTH_RESPONSE'' then conn_reject w cn ''AUTH_REQUIRED'' ''authenticate first'' s
               else conn_auth ev w cn c msg s
             else conn_command ev w cn c msg s))"

text \<open>The reads of the loop: four bytes, then the body they announce.  \<open>data\<close> is what arrived up to
  the end of this message, or up to the end of the stream if that comes first.\<close>

definition handle_data :: "'k env \<Rightarrow> nat \<Rightarrow> connection \<Rightarrow> bytes \<Rightarrow> server \<Rightarrow> outs \<times> server" where
  "handle_data ev w cn data s =
     (if length data < 4 then finish w cn s
      else if be_val (take 4 data) > MAX_MESSAGE_SIZE then finish w cn s
      else if length data < 4 + be_val (take 4 data) then finish w cn s
      else (case deserialize (take (4 + be_val (take 4 data)) data) of
              Inl _ \<Rightarrow> finish w cn s
            | Inr msg \<Rightarrow> handle_message ev w cn msg s))"

section \<open>Periodic tasks and shutdown\<close>

definition prune_interval :: "server \<Rightarrow> int" where
  "prune_interval s = max 5 (sv_heartbeat_timeout s div 3)"

primrec disconnect_all :: "string list \<Rightarrow> server \<Rightarrow> outs \<times> server" where
  "disconnect_all [] s = ([], s)"
| "disconnect_all (c # cs) s =
     (case handle_disconnect c s of
        (ss, s') \<Rightarrow>
          (case flush ss None of
             (os, None) \<Rightarrow> (case disconnect_all cs s' of (os', s'') \<Rightarrow> (os @ os', s''))
           | (os, Some _) \<Rightarrow> (os, s'\<lparr>sv_prune_alive := False\<rparr>)))"

definition prune_tick :: "time \<Rightarrow> server \<Rightarrow> outs \<times> server" where
  "prune_tick now s =
     (if \<not> sv_prune_alive s then ([], s)
      else (case prune_stale now (of_int (sv_heartbeat_timeout s)) (sv_registry s) of
              (stale, reg) \<Rightarrow> disconnect_all stale (with_registry (\<lambda>_. reg) s)))"

definition auth_expiry_tick :: "time \<Rightarrow> server \<Rightarrow> server" where
  "auth_expiry_tick now s =
     (if sv_shutting_down s then s else s\<lparr>sv_auth := snd (expire_stale now (sv_auth s))\<rparr>)"

definition shutdown :: "server \<Rightarrow> server" where
  "shutdown s =
     s\<lparr>sv_shutting_down := True, sv_prune_alive := False,
       sv_closed := fold set_add (dict_values (sv_writers s)) (sv_closed s), sv_writers := []\<rparr>"

section \<open>The server as a machine\<close>

datatype 'k event =
    Connect nat "string \<times> int"
  | Receive "'k env" nat bytes
  | HangUp nat
  | Prune time
  | AuthExpiry time
  | Shutdown

fun server_step :: "server \<Rightarrow> 'k event \<Rightarrow> outs \<times> server" where
  "server_step s (Connect w peer) =
     ([], if dict_has (sv_conns s) w then s
          else set_conn w \<lparr>cn_peer = peer, cn_client_id = None, cn_registered = False, cn_authenticated = False\<rparr> s)"
| "server_step s (Receive ev w data) =
     (case dict_get (sv_conns s) w of None \<Rightarrow> ([], s) | Some cn \<Rightarrow> handle_data ev w cn data s)"
| "server_step s (HangUp w) =
     (case dict_get (sv_conns s) w of None \<Rightarrow> ([], s) | Some cn \<Rightarrow> finish w cn s)"
| "server_step s (Prune now) = prune_tick now s"
| "server_step s (AuthExpiry now) = ([], auth_expiry_tick now s)"
| "server_step s Shutdown = ([], shutdown s)"

end
