(* ===== verification/Server_Invariant.thy ===== *)
theory Server_Invariant
  imports Server
begin

text \<open>
  The invariant of the mediation server and what each of its steps may change.  \<open>core_inv\<close>
  collects the invariants of the parts; \<open>acts a s s'\<close> says that a step keeps it, forgets no
  registered client, does not touch the connections and changes memberships of the client
  \<open>a\<close> at most.  Every handler is shown to act for its own client only.
\<close>

section \<open>The invariant\<close>

definition core_inv :: "server \<Rightarrow> bool" where
  "core_inv s \<longleftrightarrow> nm_inv (sv_networks s) \<and> services_wf (sv_networks s) \<and> auth_inv (sv_auth s)
     \<and> (\<forall>r. sv_relay s = Some r \<longrightarrow> relay_inv r)
     \<and> dict_wf (sv_writers s) \<and> int (length (sv_writers s)) \<le> sv_max_clients s"

definition conn_ok :: "registry \<Rightarrow> connection \<Rightarrow> bool" where
  "conn_ok reg cn \<longleftrightarrow> (cn_registered cn \<longleftrightarrow> cn_client_id cn \<noteq> None)
     \<and> (cn_authenticated cn \<longrightarrow> cn_registered cn)
     \<and> (\<forall>c. cn_client_id cn = Some c \<longrightarrow> dict_has reg c \<and> c \<noteq> [])"

definition server_inv :: "server \<Rightarrow> bool" where
  "server_inv s \<longleftrightarrow> core_inv s \<and> dict_wf (sv_conns s)
     \<and> (\<forall>w cn. dict_get (sv_conns s) w = Some cn \<longrightarrow> conn_ok (sv_registry s) cn)"

definition acts :: "string option \<Rightarrow> server \<Rightarrow> server \<Rightarrow> bool" where
  "acts a s s' \<longleftrightarrow> core_inv s' \<and> sv_conns s' = sv_conns s \<and> sv_max_clients s' = sv_max_clients s
     \<and> (\<forall>c. dict_has (sv_registry s) c \<longrightarrow> dict_has (sv_registry s') c)
     \<and> (\<forall>n d. a \<noteq> Some d \<longrightarrow> is_member (sv_networks s') n d = is_member (sv_networks s) n d)"

lemma acts_refl: "core_inv s \<Longrightarrow> acts a s s"
  by (simp add: acts_def)

lemma acts_trans: "acts a s s' \<Longrightarrow> acts a s' s'' \<Longrightarrow> acts a s s''"
  by (simp add: acts_def)

lemma acts_weaken: "acts None s s' \<Longrightarrow> acts a s s'"
  by (simp add: acts_def)

lemma acts_core: "acts a s s' \<Longrightarrow> core_inv s'"
  by (simp add: acts_def)

section \<open>Changes of one part\<close>

lemma acts_networks:
  assumes "core_inv s" "nm_inv m" "services_wf m"
    and "\<And>c. dict_has (sv_registry s) c \<Longrightarrow> dict_has (nm_registry m) c"
    and "\<And>n d. a \<noteq> Some d \<Longrightarrow> is_member m n d = is_member (sv_networks s) n d"
  shows "acts a s (s\<lparr>sv_networks := m\<rparr>)"
  using assms by (simp add: acts_def core_inv_def)

lemma acts_registry:
  assumes "core_inv s" "registry_wf reg"
    and "\<And>c. set (networks_for reg c) = set (networks_for (sv_registry s) c)"
    and "\<And>c. dict_has (sv_registry s) c \<Longrightarrow> dict_has reg c"
  shows "acts None s (s\<lparr>sv_networks := (sv_networks s)\<lparr>nm_registry := reg\<rparr>\<rparr>)"
  using assms by (intro acts_networks nm_inv_registry) (auto simp: core_inv_def services_wf_def is_member_def)

lemma acts_auth: "core_inv s \<Longrightarrow> auth_inv a' \<Longrightarrow> acts a s (s\<lparr>sv_auth := a'\<rparr>)"
  by (simp add: acts_def core_inv_def)

lemma acts_relay: "core_inv s \<Longrightarrow> (\<And>r. rl = Some r \<Longrightarrow> relay_inv r) \<Longrightarrow> acts a s (s\<lparr>sv_relay := rl\<rparr>)"
  by (simp add: acts_def core_inv_def)

lemma acts_authenticated: "core_inv s \<Longrightarrow> acts a s (s\<lparr>sv_authenticated := x\<rparr>)"
  by (simp add: acts_def core_inv_def)

lemma acts_closed: "core_inv s \<Longrightarrow> acts a s (s\<lparr>sv_closed := x\<rparr>)"
  by (simp add: acts_def core_inv_def)

lemma acts_prune_alive: "core_inv s \<Longrightarrow> acts a s (s\<lparr>sv_prune_alive := x\<rparr>)"
  by (simp add: acts_def core_inv_def)

lemma acts_writers:
  assumes "core_inv s" "dict_wf ws" "int (length ws) \<le> sv_max_clients s"
  shows "acts a s (s\<lparr>sv_writers := ws\<rparr>)"
  using assms by (simp add: acts_def core_inv_def)

lemma core_registry_wf: "core_inv s \<Longrightarrow> registry_wf (sv_registry s)"
  by (simp add: core_inv_def nm_invD(1))

lemma services_wf_cong: "nm_services m' = nm_services m \<Longrightarrow> services_wf m' = services_wf m"
  by (simp add: services_wf_def)

lemma dict_has_register: "dict_has (register now c pem reg) d \<longleftrightarrow> d = c \<or> dict_has reg d"
  by (auto simp: register_def Let_def dict_has_def split: option.splits)

lemma dict_has_registry_ops [simp]:
  "dict_has (unregister c reg) d = dict_has reg d"
  "dict_has (snd (set_online now c reg)) d = dict_has reg d"
  "dict_has (update_endpoint c a reg) d = dict_has reg d"
  "dict_has (snd (heartbeat now c reg)) d = dict_has reg d"
  "dict_has (snd (prune_stale now t reg)) d = dict_has reg d"
  by (auto simp: unregister_def set_online_def update_endpoint_def heartbeat_def dict_has_def map_of_prune_stale
      split: option.splits)

section \<open>Disconnects, registration, authentication\<close>

lemma disconnect_acts:
  assumes "core_inv s"
  shows "acts None s (snd (handle_disconnect c s))"
proof -
  let ?s1 = "s\<lparr>sv_writers := dict_del c (sv_writers s)\<rparr>"
  let ?s2 = "?s1\<lparr>sv_authenticated := dict_del c (sv_authenticated s)\<rparr>"
  let ?s3 = "with_registry (unregister c) ?s2"
  have "int (length (dict_del c (sv_writers s))) \<le> sv_max_clients s"
    using assms length_dict_del_le [of c "sv_writers s"] by (simp add: core_inv_def)
  then have 1: "acts None s ?s1" using assms by (intro acts_writers) (auto simp: core_inv_def)
  have 2: "acts None ?s1 ?s2" by (rule acts_authenticated [OF acts_core [OF 1]])
  have 3: "acts None ?s2 ?s3" using acts_core [OF 2] core_registry_wf [OF assms]
    by (intro acts_registry) (auto simp: networks_for_frame)
  have 4: "acts None ?s3 (?s3\<lparr>sv_relay := map_option (drop_client c) (sv_relay s)\<rparr>)"
    using acts_core [OF 3] by (intro acts_relay) (auto simp: core_inv_def drop_inv)
  show ?thesis using acts_trans [OF acts_trans [OF acts_trans [OF 1 2] 3] 4]
    by (simp add: handle_disconnect_def Let_def)
qed

lemma register_acts:
  assumes "core_inv s" "length (ev_nonce ev) = CHALLENGE_LENGTH"
  shows "acts None s (fst (snd (on_register ev w peer msg s)))"
proof (cases "snd (snd (on_register ev w peer msg s))")
  case None
  then have "fst (snd (on_register ev w peer msg s)) = s"
    by (auto simp: on_register_def Let_def split: sum.splits prod.splits if_splits)
  then show ?thesis using assms(1) by (simp add: acts_refl)
next
  case (Some c)
  then obtain pem where v: "validate_register (m_payload msg) = Inr (c, pem)"
      "\<not> (int (length (sv_writers s)) \<ge> sv_max_clients s \<and> \<not> dict_has (sv_writers s) c)"
      "\<not> is_banned (sv_registry s) c"
    by (auto simp: on_register_def Let_def split: sum.splits prod.splits if_splits)
  let ?s1 = "with_registry (register (ev_now ev) c pem) s"
  let ?s2 = "case dict_get (sv_writers s) c of
      Some old \<Rightarrow> if old \<noteq> w then ?s1\<lparr>sv_closed := set_add old (sv_closed s)\<rparr> else ?s1 | None \<Rightarrow> ?s1"
  let ?s3 = "with_registry (\<lambda>reg. snd (set_online (ev_now ev) c (update_endpoint c peer reg))) ?s2"
  let ?s4 = "?s3\<lparr>sv_writers := dict_set c w (sv_writers s)\<rparr>"
  let ?s5 = "?s4\<lparr>sv_authenticated := dict_set c False (sv_authenticated s)\<rparr>"
  have 1: "acts None s ?s1" using assms(1)
    by (intro acts_registry) (auto simp: core_registry_wf networks_for_frame dict_has_register)
  have 2: "acts None ?s1 ?s2" using acts_core [OF 1]
    by (auto split: option.splits intro: acts_closed acts_refl)
  have 3: "acts None ?s2 ?s3" using acts_core [OF 2]
    by (intro acts_registry) (auto simp: core_registry_wf networks_for_frame)
  have "int (length (dict_set c w (sv_writers s))) \<le> sv_max_clients s"
    using v(2) assms(1) by (auto simp: length_dict_set dict_has_iff core_inv_def)
  moreover have "sv_max_clients ?s3 = sv_max_clients s" by (simp split: option.splits)
  ultimately have 4: "acts None ?s3 ?s4" using acts_core [OF 3] assms(1)
    by (intro acts_writers) (auto simp: core_inv_def)
  have 5: "acts None ?s4 ?s5" by (rule acts_authenticated [OF acts_core [OF 4]])
  have "auth_inv (snd (issue (ev_now ev) (ev_nonce ev) c (sv_auth s)))"
    using auth_step_keeps_inv [of "sv_auth s" "Issue (ev_now ev) (ev_nonce ev) c"] assms by (simp add: core_inv_def)
  then have 6: "acts None ?s5 (?s5\<lparr>sv_auth := snd (issue (ev_now ev) (ev_nonce ev) c (sv_auth s))\<rparr>)"
    using acts_core [OF 5] by (rule acts_auth [rotated])
  have "fst (snd (on_register ev w peer msg s)) = ?s5\<lparr>sv_auth := snd (issue (ev_now ev) (ev_nonce ev) c (sv_auth s))\<rparr>"
    using v by (auto simp: on_register_def Let_def issue_def split: option.splits)
  then show ?thesis using acts_trans [OF 1 acts_trans [OF 2 acts_trans [OF 3 acts_trans [OF 4 acts_trans [OF 5 6]]]]]
    by simp
qed

lemma on_auth_acts:
  assumes "core_inv s"
  shows "acts None s (fst (snd (on_auth ev w c msg s)))"
proof -
  have a: "acts None s (s\<lparr>sv_auth := a\<rparr>)" if "verify lib reg now c ch sig (sv_auth s) = (res, a)" for lib reg now ch sig res a
    using that assms verify_keeps_auth_inv [of "sv_auth s" lib reg now c ch sig]
    by (intro acts_auth) (auto simp: core_inv_def)
  have b: "acts None s (s\<lparr>sv_auth := a, sv_authenticated := x\<rparr>)"
    if "verify lib reg now c ch sig (sv_auth s) = (res, a)" for lib reg now ch sig res a x
    using acts_trans [OF a [OF that] acts_authenticated [OF acts_core [OF a [OF that]], of None x]] by simp
  show ?thesis
    by (auto simp: on_auth_def Let_def assms acts_refl split: sum.splits prod.splits intro: a b)
qed

section \<open>Commands\<close>

lemma heartbeat_acts: "core_inv s \<Longrightarrow> acts None s (fst (snd (on_heartbeat ev c w msg s)))"
  unfolding on_heartbeat_def fst_conv snd_conv
  by (rule acts_registry) (auto simp: core_registry_wf networks_for_frame)

lemma create_acts:
  assumes "core_inv s" "dict_has (sv_registry s) c" "\<not> dict_has (nm_networks (sv_networks s)) (ev_uuid ev)"
  shows "acts (Some c) s (fst (snd (on_create_network ev c w msg s)))"
proof -
  have 1: "acts (Some c) s (s\<lparr>sv_networks := m1\<rparr>)"
    if cr: "create bc now (ev_uuid ev) salt name pw c topo None (sv_networks s) = Inr (r, m1)" for bc now salt name pw topo r m1
  proof (rule acts_networks [OF assms(1)])
    note e = create_Inr [OF cr]
    show "nm_inv m1" using create_inv [OF _ cr assms(3,2)] assms(1) by (simp add: core_inv_def)
    show "services_wf m1" using e assms(1) services_wf_cong [of m1 "sv_networks s"] by (simp add: core_inv_def)
    show "dict_has (nm_registry m1) d" if "dict_has (sv_registry s) d" for d
      using that e by (simp add: reg_membership.known_add)
    show "is_member m1 n d = is_member (sv_networks s) n d" if "Some c \<noteq> Some d" for n d
      using that e assms(3) by (auto simp: is_member_def dict_has_def)
  qed
  have 2: "acts (Some c) s (s\<lparr>sv_networks := m2\<rparr>)"
    if "acts (Some c) s (s\<lparr>sv_networks := m1\<rparr>)" "generate_invite_code draws h n m1 = Inr (code, m2)" for draws h n code m1 m2
  proof -
    have f: "nm_registry m2 = nm_registry m1" "nm_networks m2 = nm_networks m1" "nm_services m2 = nm_services m1"
      using generate_invite_code_frame [OF that(2)] by auto
    have "nm_inv m2" using that(1) nm_inv_frame [OF _ f(1,2)] by (simp add: acts_def core_inv_def)
    then show ?thesis using that(1) f services_wf_cong [OF f(3)]
      by (simp add: acts_def core_inv_def is_member_def)
  qed
  show ?thesis
    by (auto simp: on_create_network_def Let_def assms(1) acts_refl split: sum.splits prod.splits intro: 1 2 [OF 1])
qed

lemma add_member_acts:
  assumes "core_inv s" "dict_has (sv_registry s) c" "dict_has (nm_networks (sv_networks s)) n"
  shows "acts (Some c) s (s\<lparr>sv_networks := add_member n c (sv_networks s)\<rparr>)"
proof (rule acts_networks [OF assms(1)])
  show "nm_inv (add_member n c (sv_networks s))" using assms by (intro add_member_inv) (auto simp: core_inv_def)
  show "services_wf (add_member n c (sv_networks s))"
    using assms(1) by (simp add: core_inv_def add_member_def services_wf_def)
  show "is_member (add_member n c (sv_networks s)) k d = is_member (sv_networks s) k d" if "Some c \<noteq> Some d" for k d
    using that by (auto simp: is_member_def add_member_def split: option.splits)
qed (simp add: add_member_def reg_membership.known_add)

lemma join_acts:
  assumes "core_inv s" "dict_has (sv_registry s) c"
  shows "acts (Some c) s (fst (snd (on_join_network ev c w msg s)))"
proof -
  have j: "acts (Some c) s (s\<lparr>sv_networks := m\<rparr>)"
    if "join_net bc n c pw (sv_networks s) = (ok, m)" for bc n pw ok m
    using that assms
    by (auto simp: join_net_def acts_refl dict_has_def [of "nm_networks (sv_networks s)"] split: option.splits if_splits
        intro!: add_member_acts)
  have i: "acts (Some c) s (s\<lparr>sv_networks := m\<rparr>)"
    if "join_by_invite_code bc n c pw (sv_networks s) = (ok, m)" for bc n pw ok m
    using that assms
    by (auto simp: join_by_invite_code_def Let_def acts_refl dict_has_def [of "nm_networks (sv_networks s)"]
        split: option.splits if_splits intro!: add_member_acts)
  show ?thesis
    by (auto simp: on_join_network_def Let_def assms(1) acts_refl split: sum.splits prod.splits option.splits bool.splits
        intro: i j)
qed

lemma leave_acts:
  assumes "core_inv s"
  shows "acts (Some c) s (fst (snd (on_leave_network c w msg s)))"
proof -
  have l: "acts (Some c) s (s\<lparr>sv_networks := m\<rparr>)" if "leave n c (sv_networks s) = (ok, m)" for n ok m
  proof (rule acts_networks [OF assms])
    show "nm_inv m" using that assms leave_inv [of "sv_networks s" n c] by (simp add: core_inv_def)
    show "services_wf m" using that assms services_wf_cong [of m "sv_networks s"]
      by (auto simp: core_inv_def leave_def split: option.splits if_splits)
    show "dict_has (nm_registry m) d" if "dict_has (sv_registry s) d" for d
      using that \<open>leave n c (sv_networks s) = (ok, m)\<close>
      by (auto simp: leave_def reg_membership.known_remove split: option.splits if_splits)
    show "is_member m k d = is_member (sv_networks s) k d" if "Some c \<noteq> Some d" for k d
      using that \<open>leave n c (sv_networks s) = (ok, m)\<close>
      by (auto simp: leave_def is_member_def drop_member_def split: option.splits if_splits)
  qed
  show ?thesis
    by (auto simp: on_leave_network_def Let_def assms acts_refl split: sum.splits prod.splits bool.splits intro: l)
qed

lemma expose_acts:
  assumes "core_inv s"
  shows "acts None s (fst (snd (on_expose_service ev c w msg s)))"
proof -
  have e: "acts None s (s\<lparr>sv_networks := m\<rparr>)"
    if ex: "expose_service now u n c name pr h po (sv_networks s) = Inr (sid, m)" for now u n name pr h po sid m
  proof (rule acts_networks [OF assms])
    have f: "nm_registry m = sv_registry s" "nm_networks m = nm_networks (sv_networks s)"
      using expose_service_frame [OF ex] by auto
    show "nm_inv m" using assms nm_inv_frame [OF _ f] by (simp add: core_inv_def)
    show "services_wf m" using assms expose_service_wf [OF _ ex] by (simp add: core_inv_def)
    show "dict_has (nm_registry m) d" if "dict_has (sv_registry s) d" for d using that f by simp
    show "is_member m k d = is_member (sv_networks s) k d" for k d using f by (simp add: is_member_def)
  qed
  show ?thesis
    by (auto simp: on_expose_service_def assms acts_refl split: sum.splits prod.splits list.splits json.splits intro: e)
qed

lemma unexpose_wf: "services_wf m \<Longrightarrow> services_wf (snd (unexpose_service_owner sid c m))"
  by (auto simp del: map_of_eq_Some_iff simp: unexpose_service_owner_def services_wf_def split: option.splits if_splits)

lemma unexpose_acts:
  assumes "core_inv s"
  shows "acts None s (fst (snd (on_unexpose_service c w msg s)))"
proof -
  have u: "acts None s (s\<lparr>sv_networks := m\<rparr>)"
    if ex: "unexpose_service_owner sid c (sv_networks s) = (res, m)" for sid res m
  proof (rule acts_networks [OF assms])
    have f: "nm_registry m = sv_registry s" "nm_networks m = nm_networks (sv_networks s)"
      using unexpose_service_owner_frame [of sid c "sv_networks s"] ex by auto
    show "nm_inv m" using assms nm_inv_frame [OF _ f] by (simp add: core_inv_def)
    show "services_wf m" using assms unexpose_wf [of "sv_networks s" sid c] ex by (simp add: core_inv_def)
    show "dict_has (nm_registry m) d" if "dict_has (sv_registry s) d" for d using that f by simp
    show "is_member m k d = is_member (sv_networks s) k d" for k d using f by (simp add: is_member_def)
  qed
  show ?thesis
    by (auto simp: on_unexpose_service_def Let_def assms acts_refl split: sum.splits prod.splits option.splits intro: u)
qed

lemma relay_request_acts:
  assumes "core_inv s"
  shows "acts None s (fst (snd (on_relay_request c w msg s)))"
  using assms register_inv
  by (auto simp: on_relay_request_def handle_relay_request_def acts_refl core_inv_def
      split: sum.splits prod.splits option.splits intro!: acts_relay)

lemma handler_acts:
  assumes "core_inv s" "dict_has (sv_registry s) c" "\<not> dict_has (nm_networks (sv_networks s)) (ev_uuid ev)"
  shows "acts (Some c) s (fst (snd (handler ev c w msg s)))"
proof -
  have l: "fst (snd (on_list_networks ev c w s)) = s" by (simp add: on_list_networks_def)
  have r: "fst (snd (on_request_peer_conn c w msg s)) = s"
    by (auto simp: on_request_peer_conn_def split: sum.splits option.splits list.splits)
  show ?thesis unfolding handler_def
    by (simp add: l r acts_refl assms create_acts join_acts leave_acts acts_weaken [OF heartbeat_acts]
        acts_weaken [OF expose_acts] acts_weaken [OF unexpose_acts] acts_weaken [OF relay_request_acts])
qed

lemma dispatch_state: "fst (snd (dispatch ev c w msg s)) = fst (snd (handler ev c w msg s))"
  by (auto simp: dispatch_def split: prod.splits option.splits failure.splits)

lemma deliver_acts: "core_inv s \<Longrightarrow> acts None s (snd (deliver_relayed c w s))"
proof (cases "sv_relay s")
  case (Some rl)
  assume "core_inv s"
  moreover have "relay_inv (snd (pending_frames c rl))" using Some \<open>core_inv s\<close> by (simp add: core_inv_def drain_inv)
  ultimately show ?thesis using Some by (auto simp: deliver_relayed_def split: prod.splits intro: acts_relay)
qed (simp add: deliver_relayed_def acts_refl)

section \<open>Steps of the server\<close>

definition leads :: "string option \<Rightarrow> server \<Rightarrow> server \<Rightarrow> bool" where
  "leads a s s' \<longleftrightarrow> server_inv s' \<and> sv_max_clients s' = sv_max_clients s
     \<and> (\<forall>n d. a \<noteq> Some d \<longrightarrow> is_member (sv_networks s') n d = is_member (sv_networks s) n d)"

lemma leads_trans: "leads a s s' \<Longrightarrow> leads a s' s'' \<Longrightarrow> leads a s s''"
  by (simp add: leads_def)

lemma leads_refl: "server_inv s \<Longrightarrow> leads a s s"
  by (simp add: leads_def)

lemma leads_weaken: "leads None s s' \<Longrightarrow> leads a s s'"
  by (simp add: leads_def)

lemma conn_ok_mono: "conn_ok reg cn \<Longrightarrow> (\<And>c. dict_has reg c \<Longrightarrow> dict_has reg' c) \<Longrightarrow> conn_ok reg' cn"
  by (auto simp: conn_ok_def)

lemma leads_acts: "server_inv s \<Longrightarrow> acts a s s' \<Longrightarrow> leads a s s'"
  unfolding leads_def acts_def server_inv_def by (metis conn_ok_mono)

lemma leads_set_conn:
  assumes "server_inv s" "conn_ok (sv_registry s) cn"
  shows "leads a s (set_conn w cn s)"
  using assms by (auto simp del: map_of_eq_Some_iff simp: leads_def server_inv_def set_conn_def core_inv_def split: if_splits)

lemma leads_del_conn:
  assumes "server_inv s"
  shows "leads a s (s\<lparr>sv_conns := dict_del w (sv_conns s)\<rparr>)"
  using assms by (auto simp del: map_of_eq_Some_iff simp: leads_def server_inv_def core_inv_def split: if_splits)

lemma server_inv_core: "server_inv s \<Longrightarrow> core_inv s"
  by (simp add: server_inv_def)

lemma leads_inv: "leads a s s' \<Longrightarrow> server_inv s'"
  by (simp add: leads_def)

lemma disconnect_leads: "server_inv s \<Longrightarrow> leads a s (snd (handle_disconnect c s))"
  by (rule leads_weaken) (blast intro: leads_acts disconnect_acts server_inv_core)

lemma finish_leads:
  assumes "server_inv s"
  shows "leads a s (snd (finish w cn s))"
proof -
  let ?s0 = "s\<lparr>sv_conns := dict_del w (sv_conns s)\<rparr>"
  have 0: "leads a s ?s0" by (rule leads_del_conn [OF assms])
  have 1: "leads a s (snd (handle_disconnect c ?s0))" for c
    by (rule leads_trans [OF 0 disconnect_leads [OF leads_inv [OF 0]]])
  have 2: "leads a s (s'\<lparr>sv_closed := x\<rparr>)" if "leads a s s'" for s' x
    using that leads_acts [OF leads_inv acts_closed [OF server_inv_core [OF leads_inv]]] leads_trans by blast
  define s' where "s' = (case cn_client_id cn of
      Some c \<Rightarrow> if c \<noteq> [] \<and> cn_authenticated cn then snd (handle_disconnect c ?s0) else ?s0 | None \<Rightarrow> ?s0)"
  have "leads a s s'" unfolding s'_def using 0 1 by (auto split: option.splits)
  moreover have "snd (finish w cn s) = s' \<or> snd (finish w cn s) = s'\<lparr>sv_closed := set_add w (sv_closed s')\<rparr>"
    by (cases "cn_client_id cn") (auto simp: s'_def finish_def Let_def split: prod.splits)
  ultimately show ?thesis using 2 [of s'] by auto
qed

lemma then_finish_leads: "leads a s s' \<Longrightarrow> leads a s (snd (finish w cn s'))"
  by (blast intro: leads_trans finish_leads leads_inv)

lemma conn_reject_leads: "server_inv s \<Longrightarrow> leads a s (snd (conn_reject w cn code text s))"
  by (auto simp: conn_reject_def leads_refl split: prod.splits option.splits dest: finish_leads [where w = w and cn = cn and a = a])

lemma register_some:
  assumes "snd (snd (on_register ev w peer msg s)) = Some c"
  shows "dict_has (sv_registry (fst (snd (on_register ev w peer msg s)))) c \<and> c \<noteq> []"
proof -
  obtain pem where v: "validate_register (m_payload msg) = Inr (c, pem)"
    using assms by (auto simp: on_register_def Let_def split: sum.splits prod.splits if_splits)
  then have "ID_RE c" by (auto simp: validate_register_def split: sum.splits if_splits)
  then have "c \<noteq> []" by (auto simp: ID_RE_def chomp_def)
  then show ?thesis using assms v
    by (auto simp: on_register_def Let_def dict_has_register split: prod.splits if_splits option.splits)
qed

lemma conn_register_leads:
  assumes "server_inv s" "conn_ok (sv_registry s) cn" "\<not> cn_registered cn" "length (ev_nonce ev) = CHALLENGE_LENGTH"
  shows "leads a s (snd (conn_register ev w cn msg s))"
proof -
  obtain ss s' c where r: "on_register ev w (cn_peer cn) msg s = (ss, s', c)" by (metis prod.exhaust)
  have l: "leads a s s'"
    using leads_weaken [OF leads_acts [OF assms(1) register_acts [OF server_inv_core [OF assms(1)] assms(4)]]] r
    by (metis fst_conv snd_conv)
  have "conn_ok (sv_registry s') (cn\<lparr>cn_client_id := c, cn_registered := (c \<noteq> None)\<rparr>)"
    using register_some [of ev w "cn_peer cn" msg s] r assms(2,3) by (auto simp: conn_ok_def)
  then have "leads a s (set_conn w (cn\<lparr>cn_client_id := c, cn_registered := (c \<noteq> None)\<rparr>) s')"
    by (blast intro: leads_trans [OF l] leads_set_conn leads_inv [OF l])
  then show ?thesis using then_finish_leads [OF l, of w cn]
    by (auto simp: conn_register_def r split: prod.splits option.splits)
qed

lemma conn_auth_leads:
  assumes "server_inv s" "conn_ok (sv_registry s) cn" "cn_registered cn"
  shows "leads a s (snd (conn_auth ev w cn c msg s))"
proof -
  obtain ss s' res where r: "on_auth ev w c msg s = (ss, s', res)" by (metis prod.exhaust)
  have ac: "acts None s s'" using on_auth_acts [OF server_inv_core [OF assms(1)], of ev w c msg] r by simp
  have l: "leads a s s'" by (rule leads_weaken [OF leads_acts [OF assms(1) ac]])
  have "conn_ok (sv_registry s') (cn\<lparr>cn_authenticated := ok\<rparr>)" for ok
    using assms(2,3) ac by (auto simp: conn_ok_def acts_def)
  then have "leads a s (set_conn w (cn\<lparr>cn_authenticated := ok\<rparr>) s')" for ok
    by (blast intro: leads_trans [OF l] leads_set_conn leads_inv [OF l])
  then show ?thesis using then_finish_leads [OF l]
    by (auto simp: conn_auth_def r Let_def split: prod.splits option.splits sum.splits if_splits)
      (metis snd_conv)+
qed

lemma conn_command_tail:
  assumes "server_inv (fst (snd (dispatch ev c w msg s)))"
  shows "leads None (fst (snd (dispatch ev c w msg s))) (snd (conn_command ev w cn c msg s))"
proof -
  obtain os s' e where d: "dispatch ev c w msg s = (os, s', e)" by (metis prod.exhaust)
  have inv: "server_inv s'" using assms d by simp
  obtain ss s'' where v: "deliver_relayed c w s' = (ss, s'')" by (metis prod.exhaust)
  have l: "leads None s' s''"
    using leads_acts [OF inv deliver_acts [OF server_inv_core [OF inv], of c w]] v by simp
  show ?thesis using l then_finish_leads [OF leads_refl [OF inv], of None w cn] then_finish_leads [OF l, of w cn]
    by (auto simp: conn_command_def d v split: prod.splits option.splits)
qed

lemma dispatch_leads:
  assumes "server_inv s" "dict_has (sv_registry s) c" "\<not> dict_has (nm_networks (sv_networks s)) (ev_uuid ev)"
  shows "leads (Some c) s (fst (snd (dispatch ev c w msg s)))"
  using leads_acts [OF assms(1) handler_acts [OF server_inv_core [OF assms(1)] assms(2,3), of w msg]]
    dispatch_state [of ev c w msg s] by simp

lemma conn_command_leads:
  assumes "server_inv s" "dict_has (sv_registry s) c" "\<not> dict_has (nm_networks (sv_networks s)) (ev_uuid ev)"
  shows "leads (Some c) s (snd (conn_command ev w cn c msg s))"
  using dispatch_leads [OF assms] conn_command_tail leads_trans leads_weaken leads_inv by metis

definition actor :: "server \<Rightarrow> 'k event \<Rightarrow> string option" where
  "actor s e =
     (case e of
        Receive ev w data \<Rightarrow>
          (case dict_get (sv_conns s) w of
             Some cn \<Rightarrow> if cn_authenticated cn then cn_client_id cn else None
           | None \<Rightarrow> None)
      | _ \<Rightarrow> None)"

text \<open>What the environment guarantees: \<^verbatim>\<open>os.urandom\<close> returns as many bytes as asked for, and a
  fresh UUID names no existing network.\<close>

primrec server_may :: "server \<Rightarrow> 'k event \<Rightarrow> bool" where
  "server_may s (Connect w peer) = True"
| "server_may s (Receive ev w data) =
     (length (ev_nonce ev) = CHALLENGE_LENGTH \<and> \<not> dict_has (nm_networks (sv_networks s)) (ev_uuid ev))"
| "server_may s (HangUp w) = True"
| "server_may s (Prune now) = True"
| "server_may s (AuthExpiry now) = True"
| "server_may s Shutdown = True"

lemma message_leads:
  assumes "server_inv s" "dict_get (sv_conns s) w = Some cn"
    and "length (ev_nonce ev) = CHALLENGE_LENGTH" "\<not> dict_has (nm_networks (sv_networks s)) (ev_uuid ev)"
  shows "leads (if cn_authenticated cn then cn_client_id cn else None) s (snd (handle_message ev w cn msg s))"
proof -
  have ok: "conn_ok (sv_registry s) cn" using assms(1,2) by (simp add: server_inv_def)
  show ?thesis
  proof (cases "cn_client_id cn")
    case None
    then have "\<not> cn_registered cn" "\<not> cn_authenticated cn" using ok by (auto simp: conn_ok_def)
    then show ?thesis using None conn_register_leads [OF assms(1) ok _ assms(3)] conn_reject_leads [OF assms(1)]
      by (simp add: handle_message_def)
  next
    case (Some c)
    then have r: "cn_registered cn" "dict_has (sv_registry s) c" using ok by (auto simp: conn_ok_def)
    show ?thesis
      using Some r conn_reject_leads [OF assms(1)] conn_auth_leads [OF assms(1) ok r(1), where ev = ev]
        conn_command_leads [OF assms(1) r(2) assms(4)]
      by (simp add: handle_message_def)
  qed
qed

lemma disconnect_all_leads: "server_inv s \<Longrightarrow> leads None s (snd (disconnect_all cs s))"
proof (induction cs arbitrary: s)
  case (Cons c cs)
  let ?s = "snd (handle_disconnect c s)"
  have l: "leads None s ?s" by (rule disconnect_leads [OF Cons.prems])
  have "leads None ?s (?s\<lparr>sv_prune_alive := False\<rparr>)"
    by (rule leads_acts [OF leads_inv [OF l] acts_prune_alive [OF server_inv_core [OF leads_inv [OF l]]]])
  then show ?case using leads_trans [OF l] Cons.IH [OF leads_inv [OF l]]
    by (auto split: prod.splits option.splits)
qed (simp add: leads_refl)

lemma prune_leads:
  assumes "server_inv s"
  shows "leads None s (snd (prune_tick now s))"
proof (cases "sv_prune_alive s")
  case True
  obtain stale reg where p: "prune_stale now (of_int (sv_heartbeat_timeout s)) (sv_registry s) = (stale, reg)"
    by (metis prod.exhaust)
  have "acts None s (with_registry (\<lambda>_. reg) s)"
    using server_inv_core [OF assms] p wf_prune_stale [OF core_registry_wf [OF server_inv_core [OF assms]]]
      networks_for_prune_stale [of now _ "sv_registry s"] dict_has_registry_ops(5) [of now _ "sv_registry s"]
    by (intro acts_registry) (metis snd_conv)+
  then have l: "leads None s (with_registry (\<lambda>_. reg) s)" by (rule leads_acts [OF assms])
  show ?thesis using leads_trans [OF l disconnect_all_leads [OF leads_inv [OF l]]] True p
    by (simp add: prune_tick_def)
qed (simp add: prune_tick_def leads_refl [OF assms])

lemma shutdown_leads:
  assumes "server_inv s"
  shows "leads None s (shutdown s)"
  using assms by (auto simp: leads_def server_inv_def core_inv_def shutdown_def)

lemma expiry_leads:
  assumes "server_inv s"
  shows "leads None s (auth_expiry_tick now s)"
proof -
  have "auth_inv (snd (expire_stale now (sv_auth s)))"
    using auth_step_keeps_inv [of "sv_auth s" "Expire now"] server_inv_core [OF assms] by (simp add: core_inv_def)
  then show ?thesis using leads_acts [OF assms acts_auth [OF server_inv_core [OF assms]]] leads_refl [OF assms]
    by (simp add: auth_expiry_tick_def)
qed

lemma step_leads:
  assumes "server_inv s" "server_may s e"
  shows "leads (actor s e) s (snd (server_step s e))"
proof (cases e)
  case (Receive ev w data)
  show ?thesis
  proof (cases "dict_get (sv_conns s) w")
    case (Some cn)
    then have "leads (if cn_authenticated cn then cn_client_id cn else None) s (snd (handle_message ev w cn msg s))" for msg
      using assms Receive by (intro message_leads) auto
    then show ?thesis using Some Receive finish_leads [OF assms(1), where w = w and cn = cn]
      by (cases "cn_authenticated cn") (simp_all add: actor_def handle_data_def split: sum.split)
  qed (use Receive assms in \<open>simp add: actor_def leads_refl\<close>)
next
  case (Connect w peer)
  have "conn_ok (sv_registry s) \<lparr>cn_peer = peer, cn_client_id = None, cn_registered = False, cn_authenticated = False\<rparr>"
    by (simp add: conn_ok_def)
  then show ?thesis using Connect assms(1) leads_set_conn by (auto simp: leads_refl)
qed (use assms prune_leads shutdown_leads expiry_leads finish_leads leads_refl
     in \<open>auto simp: actor_def split: option.splits\<close>)

interpretation server_run: guarded_machine "\<lambda>s e. snd (server_step s e)" server_may server_inv
  by unfold_locales (rule leads_inv [OF step_leads])

lemma server_inv_init:
  assumes "max_clients \<ge> 0" "max_attempts > 0"
  shows "server_inv (server_init max_clients hb ttl max_attempts)"
proof -
  have "nm_inv (nm_init registry_init)" by (rule nm_inv_init) (simp, simp add: registry_init_def networks_for_def)
  moreover have "services_wf (nm_init registry_init)" by (simp add: services_wf_def nm_init_def)
  ultimately show ?thesis
    using assms by (simp add: server_inv_def core_inv_def server_init_def auth_inv_init relay_inv_init)
qed

section \<open>How a connection becomes authenticated\<close>

lemma conns_disconnect [simp]: "sv_conns (snd (handle_disconnect c s)) = sv_conns s"
  by (simp add: handle_disconnect_def Let_def)

lemma conns_disconnectD: "handle_disconnect c s = (ss, s') \<Longrightarrow> sv_conns s' = sv_conns s"
  using conns_disconnect [of c s] by simp

lemma conns_finish [simp]: "sv_conns (snd (finish w cn s)) = dict_del w (sv_conns s)"
  by (cases "cn_client_id cn") (auto simp: finish_def Let_def dest: conns_disconnectD split: prod.splits)

lemma conns_finishD: "finish w cn s = (os, s') \<Longrightarrow> sv_conns s' = dict_del w (sv_conns s)"
  using conns_finish [of w cn s] by simp

lemma conns_disconnect_all [simp]: "sv_conns (snd (disconnect_all cs s)) = sv_conns s"
proof (induction cs arbitrary: s)
  case (Cons c cs)
  obtain ss s' where h: "handle_disconnect c s = (ss, s')" by (metis prod.exhaust)
  show ?case using Cons [of s'] by (auto simp: h conns_disconnectD [OF h] split: prod.splits option.splits)
qed simp

lemma conns_shape:
  assumes "server_inv s" "conn_ok (sv_registry s) cn" "length (ev_nonce ev) = CHALLENGE_LENGTH"
    and "\<not> dict_has (nm_networks (sv_networks s)) (ev_uuid ev)"
    and "dict_get (sv_conns (snd (handle_message ev w cn msg s))) v = Some cn'" "cn_authenticated cn'"
  shows "dict_get (sv_conns s) v = Some cn' \<or>
    (v = w \<and> m_type msg = ''AUTH_RESPONSE'' \<and> \<not> cn_authenticated cn
     \<and> (\<exists>c ss s' detail. cn_client_id cn = Some c \<and> on_auth ev w c msg s = (ss, s', Inr (True, detail))
          \<and> cn' = cn\<lparr>cn_authenticated := True\<rparr>))"
proof (cases "cn_client_id cn")
  case None
  obtain ss s' c where r: "on_register ev w (cn_peer cn) msg s = (ss, s', c)" by (metis prod.exhaust)
  have same: "sv_conns s' = sv_conns s"
    using register_acts [OF server_inv_core [OF assms(1)] assms(3), of w "cn_peer cn" msg] r by (simp add: acts_def)
  have na: "\<not> cn_registered cn" "\<not> cn_authenticated cn" using None assms(2) by (auto simp: conn_ok_def)
  then have "dict_get (sv_conns s) v = Some cn'"
    using assms(5,6)
    by (auto simp del: map_of_eq_Some_iff simp: handle_message_def conn_reject_def conn_register_def r same set_conn_def
        split: if_splits prod.splits option.splits dest!: conns_finishD)
  then show ?thesis ..
next
  case (Some c)
  then have reg: "cn_registered cn" "dict_has (sv_registry s) c" using assms(2) by (auto simp: conn_ok_def)
  show ?thesis
  proof (cases "cn_authenticated cn")
    case True
    obtain os s' e where d: "dispatch ev c w msg s = (os, s', e)" by (metis prod.exhaust)
    have ac: "acts (Some c) s s'"
      using handler_acts [OF server_inv_core [OF assms(1)] reg(2) assms(4), of w msg] dispatch_state [of ev c w msg s] d by simp
    obtain ss s'' where r: "deliver_relayed c w s' = (ss, s'')" by (metis prod.exhaust)
    have same: "sv_conns s' = sv_conns s" "sv_conns s'' = sv_conns s"
      using ac deliver_acts [OF acts_core [OF ac], of c w] r by (simp_all add: acts_def)
    have "dict_get (sv_conns s) v = Some cn'"
      using assms(5) Some reg(1) True
      by (auto simp del: map_of_eq_Some_iff simp: handle_message_def conn_command_def d r same split: if_splits prod.splits option.splits dest!: conns_finishD)
    then show ?thesis ..
  next
    case False
    obtain ss s' res where r: "on_auth ev w c msg s = (ss, s', res)" by (metis prod.exhaust)
    have same: "sv_conns s' = sv_conns s"
      using on_auth_acts [OF server_inv_core [OF assms(1)], of ev w c msg] r by (simp add: acts_def)
    show ?thesis
      using assms(5,6) Some reg(1) False
      by (auto simp del: map_of_eq_Some_iff simp: handle_message_def conn_reject_def conn_auth_def r same set_conn_def Let_def
          split: if_splits prod.splits option.splits sum.splits dest!: conns_finishD)
  qed
qed

end
