(* ===== verification/Server_Properties.thy ===== *)
theory Server_Properties
  imports Server_Invariant
begin

text \<open>
  The properties of the mediation server over its steps and runs: safety of every run, isolation
  of memberships, authentication by proof of possession, and what peers are told when a client
  disappears; each with a concrete server on which it applies.
\<close>

section \<open>Received messages\<close>

lemma handle_data_wire:
  assumes "message_ok msg"
  shows "handle_data ev w cn (wire_of msg) s = handle_message ev w cn msg s"
  using wire_prefix [OF assms, of "[]"] deserialize_wire [OF assms, of "[]"] assms
  by (simp add: handle_data_def length_wire_of message_ok_def)

section \<open>Properties\<close>

text \<open>C2: in every run of the server, whatever clients connect, send and hang up in whatever order:
  the two membership tables agree, every member of a network is a registered client, the number of
  writers never exceeds \<^verbatim>\<open>max_clients\<close>, the relay queues and the pending challenges respect
  their bounds, and a connection that counts as authenticated has registered as a known client.\<close>

theorem server_runs_safe:
  assumes "max_clients \<ge> 0" and "max_attempts > 0"
    and "\<forall>i < length es. server_may (foldl (\<lambda>s e. snd (server_step s e)) (server_init max_clients hb ttl max_attempts) (take i es)) (es ! i)"
    and "s = foldl (\<lambda>s e. snd (server_step s e)) (server_init max_clients hb ttl max_attempts) es"
  shows "(\<forall>c n. n \<in> set (networks_for (sv_registry s) c) \<longleftrightarrow> is_member (sv_networks s) n c)
    \<and> (\<forall>c n. is_member (sv_networks s) n c \<longrightarrow> registry_has (sv_registry s) c)
    \<and> int (length (sv_writers s)) \<le> max_clients
    \<and> (\<forall>r d q. sv_relay s = Some r \<longrightarrow> dict_get (rl_queues r) d = Some q \<longrightarrow> length q \<le> MAX_RELAY_QUEUE)
    \<and> (\<forall>c p. dict_get (auth_pending (sv_auth s)) c = Some p \<longrightarrow> pa_attempts p < auth_max_attempts (sv_auth s))
    \<and> (\<forall>w cn. dict_get (sv_conns s) w = Some cn \<longrightarrow> cn_authenticated cn \<longrightarrow>
          (\<exists>c. cn_client_id cn = Some c \<and> registry_has (sv_registry s) c))"
proof -
  let ?s0 = "server_init max_clients hb ttl max_attempts"
  have inv: "server_inv s" unfolding assms(4)
    by (rule server_run.guarded_run [OF server_inv_init [OF assms(1,2)]])
      (use assms(3) in \<open>simp add: server_run.run_ok_iff\<close>)
  have "sv_max_clients (foldl (\<lambda>s e. snd (server_step s e)) ?s0 (take i es)) = max_clients" if "i \<le> length es" for i
    using that
  proof (induction i)
    case (Suc i)
    let ?s = "foldl (\<lambda>s e. snd (server_step s e)) ?s0 (take i es)"
    have "server_inv ?s"
      by (rule server_run.guarded_run_prefix [OF server_inv_init [OF assms(1,2)], where fs = "drop i es"])
        (use assms(3) in \<open>simp add: server_run.run_ok_iff\<close>)
    then have "leads (actor ?s (es ! i)) ?s (snd (server_step ?s (es ! i)))"
      using assms(3) Suc.prems by (intro step_leads) auto
    then show ?case using Suc by (simp add: leads_def take_Suc_conv_app_nth)
  qed (simp add: server_init_def)
  from this [of "length es"] have mx: "sv_max_clients s = max_clients" using assms(4) by simp
  have core: "core_inv s" by (rule server_inv_core [OF inv])
  have "n \<in> set (networks_for (sv_registry s) c) \<longleftrightarrow> is_member (sv_networks s) n c" for c n
    using core nm_invD(4) [of "sv_networks s" c n] by (simp add: core_inv_def in_network_def)
  moreover have "is_member (sv_networks s) n c \<Longrightarrow> registry_has (sv_registry s) c" for c n
    using core member_known [of "sv_networks s" n c] by (simp add: core_inv_def registry_has_def)
  moreover have "\<exists>c. cn_client_id cn = Some c \<and> registry_has (sv_registry s) c"
    if "dict_get (sv_conns s) w = Some cn" "cn_authenticated cn" for w cn
  proof -
    have "conn_ok (sv_registry s) cn" using that(1) inv by (simp add: server_inv_def)
    then show ?thesis using that(2) by (auto simp: conn_ok_def registry_has_def)
  qed
  ultimately show ?thesis using core mx relay_invD(4) auth_invD(4) unfolding core_inv_def by blast
qed

text \<open>C3: nobody can act for somebody else: a step of the server changes the membership of a client
  only when it processes data received on a connection that has authenticated as that client.
  Registration, failed authentication, other clients' commands, disconnects, pruning, expiry and
  shutdown change no membership at all.\<close>

theorem membership_isolation:
  assumes "server_inv s" and "server_may s e"
    and "is_member (sv_networks (snd (server_step s e))) n c \<noteq> is_member (sv_networks s) n c"
  shows "\<exists>ev w data cn. e = Receive ev w data \<and> dict_get (sv_conns s) w = Some cn
    \<and> cn_authenticated cn \<and> cn_client_id cn = Some c"
proof -
  have "actor s e = Some c" using step_leads [OF assms(1,2)] assms(3) by (auto simp: leads_def)
  then show ?thesis by (auto simp: actor_def split: event.splits option.splits if_splits)
qed


section \<open>Disconnects and registration\<close>

lemma member_writers_iff:
  assumes "registry_wf (sv_registry s)"
  shows "(d, w) \<in> set (member_writers s n) \<longleftrightarrow>
    (\<exists>r. registry_get (sv_registry s) d = Some r \<and> online r \<and> n \<in> set (cr_networks r) \<and> dict_get (sv_writers s) d = Some w)"
proof -
  have key: "(r \<in> snd ` set (sv_registry s) \<and> cr_client_id r = d) \<longleftrightarrow> registry_get (sv_registry s) d = Some r" for r
  proof
    assume "r \<in> snd ` set (sv_registry s) \<and> cr_client_id r = d"
    then have "(d, r) \<in> set (sv_registry s)" using assms by (auto simp: registry_wf_def)
    then show "registry_get (sv_registry s) d = Some r" using assms by (simp add: registry_wf_def registry_get_def)
  next
    assume "registry_get (sv_registry s) d = Some r"
    then have "(d, r) \<in> set (sv_registry s)" by (simp add: registry_get_def map_of_SomeD)
    then show "r \<in> snd ` set (sv_registry s) \<and> cr_client_id r = d"
      using assms by (force simp: registry_wf_def)
  qed
  have "(d, w) \<in> set (member_writers s n) \<longleftrightarrow>
      (\<exists>r. r \<in> snd ` set (sv_registry s) \<and> online r \<and> n \<in> set (cr_networks r) \<and> cr_client_id r = d \<and> dict_get (sv_writers s) d = Some w)"
    by (auto simp: member_writers_def List.map_filter_def members_in_networks_def image_iff)
  then show ?thesis using key by blast
qed

lemma in_network_record:
  "registry_get reg d = Some r \<Longrightarrow> n \<in> set (cr_networks r) \<longleftrightarrow> in_network reg d n"
  by (simp add: in_network_def networks_for_def registry_get_def)

text \<open>C21: when a client disappears, exactly the right peers are told: the notices sent are PEER_OFFLINE
  for each network of the client to each other online member of that network that has a connection;
  afterwards the client is offline with no endpoint, has no writer and no relay path or queue, and
  no membership has changed.\<close>

theorem disconnect_notifies_peers:
  assumes "nm_inv (sv_networks s)" and "handle_disconnect c s = (ss, s')"
  shows "(\<forall>w m. (w, m) \<in> set ss \<longleftrightarrow>
            (\<exists>n d r. m = make_message PeerOffline [(''network_id'', JStr n), (''peer_id'', JStr c)]
               \<and> d \<noteq> c \<and> is_member (sv_networks s) n c \<and> is_member (sv_networks s) n d
               \<and> registry_get (sv_registry s) d = Some r \<and> online r \<and> dict_get (sv_writers s) d = Some w))
    \<and> (\<forall>r. registry_get (sv_registry s') c = Some r \<longrightarrow> \<not> online r \<and> public_endpoint r = None)
    \<and> dict_get (sv_writers s') c = None
    \<and> (\<forall>rl. sv_relay s' = Some rl \<longrightarrow> dict_get (rl_queues rl) c = None \<and> (\<forall>d. \<not> has_path rl c d \<and> \<not> has_path rl d c))
    \<and> (\<forall>n d. is_member (sv_networks s') n d \<longleftrightarrow> is_member (sv_networks s) n d)"
proof -
  have reg: "sv_registry s' = unregister c (sv_registry s)" and wr: "sv_writers s' = dict_del c (sv_writers s)"
    and nets: "nm_networks (sv_networks s') = nm_networks (sv_networks s)"
    and rel: "sv_relay s' = map_option (drop_client c) (sv_relay s)"
    and ss: "ss = concat (map (\<lambda>n. announce_peer_offline c n s') (networks_for (sv_registry s) c))"
    using assms(2) by (auto simp: handle_disconnect_def Let_def)
  have wf: "registry_wf (sv_registry s')" using nm_invD(1) [OF assms(1)] reg by simp
  have mw: "(d, w) \<in> set (member_writers s' n) \<longleftrightarrow> (\<exists>r. registry_get (sv_registry s) d = Some r \<and> online r
      \<and> is_member (sv_networks s) n d \<and> dict_get (sv_writers s) d = Some w)" if "d \<noteq> c" for d w n
    unfolding member_writers_iff [OF wf] using that nm_invD(4) [OF assms(1), of d n]
    by (auto simp: reg wr registry_get_def unregister_def in_network_def networks_for_def)
  have nc: "n \<in> set (networks_for (sv_registry s) c) \<longleftrightarrow> is_member (sv_networks s) n c" for n
    using nm_invD(4) [OF assms(1), of c n] by (simp add: in_network_def)
  have mem: "(w, m) \<in> set ss \<longleftrightarrow> (\<exists>n d. n \<in> set (networks_for (sv_registry s) c) \<and> d \<noteq> c \<and> (d, w) \<in> set (member_writers s' n)
      \<and> m = make_message PeerOffline [(''network_id'', JStr n), (''peer_id'', JStr c)])" for w m
    by (auto simp: ss announce_peer_offline_def image_iff)
  have "(w, m) \<in> set ss \<longleftrightarrow>
            (\<exists>n d r. m = make_message PeerOffline [(''network_id'', JStr n), (''peer_id'', JStr c)]
               \<and> d \<noteq> c \<and> is_member (sv_networks s) n c \<and> is_member (sv_networks s) n d
               \<and> registry_get (sv_registry s) d = Some r \<and> online r \<and> dict_get (sv_writers s) d = Some w)" for w m
    unfolding mem nc by (intro iffI; elim exE conjE) (use mw in blast)+
  moreover have "is_member (sv_networks s') n d \<longleftrightarrow> is_member (sv_networks s) n d" for n d
    by (simp add: is_member_def nets)
  moreover have "registry_get (sv_registry s') c = Some r \<Longrightarrow> \<not> online r \<and> public_endpoint r = None" for r
    by (auto simp: reg registry_get_def unregister_def)
  ultimately show ?thesis by (auto simp: wr rel drop_queue drop_path)
qed

text \<open>Registration needs no proof of possession: any fresh connection whose REGISTER for a client
  that is already connected passes validation replaces that client's public key, endpoint and
  connection and closes the old one, before the newcomer has answered any challenge.\<close>

theorem register_takes_over:
  assumes "validate_register (m_payload msg) = Inr (c, pem)" and "dict_get (sv_writers s) c = Some old" and "old \<noteq> w"
    and "registry_get (sv_registry s) c = Some r" and "\<not> banned r"
    and "on_register ev w peer msg s = (ss, s', res)"
  shows "res = Some c \<and> old \<in> set (sv_closed s') \<and> dict_get (sv_writers s') c = Some w
    \<and> (\<exists>r'. registry_get (sv_registry s') c = Some r' \<and> public_key_pem r' = pem \<and> public_endpoint r' = Some peer)
    \<and> dict_get (sv_authenticated s') c = Some False"
  using assms
  by (auto simp: on_register_def Let_def is_banned_def registry_get_def dict_has_def issue_def register_def
      update_endpoint_def set_online_def split: option.splits)

section \<open>Witnesses\<close>

definition demo_env :: "unit env" where
  "demo_env = \<lparr>ev_now = 20, ev_nonce = auth_demo_nonce, ev_uuid = ''n2'', ev_salt = [], ev_draws = (\<lambda>_. ''code''),
     ev_hex6 = ''000000'', ev_float_repr = (\<lambda>_. ''1.0''), ev_bcrypt = toy_bcrypt, ev_rsa = echo_rsa\<rparr>"

definition demo_server :: "bool \<Rightarrow> server" where
  "demo_server authed = (server_init 10 90 60 5)\<lparr>sv_networks := demo_nm, sv_auth := auth_demo,
     sv_writers := [(''alice'', 1)], sv_authenticated := [(''alice'', authed)],
     sv_conns := [(1, \<lparr>cn_peer = (''10.0.0.1'', 4000), cn_client_id = Some ''alice'', cn_registered = True,
                       cn_authenticated = authed\<rparr>)]\<rparr>"

lemma demo_server_known: "dict_has (sv_registry (demo_server authed)) ''alice''"
  by (simp add: demo_server_def demo_nm_def nm_init_def demo_registry_def register_def registry_init_def dict_has_def
      add_network_def)

lemma demo_server_inv: "server_inv (demo_server authed)"
proof -
  have "services_wf demo_nm" by (simp add: services_wf_def demo_nm_def nm_init_def)
  then show ?thesis using demo_server_known [of authed]
    by (simp add: server_inv_def core_inv_def demo_server_def server_init_def demo_nm_inv auth_demo_inv
        relay_inv_init conn_ok_def)
qed

lemma demo_may: "server_may (demo_server authed) (Receive demo_env w data)"
  by (simp add: demo_env_def demo_server_def server_init_def demo_nm_def nm_init_def auth_demo_nonce_def
      CHALLENGE_LENGTH_def dict_has_def)

theorem server_runs_safe_witness:
  "\<exists>s. s = foldl (\<lambda>s e. snd (server_step s e)) (server_init 1 90 60 5)
            [Connect 1 (''h'', 1), Receive demo_env 1 [0, 0], Connect 2 (''h'', 2), Prune 30, AuthExpiry 40, HangUp 2]
     \<and> int (length (sv_writers s)) \<le> 1"
proof -
  let ?es = "[Connect 1 (''h'', 1), Receive demo_env 1 [0, 0], Connect 2 (''h'', 2), Prune 30, AuthExpiry 40, HangUp 2]"
  have "\<forall>i < length ?es. server_may (foldl (\<lambda>s e. snd (server_step s e)) (server_init 1 90 60 5) (take i ?es)) (?es ! i)"
    by (simp add: all_less_Suc_split server_init_def set_conn_def demo_env_def auth_demo_nonce_def CHALLENGE_LENGTH_def
        nm_init_def dict_has_def)
  from server_runs_safe [OF _ _ this] show ?thesis by auto
qed

definition leave_msg :: message where
  "leave_msg = \<lparr>m_type = ''LEAVE_NETWORK'', m_payload = [(''network_id'', JStr ''n1'')]\<rparr>"

lemma leave_msg_ok: "message_ok leave_msg"
  by (simp add: leave_msg_def message_ok_def text_ok_ascii message_body_def model_defs dump_str_def escape_char_def)

theorem membership_isolation_witness:
  "\<exists>ev w data cn. Receive demo_env 1 (wire_of leave_msg) = Receive ev w data
     \<and> dict_get (sv_conns (demo_server True)) w = Some cn \<and> cn_authenticated cn \<and> cn_client_id cn = Some ''alice''"
proof (rule membership_isolation [OF demo_server_inv demo_may])
  let ?s = "demo_server True"
  obtain cn where cn: "dict_get (sv_conns ?s) 1 = Some cn" "cn_registered cn" "cn_authenticated cn" "cn_client_id cn = Some ''alice''"
    by (simp add: demo_server_def)
  have m: "is_member (sv_networks ?s) ''n1'' ''alice''"
    by (simp add: demo_server_def demo_nm_def demo_net_def is_member_def)
  have "fst (snd (handler demo_env ''alice'' 1 leave_msg ?s)) = ?s\<lparr>sv_networks := snd (leave ''n1'' ''alice'' (sv_networks ?s))\<rparr>"
    by (auto simp: handler_def leave_msg_def on_leave_network_def validate_network_id_def require_def py_str_def Let_def
        split: prod.splits bool.splits)
  moreover have "\<not> is_member (snd (leave ''n1'' ''alice'' (sv_networks ?s))) ''n1'' ''alice''"
    using m by (auto simp: leave_def is_member_def drop_member_def split: option.splits)
  ultimately have d: "\<not> is_member (sv_networks (fst (snd (dispatch demo_env ''alice'' 1 leave_msg ?s)))) ''n1'' ''alice''"
    by (simp add: dispatch_state)
  have "leads None (fst (snd (dispatch demo_env ''alice'' 1 leave_msg ?s))) (snd (conn_command demo_env 1 cn ''alice'' leave_msg ?s))"
    by (rule conn_command_tail [OF leads_inv [OF dispatch_leads [OF demo_server_inv]]])
      (use demo_may [of True 1 "[]"] demo_server_known in simp_all)
  then show "is_member (sv_networks (snd (server_step ?s (Receive demo_env 1 (wire_of leave_msg))))) ''n1'' ''alice''
      \<noteq> is_member (sv_networks ?s) ''n1'' ''alice''"
    using cn m d by (simp add: handle_data_wire [OF leave_msg_ok] handle_message_def leads_def)
qed

definition auth_msg :: message where
  "auth_msg = \<lparr>m_type = ''AUTH_RESPONSE'', m_payload = [(''challenge'', JStr ''00''), (''signature'', JStr ''07'')]\<rparr>"

lemma auth_msg_ok: "message_ok auth_msg"
  by (simp add: auth_msg_def message_ok_def text_ok_ascii message_body_def model_defs dump_str_def escape_char_def)

lemma flush_ok: "list_all (\<lambda>p. case snd p of Inr m \<Rightarrow> message_ok m | Inl _ \<Rightarrow> False) ss \<Longrightarrow> snd (flush ss e) = e"
  by (induction ss e rule: flush.induct) (auto simp: serialize_ok split: prod.splits)


definition demo_pair_server :: server where
  "demo_pair_server = (server_init 10 90 60 5)\<lparr>sv_networks := demo_pair_nm\<lparr>nm_registry :=
     add_network ''alice'' ''n1'' (add_network ''bob'' ''n1'' (nm_registry demo_pair_nm))\<rparr>,
     sv_writers := [(''alice'', 1), (''bob'', 2)]\<rparr>"

lemma demo_pair_inv: "nm_inv (sv_networks demo_pair_server)"
  by (rule nm_invI)
    (auto simp: demo_pair_server_def server_init_def demo_pair_nm_def demo_net_def nm_init_def demo_registry_def
      set_online_def register_def registry_init_def new_client_record_def update_endpoint_def add_network_def dict_upd_def
      set_add_def registry_wf_def in_network_def networks_for_def is_member_def net_ok_def SUPPORTED_TOPOLOGIES_def
      split: if_splits)

theorem disconnect_notifies_peers_witness:
  "(2, make_message PeerOffline [(''network_id'', JStr ''n1''), (''peer_id'', JStr ''alice'')])
     \<in> set (fst (handle_disconnect ''alice'' demo_pair_server))"
proof -
  obtain ss s' where h: "handle_disconnect ''alice'' demo_pair_server = (ss, s')" by (metis prod.exhaust)
  have "is_member (sv_networks demo_pair_server) ''n1'' ''alice''" "is_member (sv_networks demo_pair_server) ''n1'' ''bob''"
      "dict_get (sv_writers demo_pair_server) ''bob'' = Some 2"
    by (simp_all add: demo_pair_server_def demo_pair_nm_def demo_net_def is_member_def nm_init_def)
  moreover have "map_option online (registry_get (sv_registry demo_pair_server) ''bob'') = Some True"
    by (simp add: demo_pair_server_def demo_pair_nm_def nm_init_def demo_registry_def set_online_def register_def registry_init_def
        new_client_record_def update_endpoint_def add_network_def dict_upd_def registry_get_def)
  then obtain r where "registry_get (sv_registry demo_pair_server) ''bob'' = Some r" "online r" by auto
  moreover have "''bob'' \<noteq> ''alice''" by simp
  ultimately have "(2, make_message PeerOffline [(''network_id'', JStr ''n1''), (''peer_id'', JStr ''alice'')]) \<in> set ss"
    by (intro iffD2 [OF spec [OF spec [OF conjunct1 [OF disconnect_notifies_peers [OF demo_pair_inv h]]]]] exI conjI) (rule refl)
  then show ?thesis using h by simp
qed

definition takeover_msg :: message where
  "takeover_msg = \<lparr>m_type = ''REGISTER'', m_payload = [(''client_id'', JStr ''alice-0001''),
     (''public_key'', JStr ''-----BEGIN PUBLIC KEY-----evil'')]\<rparr>"

definition takeover_server :: server where
  "takeover_server = (server_init 10 90 60 5)\<lparr>sv_networks := nm_init (register 0 ''alice-0001'' ''k'' registry_init),
     sv_writers := [(''alice-0001'', 1)]\<rparr>"

theorem register_takes_over_witness:
  "dict_get (sv_writers (fst (snd (on_register demo_env 2 (''6.6.6.6'', 666) takeover_msg takeover_server)))) ''alice-0001'' = Some 2"
proof -
  have v: "validate_register (m_payload takeover_msg) = Inr (''alice-0001'', ''-----BEGIN PUBLIC KEY-----evil'')"
    by (simp add: validate_register_def takeover_msg_def require_def py_str_def ID_RE_def chomp_def is_id_char_def PEM_RE_def
        strip_def lstrip_def rstrip_def is_space_def starts_with_def)
  obtain r where r: "registry_get (sv_registry takeover_server) ''alice-0001'' = Some r" "\<not> banned r"
    by (simp add: takeover_server_def nm_init_def registry_get_def register_def registry_init_def new_client_record_def)
  obtain ss s' res where o: "on_register demo_env 2 (''6.6.6.6'', 666) takeover_msg takeover_server = (ss, s', res)"
    by (metis prod.exhaust)
  have "dict_get (sv_writers takeover_server) ''alice-0001'' = Some 1" by (simp add: takeover_server_def)
  from register_takes_over [OF v this _ r o] show ?thesis using o by simp
qed

end
