(* ===== verification/Balancer.thy ===== *)
theory Balancer
  imports Bytes
begin

text \<open>
  The four load balancers of \<^verbatim>\<open>proxy/load_balancer.py\<close>.  Weights are Python integers, the MD5
  digest of \<^verbatim>\<open>hashlib\<close> read as a number and the value of \<^verbatim>\<open>random.random()\<close> are
  arguments, and quotients are compared as real numbers.  The contract that the proxy relies on
  is the locale \<open>load_balancer\<close>, which every balancer interprets.
\<close>

section \<open>Data\<close>

record upstream_server =
  us_host :: string
  us_port :: int
  us_weight :: int
  us_max_conns :: int
  us_backup :: bool
  us_down :: bool

type_synonym selection = "upstream_server option result"

definition server_key :: "upstream_server \<Rightarrow> string" where
  "server_key s = us_host s @ '':'' @ str_int (us_port s)"

section \<open>Round robin\<close>

definition rr_available :: "upstream_server list \<Rightarrow> upstream_server list" where
  "rr_available servers =
     (let primary = filter (\<lambda>s. \<not> us_down s \<and> \<not> us_backup s) servers
      in if primary = [] then filter (\<lambda>s. us_backup s \<and> \<not> us_down s) servers else primary)"

definition weighted :: "upstream_server list \<Rightarrow> upstream_server list" where
  "weighted servers = concat (map (\<lambda>s. replicate (nat (us_weight s)) s) servers)"

definition rr_select :: "nat \<Rightarrow> upstream_server list \<Rightarrow> string \<Rightarrow> selection \<times> nat" where
  "rr_select index servers client_ip =
     (let available = rr_available servers; ws = weighted available in
      if available = [] then (Inr None, index)
      else if index < length ws then (Inr (Some (ws ! index)), (index + 1) mod length ws)
      else (Inl IndexError, index))"

section \<open>Least connections\<close>

definition conn_ratio :: "(string, int) dict \<Rightarrow> upstream_server \<Rightarrow> real" where
  "conn_ratio conns s = of_int (dict_get_or conns (server_key s) 0) / of_int (max (us_weight s) 1)"

definition lc_select :: "(string, int) dict \<Rightarrow> upstream_server list \<Rightarrow> string \<Rightarrow> selection \<times> (string, int) dict" where
  "lc_select conns servers client_ip =
     (let available = filter (\<lambda>s. \<not> us_down s) servers in
      (Inr (if available = [] then None else Some (arg_min_list (conn_ratio conns) available)), conns))"

definition lc_increment :: "upstream_server \<Rightarrow> (string, int) dict \<Rightarrow> (string, int) dict" where
  "lc_increment s conns = dict_set (server_key s) (dict_get_or conns (server_key s) 0 + 1) conns"

definition lc_decrement :: "upstream_server \<Rightarrow> (string, int) dict \<Rightarrow> (string, int) dict" where
  "lc_decrement s conns = dict_set (server_key s) (max 0 (dict_get_or conns (server_key s) 1 - 1)) conns"

section \<open>IP hash\<close>

fun ip_pick :: "int \<Rightarrow> upstream_server list \<Rightarrow> upstream_server \<Rightarrow> upstream_server" where
  "ip_pick idx [] fallback = fallback"
| "ip_pick idx (s # ss) fallback = (if idx < us_weight s then s else ip_pick (idx - us_weight s) ss fallback)"

definition ip_select :: "(bytes \<Rightarrow> nat) \<Rightarrow> unit \<Rightarrow> upstream_server list \<Rightarrow> string \<Rightarrow> selection \<times> unit" where
  "ip_select md5 _ servers client_ip =
     (let available = filter (\<lambda>s. \<not> us_down s) servers;
          h = md5 (encode client_ip);
          total = sum_list (map us_weight available)
      in (Inr (if available = [] then None
               else if client_ip = [] then Some (hd available)
               else if total = 0 then None
               else Some (ip_pick (int h mod total) available (last available))), ()))"

section \<open>Random\<close>

text \<open>\<^verbatim>\<open>bisect.bisect\<close> and \<^verbatim>\<open>random.choices(..., k=1)\<close> of the standard library.\<close>

function bisect :: "real list \<Rightarrow> real \<Rightarrow> nat \<Rightarrow> nat \<Rightarrow> nat" where
  "bisect a x lo hi =
     (if lo < hi then
        (let mid = (lo + hi) div 2 in if x < a ! mid then bisect a x lo mid else bisect a x (mid + 1) hi)
      else lo)"
  by auto
termination by (relation "measure (\<lambda>(a, x, lo, hi). hi - lo)") auto

declare bisect.simps [simp del]

fun accumulate :: "real \<Rightarrow> int list \<Rightarrow> real list" where
  "accumulate acc [] = []"
| "accumulate acc (w # ws) = (acc + of_int w) # accumulate (acc + of_int w) ws"

definition choices1 :: "real \<Rightarrow> upstream_server list \<Rightarrow> int list \<Rightarrow> upstream_server result" where
  "choices1 rnd population weights =
     (let cum = accumulate 0 weights; total = last cum in
      if total \<le> 0 then Inl (ValueError ''Total of weights must be greater than zero'')
      else Inr (population ! bisect cum (rnd * total) 0 (length population - 1)))"

definition random_select :: "real \<Rightarrow> unit \<Rightarrow> upstream_server list \<Rightarrow> string \<Rightarrow> selection \<times> unit" where
  "random_select rnd _ servers client_ip =
     (let available = filter (\<lambda>s. \<not> us_down s) servers in
      (if available = [] then Inr None
       else (case choices1 rnd available (map us_weight available) of Inl e \<Rightarrow> Inl e | Inr s \<Rightarrow> Inr (Some s)), ()))"

section \<open>The balancers as one type\<close>

datatype balancer =
    RoundRobinBalancer nat
  | LeastConnBalancer "(string, int) dict"
  | IpHashBalancer
  | RandomBalancer

definition create_balancer :: "string \<Rightarrow> balancer result" where
  "create_balancer algorithm =
     (if algorithm = ''round_robin'' then Inr (RoundRobinBalancer 0)
      else if algorithm = ''least_conn'' then Inr (LeastConnBalancer [])
      else if algorithm = ''ip_hash'' then Inr IpHashBalancer
      else if algorithm = ''random'' then Inr RandomBalancer
      else Inl (ValueError (''unknown load balancing algorithm: '' @ algorithm)))"

primrec balancer_select :: "(bytes \<Rightarrow> nat) \<Rightarrow> real \<Rightarrow> balancer \<Rightarrow> upstream_server list \<Rightarrow> string \<Rightarrow> selection \<times> balancer" where
  "balancer_select md5 rnd (RoundRobinBalancer i) servers ip =
     (case rr_select i servers ip of (r, i') \<Rightarrow> (r, RoundRobinBalancer i'))"
| "balancer_select md5 rnd (LeastConnBalancer c) servers ip =
     (case lc_select c servers ip of (r, c') \<Rightarrow> (r, LeastConnBalancer c'))"
| "balancer_select md5 rnd IpHashBalancer servers ip = (fst (ip_select md5 () servers ip), IpHashBalancer)"
| "balancer_select md5 rnd RandomBalancer servers ip = (fst (random_select rnd () servers ip), RandomBalancer)"

section \<open>The contract\<close>

text \<open>What the proxy relies on: a selected server is one of the given ones and not marked down, and
  when every server is down the answer is \<open>None\<close>.\<close>

locale load_balancer =
  fixes select :: "'st \<Rightarrow> upstream_server list \<Rightarrow> string \<Rightarrow> selection \<times> 'st"
  assumes select_live: "fst (select st servers ip) = Inr (Some s) \<Longrightarrow> s \<in> set servers \<and> \<not> us_down s"
    and select_all_down: "(\<forall>s \<in> set servers. us_down s) \<Longrightarrow> fst (select st servers ip) = Inr None"
begin

primrec serve :: "'st \<Rightarrow> (upstream_server list \<times> string) list \<Rightarrow> selection list" where
  "serve st [] = []"
| "serve st (q # qs) = fst (select st (fst q) (snd q)) # serve (snd (select st (fst q) (snd q))) qs"

lemma length_serve [simp]: "length (serve st qs) = length qs"
  by (induction qs arbitrary: st) auto

lemma serve_live:
  "i < length qs \<Longrightarrow> serve st qs ! i = Inr (Some s) \<Longrightarrow> s \<in> set (fst (qs ! i)) \<and> \<not> us_down s"
proof (induction qs arbitrary: st i)
  case (Cons q qs)
  then show ?case by (cases i) (auto dest: select_live)
qed simp

lemma select_ok_has_up: "fst (select st servers ip) = Inr (Some s) \<Longrightarrow> \<exists>s \<in> set servers. \<not> us_down s"
  using select_live by blast

end

lemma bisect_bounds: "lo \<le> hi \<Longrightarrow> lo \<le> bisect a x lo hi \<and> bisect a x lo hi \<le> hi"
proof (induction a x lo hi rule: bisect.induct)
  case (1 a x lo hi)
  then show ?case
    by (subst bisect.simps; subst (2) bisect.simps) (auto simp: Let_def; force)
qed

lemma length_accumulate [simp]: "length (accumulate acc ws) = length ws"
  by (induction ws arbitrary: acc) auto

lemma ip_pick_in: "ip_pick i ss f \<in> insert f (set ss)"
  by (induction i ss f rule: ip_pick.induct) auto

lemma rr_available_live: "s \<in> set (rr_available servers) \<Longrightarrow> s \<in> set servers \<and> \<not> us_down s"
  by (auto simp: rr_available_def Let_def split: if_splits)

lemma set_weighted: "set (weighted servers) \<subseteq> set servers"
  by (auto simp: weighted_def)

interpretation rr: load_balancer rr_select
proof
  fix st servers ip s
  assume "fst (rr_select st servers ip) = Inr (Some s)"
  then have "s \<in> set (weighted (rr_available servers))" by (auto simp: rr_select_def Let_def split: if_splits)
  then show "s \<in> set servers \<and> \<not> us_down s" using set_weighted rr_available_live by blast
next
  fix st ip and servers :: "upstream_server list"
  assume "\<forall>s \<in> set servers. us_down s"
  then show "fst (rr_select st servers ip) = Inr None" by (auto simp: rr_select_def rr_available_def Let_def filter_empty_conv)
qed

interpretation lc: load_balancer lc_select
proof
  fix st servers ip s
  assume a: "fst (lc_select st servers ip) = Inr (Some s)"
  let ?av = "filter (\<lambda>s. \<not> us_down s) servers"
  have "?av \<noteq> [] \<and> s = arg_min_list (conn_ratio st) ?av" using a by (auto simp: lc_select_def Let_def split: if_splits)
  then have "s \<in> set ?av" using arg_min_list_in by metis
  then show "s \<in> set servers \<and> \<not> us_down s" by simp
next
  fix st ip and servers :: "upstream_server list"
  assume "\<forall>s \<in> set servers. us_down s"
  then show "fst (lc_select st servers ip) = Inr None" by (simp add: lc_select_def Let_def filter_empty_conv)
qed

interpretation ih: load_balancer "ip_select md5"
proof
  fix st servers ip s
  assume a: "fst (ip_select md5 st servers ip) = Inr (Some s)"
  let ?av = "filter (\<lambda>s. \<not> us_down s) servers"
  have ne: "?av \<noteq> []" using a by (auto simp: ip_select_def Let_def split: if_splits)
  then have "hd ?av \<in> set ?av" "last ?av \<in> set ?av" by (rule hd_in_set, rule last_in_set)
  moreover have "ip_pick i ?av (last ?av) \<in> set ?av" for i
    using ip_pick_in [of i ?av "last ?av"] \<open>last ?av \<in> set ?av\<close> by (metis insertE)
  ultimately have "s \<in> set ?av" using a
    by (auto simp del: set_filter simp: ip_select_def Let_def split: if_splits)
  then show "s \<in> set servers \<and> \<not> us_down s" by simp
next
  fix st ip and servers :: "upstream_server list"
  assume "\<forall>s \<in> set servers. us_down s"
  then show "fst (ip_select md5 st servers ip) = Inr None" by (simp add: ip_select_def Let_def filter_empty_conv)
qed

interpretation rnd: load_balancer "random_select r"
proof
  fix st servers ip s
  assume a: "fst (random_select r st servers ip) = Inr (Some s)"
  let ?av = "filter (\<lambda>s. \<not> us_down s) servers"
  let ?i = "bisect (accumulate 0 (map us_weight ?av)) (r * last (accumulate 0 (map us_weight ?av))) 0 (length ?av - 1)"
  have ne: "?av \<noteq> []" and s: "s = ?av ! ?i"
    using a by (auto simp: random_select_def choices1_def Let_def split: if_splits sum.splits)
  have "?i \<le> length ?av - 1" using bisect_bounds [of 0 "length ?av - 1"] by blast
  moreover have "length ?av > 0" using ne by (rule length_greater_0_conv [THEN iffD2])
  ultimately have "?i < length ?av" by linarith
  then have "s \<in> set ?av" unfolding s by (rule nth_mem)
  then show "s \<in> set servers \<and> \<not> us_down s" by simp
next
  fix st ip and servers :: "upstream_server list"
  assume "\<forall>s \<in> set servers. us_down s"
  then show "fst (random_select r st servers ip) = Inr None" by (simp add: random_select_def Let_def filter_empty_conv)
qed

lemma count_weighted:
  "distinct servers \<Longrightarrow> count_list (weighted servers) s = (if s \<in> set servers then nat (us_weight s) else 0)"
proof (induction servers)
  case (Cons x xs)
  have "count_list (replicate n x) y = (if y = x then n else 0)" for n and x y :: upstream_server
    by (induction n) auto
  then show ?case using Cons by (auto simp: weighted_def)
qed (simp add: weighted_def)

primrec rr_run :: "nat \<Rightarrow> upstream_server list \<Rightarrow> nat \<Rightarrow> selection list \<times> nat" where
  "rr_run i servers 0 = ([], i)"
| "rr_run i servers (Suc k) =
     (case rr_select i servers [] of (r, i') \<Rightarrow> (case rr_run i' servers k of (rs, j) \<Rightarrow> (r # rs, j)))"

lemma rr_run_picks:
  assumes "rr_available servers \<noteq> []" "i < length (weighted (rr_available servers))"
  shows "rr_run i servers k =
    (map (\<lambda>j. Inr (Some (weighted (rr_available servers) ! ((i + j) mod length (weighted (rr_available servers)))))) [0..<k],
     (i + k) mod length (weighted (rr_available servers)))"
  using assms(2)
proof (induction k arbitrary: i)
  case (Suc k)
  let ?n = "length (weighted (rr_available servers))"
  have "(i + 1) mod ?n < ?n" using Suc.prems by (intro mod_less_divisor) linarith
  then show ?case using Suc assms(1)
    by (simp add: rr_select_def Let_def upt_conv_Cons_Cons map_Suc_upt [symmetric] comp_def mod_add_left_eq
        del: upt_Suc add: upt_rec [of 0 "Suc k"])
qed simp

lemma map_rotate:
  assumes "i < length xs"
  shows "map (\<lambda>j. xs ! ((i + j) mod length xs)) [0..<length xs] = rotate i xs"
  by (rule nth_equalityI) (simp_all add: nth_rotate add.commute)

lemma count_rotate: "count_list (rotate i xs) x = count_list xs x"
proof (induction i)
  case (Suc i)
  have "count_list (rotate1 ys) x = count_list ys x" for ys by (cases ys) auto
  then show ?case using Suc by simp
qed simp

text \<open>C22: weighted round robin is exactly fair: in every cycle of as many selections as the sum of the
  weights, from whatever position the cycle starts, each server in rotation is selected exactly
  its weight many times, no other server is selected, and the position is back where it was.\<close>

theorem round_robin_fair:
  assumes "distinct servers" and "i < length (weighted (rr_available servers))"
    and "rr_run i servers (length (weighted (rr_available servers))) = (picks, j)"
  shows "j = i \<and> (\<forall>s. count_list picks (Inr (Some s)) =
            (if s \<in> set (rr_available servers) then nat (us_weight s) else 0))
    \<and> (\<forall>p \<in> set picks. \<exists>s \<in> set (rr_available servers). p = Inr (Some s))"
proof -
  let ?w = "weighted (rr_available servers)"
  have ne: "rr_available servers \<noteq> []" using assms(2) by (auto simp: weighted_def)
  have d: "distinct (rr_available servers)" using assms(1) by (simp add: rr_available_def Let_def)
  have p: "picks = map (\<lambda>s. Inr (Some s)) (rotate i ?w)" "j = (i + length ?w) mod length ?w"
    using assms(3) rr_run_picks [OF ne assms(2), of "length ?w"] by (simp_all add: comp_def flip: map_rotate [OF assms(2)])
  have "count_list (map (\<lambda>s. Inr (Some s) :: selection) xs) (Inr (Some s)) = count_list xs s" for xs s
    by (induction xs) auto
  then have "count_list picks (Inr (Some s)) = (if s \<in> set (rr_available servers) then nat (us_weight s) else 0)" for s
    by (simp add: p count_rotate count_weighted [OF d])
  moreover have "j = i" using p(2) assms(2) by simp
  moreover have "set picks \<subseteq> (\<lambda>s. Inr (Some s)) ` set (rr_available servers)"
    using p(1) set_weighted [of "rr_available servers"] by auto
  ultimately show ?thesis by auto
qed

text \<open>No balancer ever selects a server that is marked down or that was not offered, and when every
  server is down each of them answers that none is available, whatever the weights, hashes and
  random values.\<close>

theorem balancer_selects_live:
  "(fst (balancer_select md5 r b servers ip) = Inr (Some s) \<longrightarrow> s \<in> set servers \<and> \<not> us_down s)
   \<and> ((\<forall>x \<in> set servers. us_down x) \<longrightarrow> fst (balancer_select md5 r b servers ip) = Inr None)"
proof (cases b)
  case (RoundRobinBalancer i)
  then show ?thesis using rr.select_live [of i servers ip s] rr.select_all_down [of servers i ip] by (simp add: split_beta)
next
  case (LeastConnBalancer c)
  then show ?thesis using lc.select_live [of c servers ip s] lc.select_all_down [of servers c ip] by (simp add: split_beta)
next
  case IpHashBalancer
  then show ?thesis using ih.select_live [of md5 "()" servers ip s] ih.select_all_down [of servers md5 "()" ip] by simp
next
  case RandomBalancer
  then show ?thesis using rnd.select_live [of r "()" servers ip s] rnd.select_all_down [of servers r "()" ip] by simp
qed

section \<open>Shares of the hash and random balancers\<close>

lemma ip_pick_weighted:
  "\<forall>s \<in> set ss. us_weight s \<ge> 0 \<Longrightarrow> h < length (weighted ss) \<Longrightarrow> ip_pick (int h) ss d = weighted ss ! h"
proof (induction ss arbitrary: h)
  case (Cons s ss)
  let ?k = "nat (us_weight s)"
  have w: "weighted (s # ss) = replicate ?k s @ weighted ss" by (simp add: weighted_def)
  show ?case
  proof (cases "h < ?k")
    case True
    then show ?thesis using Cons.prems by (simp add: w nth_append)
  next
    case False
    have e: "int h - us_weight s = int (h - ?k)" using False Cons.prems(1) by simp
    have "h - ?k < length (weighted ss)" using False Cons.prems(2) by (simp add: w)
    then have "ip_pick (int h - us_weight s) ss d = weighted ss ! (h - ?k)"
      unfolding e using Cons.prems(1) by (intro Cons.IH) auto
    then show ?thesis using False Cons.prems(1) by (simp add: w nth_append)
  qed
qed (simp add: weighted_def)

lemma length_weighted:
  "\<forall>s \<in> set ss. us_weight s \<ge> 0 \<Longrightarrow> int (length (weighted ss)) = sum_list (map us_weight ss)"
  by (induction ss) (auto simp: weighted_def)

text \<open>The hash balancer gives every server its share: with non-negative weights that are not all
  zero, a client is always sent to the same server, and of the residues of the hash modulo the
  total weight exactly a server's weight many lead to it.\<close>

theorem ip_hash_share:
  fixes servers :: "upstream_server list"
  defines "up \<equiv> filter (\<lambda>s. \<not> us_down s) servers"
  defines "tw \<equiv> nat (sum_list (map us_weight up))"
  assumes "distinct servers" and "\<forall>s \<in> set up. us_weight s \<ge> 0" and "tw > 0" and "ip \<noteq> []"
  shows "fst (ip_select md5 () servers ip) = Inr (Some (ip_pick (int (md5 (encode ip) mod tw)) up (last up)))
    \<and> (\<forall>s \<in> set up. card {h. h < tw \<and> ip_pick (int h) up (last up) = s} = nat (us_weight s))"
proof -
  have len: "length (weighted up) = tw" using length_weighted [OF assms(4)] by (simp add: tw_def)
  have ne: "up \<noteq> []" using assms(5) by (auto simp: tw_def)
  have t: "sum_list (map us_weight up) = int tw" using assms(5) by (simp add: tw_def)
  have "fst (ip_select md5 () servers ip) = Inr (Some (ip_pick (int (md5 (encode ip) mod tw)) up (last up)))"
    using ne assms(5,6) t by (simp add: ip_select_def Let_def zmod_int flip: up_def)
  moreover have "card {h. h < tw \<and> ip_pick (int h) up (last up) = s} = nat (us_weight s)" if "s \<in> set up" for s
  proof -
    have "distinct up" using assms(3) by (simp add: up_def)
    then have "count_list (weighted up) s = nat (us_weight s)" using that by (simp add: count_weighted)
    moreover have "{h. h < tw \<and> ip_pick (int h) up (last up) = s} = {h. h < length (weighted up) \<and> s = weighted up ! h}"
      using ip_pick_weighted [OF assms(4)] len by auto
    ultimately show ?thesis by (simp add: count_list_eq_length_filter length_filter_conv_card)
  qed
  ultimately show ?thesis by blast
qed

text \<open>The least-connections balancer selects a server that is up and whose ratio of active
  connections to weight is minimal among the servers that are up; connection counts never become
  negative, and an increment followed by a decrement restores every count.\<close>

theorem least_conn_minimal:
  "(\<forall>s. fst (lc_select conns servers ip) = Inr (Some s) \<longrightarrow>
      (\<forall>x \<in> set servers. \<not> us_down x \<longrightarrow> conn_ratio conns s \<le> conn_ratio conns x))
   \<and> ((\<forall>v \<in> ran (map_of conns). v \<ge> 0) \<longrightarrow>
       (\<forall>v \<in> ran (map_of (lc_decrement x conns)) \<union> ran (map_of (lc_increment x conns)). v \<ge> 0)
       \<and> (\<forall>k. dict_get_or (lc_decrement x (lc_increment x conns)) k 0 = dict_get_or conns k 0))"
proof -
  let ?av = "filter (\<lambda>s. \<not> us_down s) servers"
  have "conn_ratio conns s \<le> conn_ratio conns y"
    if "fst (lc_select conns servers ip) = Inr (Some s)" "y \<in> set servers" "\<not> us_down y" for s y
  proof -
    have "?av \<noteq> []" "s = arg_min_list (conn_ratio conns) ?av" using that(1) by (auto simp: lc_select_def Let_def split: if_splits)
    then have "conn_ratio conns s = Min (conn_ratio conns ` set ?av)" using f_arg_min_list_f by metis
    then show ?thesis using that(2,3) by simp
  qed
  moreover have "v \<ge> 0" if "\<forall>v \<in> ran (map_of conns). v \<ge> 0"
      "v \<in> ran (map_of (lc_decrement x conns)) \<union> ran (map_of (lc_increment x conns))" for v
    using that by (auto simp: lc_decrement_def lc_increment_def ran_def dict_get_or_def split: option.splits if_splits)
  moreover have "dict_get_or (lc_decrement x (lc_increment x conns)) k 0 = dict_get_or conns k 0"
    if "\<forall>v \<in> ran (map_of conns). v \<ge> 0" for k
    using that by (auto simp: lc_decrement_def lc_increment_def ran_def dict_get_or_def split: option.splits)
  ultimately show ?thesis by blast
qed

lemma bisect_split:
  "sorted_wrt (\<le>) a \<Longrightarrow> lo \<le> hi \<Longrightarrow> hi \<le> length a \<Longrightarrow>
     (\<forall>j. lo \<le> j \<and> j < bisect a x lo hi \<longrightarrow> a ! j \<le> x) \<and> (\<forall>j. bisect a x lo hi \<le> j \<and> j < hi \<longrightarrow> x < a ! j)"
proof (induction a x lo hi rule: bisect.induct)
  case (1 a x lo hi)
  show ?case
  proof (cases "lo < hi")
    case True
    let ?mid = "(lo + hi) div 2"
    have mid: "lo \<le> ?mid" "?mid < hi" using True by auto
    have mono: "a ! i \<le> a ! j" if "i \<le> j" "j < length a" for i j
      using that "1.prems"(1) by (metis le_neq_implies_less order_refl sorted_wrt_nth_less)
    show ?thesis
    proof (cases "x < a ! ?mid")
      case small: True
      have b: "bisect a x lo hi = bisect a x lo ?mid" using True small by (subst bisect.simps) (simp add: Let_def)
      have ih: "(\<forall>j. lo \<le> j \<and> j < bisect a x lo ?mid \<longrightarrow> a ! j \<le> x) \<and> (\<forall>j. bisect a x lo ?mid \<le> j \<and> j < ?mid \<longrightarrow> x < a ! j)"
        using "1.IH"(1) [OF True refl small "1.prems"(1)] mid "1.prems"(3) by simp
      have "x < a ! j" if "?mid \<le> j" "j < hi" for j using small mono [of ?mid j] that "1.prems"(3) by simp
      then show ?thesis using ih b by (metis not_less)
    next
      case large: False
      have b: "bisect a x lo hi = bisect a x (?mid + 1) hi" using True large by (subst bisect.simps) (simp add: Let_def)
      have ih: "(\<forall>j. ?mid + 1 \<le> j \<and> j < bisect a x (?mid + 1) hi \<longrightarrow> a ! j \<le> x)
          \<and> (\<forall>j. bisect a x (?mid + 1) hi \<le> j \<and> j < hi \<longrightarrow> x < a ! j)"
        using "1.IH"(2) [OF True refl large "1.prems"(1)] mid "1.prems"(3) by simp
      have "a ! j \<le> x" if "j \<le> ?mid" for j using large mono [of j ?mid] that mid "1.prems"(3) by simp
      then show ?thesis using ih b by (metis Suc_eq_plus1 not_less_eq_eq)
    qed
  qed (auto simp: bisect.simps [of a x lo hi])
qed

lemma accumulate_nth:
  "i < length ws \<Longrightarrow> accumulate acc ws ! i = acc + of_int (sum_list (take (Suc i) ws))"
proof (induction ws arbitrary: acc i)
  case (Cons w ws)
  then show ?case by (cases i) auto
qed simp

lemma accumulate_sorted: "\<forall>w \<in> set ws. w \<ge> 0 \<Longrightarrow> sorted_wrt (\<le>) (accumulate acc ws) \<and> (\<forall>c \<in> set (accumulate acc ws). acc \<le> c)"
proof (induction ws arbitrary: acc)
  case (Cons w ws)
  then show ?case using Cons.IH [of "acc + of_int w"] by force
qed simp

text \<open>The random balancer respects the weights: with non-negative weights that are not all zero and
  any random value in \<open>[0, 1)\<close> it selects a server that is up and has positive weight, and
  exactly the one in whose interval of cumulated weights the scaled random value falls.\<close>

theorem random_respects_weights:
  fixes servers :: "upstream_server list"
  defines "up \<equiv> filter (\<lambda>s. \<not> us_down s) servers"
  assumes "\<forall>s \<in> set up. us_weight s \<ge> 0" and "sum_list (map us_weight up) > 0" and "0 \<le> rnd" and "rnd < 1"
  shows "\<exists>i < length up. fst (random_select rnd () servers ip) = Inr (Some (up ! i)) \<and> us_weight (up ! i) > 0
    \<and> of_int (sum_list (map us_weight (take i up))) \<le> rnd * of_int (sum_list (map us_weight up))
    \<and> rnd * of_int (sum_list (map us_weight up)) < of_int (sum_list (map us_weight (take (Suc i) up)))"
proof -
  let ?ws = "map us_weight up" and ?n = "length up"
  let ?cum = "accumulate 0 ?ws"
  let ?x = "rnd * of_int (sum_list ?ws)"
  define i where "i = bisect ?cum ?x 0 (?n - 1)"
  have ne: "up \<noteq> []" "0 < ?n" using assms(3) by auto
  have cum: "?cum ! j = of_int (sum_list (map us_weight (take (Suc j) up)))" if "j < ?n" for j
    using that accumulate_nth [of j ?ws 0] by (simp add: take_map)
  have total: "last ?cum = of_int (sum_list ?ws)"
  proof -
    have "?cum \<noteq> []" using ne(2) by (metis length_0_conv length_accumulate length_map less_numeral_extra(3))
    then have "last ?cum = ?cum ! (?n - 1)" by (simp add: last_conv_nth)
    then show ?thesis using cum [of "?n - 1"] ne(2) by simp
  qed
  have sorted: "sorted_wrt (\<le>) ?cum" using accumulate_sorted [of ?ws 0] assms(2) by simp
  have "i \<le> ?n - 1" using bisect_bounds [of 0 "?n - 1" ?cum ?x] by (simp add: i_def)
  then have i: "i \<le> ?n - 1" "i < ?n" using ne(2) by linarith+
  note sp = bisect_split [OF sorted, of 0 "?n - 1" ?x, folded i_def]
  have upper: "?x < ?cum ! i"
  proof (cases "i < ?n - 1")
    case False
    then have "i = ?n - 1" using i by simp
    then have "?cum ! i = of_int (sum_list ?ws)" using cum [of i] ne(2) by simp
    then show ?thesis using assms(3,5) by simp
  qed (use sp in simp)
  have lower: "of_int (sum_list (map us_weight (take i up))) \<le> ?x"
  proof (cases i)
    case (Suc j)
    then have "?cum ! j \<le> ?x" using sp by simp
    then show ?thesis using Suc cum [of j] i by simp
  qed (use assms(3,4) in simp)
  have "sum_list (map us_weight (take (Suc i) up)) = sum_list (map us_weight (take i up)) + us_weight (up ! i)"
    using i by (simp add: take_Suc_conv_app_nth)
  then have "us_weight (up ! i) > 0" using lower upper cum [OF i(2)] by linarith
  moreover have "fst (random_select rnd () servers ip) = Inr (Some (up ! i))"
    using ne(1) assms(3) total by (simp add: random_select_def choices1_def Let_def i_def flip: up_def)
  ultimately show ?thesis using i(2) lower upper cum [OF i(2)] by auto
qed

section \<open>Witnesses\<close>

definition srv :: "string \<Rightarrow> int \<Rightarrow> upstream_server" where
  "srv h w = \<lparr>us_host = h, us_port = 80, us_weight = w, us_max_conns = 0, us_backup = False, us_down = False\<rparr>"

theorem round_robin_fair_witness:
  "count_list (fst (rr_run 1 [srv ''a'' 2, srv ''b'' 1] 3)) (Inr (Some (srv ''a'' 2))) = 2
   \<and> snd (rr_run 1 [srv ''a'' 2, srv ''b'' 1] 3) = 1"
proof -
  let ?s = "[srv ''a'' 2, srv ''b'' 1]"
  have av: "rr_available ?s = ?s" and d: "distinct ?s" by (simp_all add: rr_available_def srv_def)
  have w: "length (weighted (rr_available ?s)) = 3" unfolding av by (simp add: weighted_def srv_def)
  obtain picks j where r: "rr_run 1 ?s 3 = (picks, j)" by (metis prod.exhaust)
  have "1 < length (weighted (rr_available ?s))" by (simp only: w)
  from round_robin_fair [OF d this, unfolded w, OF r] show ?thesis
    unfolding r av by (simp add: srv_def)
qed

theorem balancer_selects_live_witness:
  "fst (balancer_select (\<lambda>_. 0) 0 IpHashBalancer [(srv ''a'' 1)\<lparr>us_down := True\<rparr>] ''1.2.3.4'') = Inr None"
  using balancer_selects_live [of "\<lambda>_. 0" 0 IpHashBalancer "[(srv ''a'' 1)\<lparr>us_down := True\<rparr>]" "''1.2.3.4''"] by simp

theorem ip_hash_share_witness:
  "fst (ip_select (\<lambda>_. 5) () [srv ''a'' 2, srv ''b'' 1] ''1.2.3.4'') = Inr (Some (srv ''b'' 1))"
  using ip_hash_share [of "[srv ''a'' 2, srv ''b'' 1]" "''1.2.3.4''" "\<lambda>_. 5"] by (simp add: srv_def)

theorem least_conn_minimal_witness:
  "conn_ratio [(server_key (srv ''a'' 1), 3)] (srv ''b'' 1) \<le> conn_ratio [(server_key (srv ''a'' 1), 3)] (srv ''a'' 1)"
proof -
  let ?c = "[(server_key (srv ''a'' 1), 3)]"
  have "server_key (srv ''b'' 1) \<noteq> server_key (srv ''a'' 1)" by (simp add: server_key_def srv_def)
  then have r: "conn_ratio ?c (srv ''a'' 1) = 3" "conn_ratio ?c (srv ''b'' 1) = 0"
    by (simp_all add: conn_ratio_def dict_get_or_def srv_def)
  have "fst (lc_select ?c [srv ''a'' 1, srv ''b'' 1] []) = Inr (Some (srv ''b'' 1))"
    by (simp add: lc_select_def Let_def r) (simp add: srv_def)
  then show ?thesis using conjunct1 [OF least_conn_minimal [of ?c "[srv ''a'' 1, srv ''b'' 1]" "[]"]]
    by (simp add: srv_def)
qed

theorem random_respects_weights_witness:
  "\<exists>i < 2. fst (random_select (1/2) () [srv ''a'' 0, srv ''b'' 1] []) = Inr (Some ([srv ''a'' 0, srv ''b'' 1] ! i))
     \<and> us_weight ([srv ''a'' 0, srv ''b'' 1] ! i) > 0"
proof -
  have up: "filter (\<lambda>s. \<not> us_down s) [srv ''a'' 0, srv ''b'' 1] = [srv ''a'' 0, srv ''b'' 1]"
    and "\<forall>s \<in> set [srv ''a'' 0, srv ''b'' 1]. us_weight s \<ge> 0"
    and "sum_list (map us_weight [srv ''a'' 0, srv ''b'' 1]) > 0" by (simp_all add: srv_def)
  from random_respects_weights [of "[srv ''a'' 0, srv ''b'' 1]" "1/2" "[]", unfolded up, OF this(2,3)]
  show ?thesis by (auto simp: numeral_2_eq_2)
qed

end
