(* ===== verification/Health.thy ===== *)
theory Health
  imports Bytes
begin

text \<open>
  Passive health checks (\<^verbatim>\<open>proxy/health_check.py\<close>), the rate limiter
  (\<^verbatim>\<open>proxy/security/rate_limiter.py\<close>) of the reverse proxy.  The monotonic clock is an
  argument of every operation that reads it.
\<close>

section \<open>Health monitor\<close>

record server_health =
  sh_host :: string
  sh_port :: int
  sh_failures :: int
  sh_last_failure :: time
  sh_unavailable :: bool
  sh_unavailable_since :: time
  sh_total_failures :: int

record health_monitor =
  hm_max_failures :: int
  hm_fail_timeout :: time
  hm_servers :: "(string, server_health) dict"

definition hm_init :: "int \<Rightarrow> time \<Rightarrow> health_monitor" where
  "hm_init max_failures fail_timeout =
     \<lparr>hm_max_failures = max_failures, hm_fail_timeout = fail_timeout, hm_servers = []\<rparr>"

definition hm_key :: "string \<Rightarrow> int \<Rightarrow> string" where
  "hm_key host port = host @ '':'' @ str_int port"

definition new_health :: "string \<Rightarrow> int \<Rightarrow> server_health" where
  "new_health host port = \<lparr>sh_host = host, sh_port = port, sh_failures = 0, sh_last_failure = 0,
     sh_unavailable = False, sh_unavailable_since = 0, sh_total_failures = 0\<rparr>"

definition record_failure :: "time \<Rightarrow> string \<Rightarrow> int \<Rightarrow> health_monitor \<Rightarrow> health_monitor" where
  "record_failure now host port m =
     (let key = hm_key host port;
          h0 = (case dict_get (hm_servers m) key of None \<Rightarrow> new_health host port | Some h \<Rightarrow> h);
          h1 = (if now - sh_last_failure h0 > hm_fail_timeout m then h0\<lparr>sh_failures := 0\<rparr> else h0);
          h2 = h1\<lparr>sh_failures := sh_failures h1 + 1, sh_total_failures := sh_total_failures h1 + 1,
                  sh_last_failure := now\<rparr>;
          h3 = (if sh_failures h2 \<ge> hm_max_failures m
                then h2\<lparr>sh_unavailable := True, sh_unavailable_since := now\<rparr> else h2)
      in m\<lparr>hm_servers := dict_set key h3 (hm_servers m)\<rparr>)"

definition record_success :: "string \<Rightarrow> int \<Rightarrow> health_monitor \<Rightarrow> health_monitor" where
  "record_success host port m =
     m\<lparr>hm_servers := dict_upd (hm_key host port) (\<lambda>h. h\<lparr>sh_failures := 0, sh_unavailable := False\<rparr>) (hm_servers m)\<rparr>"

definition is_available :: "time \<Rightarrow> string \<Rightarrow> int \<Rightarrow> health_monitor \<Rightarrow> bool \<times> health_monitor" where
  "is_available now host port m =
     (case dict_get (hm_servers m) (hm_key host port) of
        None \<Rightarrow> (True, m)
      | Some h \<Rightarrow>
          if \<not> sh_unavailable h then (True, m)
          else if now - sh_unavailable_since h > hm_fail_timeout m
          then (True, m\<lparr>hm_servers := dict_upd (hm_key host port)
                          (\<lambda>h. h\<lparr>sh_unavailable := False, sh_failures := 0\<rparr>) (hm_servers m)\<rparr>)
          else (False, m))"

definition get_health :: "health_monitor \<Rightarrow> string \<Rightarrow> int \<Rightarrow> server_health option" where
  "get_health m host port = dict_get (hm_servers m) (hm_key host port)"

definition list_all_health :: "health_monitor \<Rightarrow> server_health list" where
  "list_all_health m = dict_values (hm_servers m)"

text \<open>A burst of failures: each follows the previous one within the time window.\<close>

fun close_times :: "time \<Rightarrow> time list \<Rightarrow> bool" where
  "close_times d (t # u # ts) = (u - t \<le> d \<and> close_times d (u # ts))"
| "close_times d ts = True"

abbreviation fail_all :: "time list \<Rightarrow> string \<Rightarrow> int \<Rightarrow> health_monitor \<Rightarrow> health_monitor" where
  "fail_all ts host port m \<equiv> fold (\<lambda>t. record_failure t host port) ts m"

lemma fail_params [simp]:
  "hm_max_failures (record_failure t h p m) = hm_max_failures m"
  "hm_fail_timeout (record_failure t h p m) = hm_fail_timeout m"
  by (simp_all add: record_failure_def Let_def)

lemma fail_all_params [simp]:
  "hm_max_failures (fail_all ts h p m) = hm_max_failures m"
  "hm_fail_timeout (fail_all ts h p m) = hm_fail_timeout m"
  by (induction ts arbitrary: m) simp_all

lemma close_times_append: "close_times d (ts @ [t, u]) \<longleftrightarrow> close_times d (ts @ [t]) \<and> u - t \<le> d"
proof (induction ts)
  case (Cons a ts)
  then show ?case by (cases ts) auto
qed auto

lemma failure_in_window:
  assumes "get_health m host port = Some h" "t - sh_last_failure h \<le> hm_fail_timeout m"
  shows "\<exists>h'. get_health (record_failure t host port m) host port = Some h' \<and> sh_failures h' = sh_failures h + 1
    \<and> sh_last_failure h' = t \<and> sh_unavailable h' = (sh_unavailable h \<or> sh_failures h + 1 \<ge> hm_max_failures m)
    \<and> (sh_failures h + 1 \<ge> hm_max_failures m \<longrightarrow> sh_unavailable_since h' = t)"
  using assms by (auto simp: record_failure_def Let_def get_health_def)

lemma fail_all_state:
  assumes "get_health m host port = None" "ts \<noteq> []" "close_times (hm_fail_timeout m) ts"
  shows "\<exists>h. get_health (fail_all ts host port m) host port = Some h \<and> sh_failures h = int (length ts)
    \<and> sh_last_failure h = last ts
    \<and> sh_unavailable h = (int (length ts) \<ge> hm_max_failures m)
    \<and> (sh_unavailable h \<longrightarrow> sh_unavailable_since h = last ts)"
  using assms(2,3)
proof (induction ts rule: rev_induct)
  case (snoc t ts)
  show ?case
  proof (cases "ts = []")
    case True
    then show ?thesis using assms(1)
      by (auto simp: record_failure_def Let_def get_health_def new_health_def)
  next
    case False
    then obtain us u where us: "ts = us @ [u]" by (metis rev_exhaust)
    have c: "close_times (hm_fail_timeout m) ts" "t - u \<le> hm_fail_timeout m"
      using snoc.prems(2) close_times_append [of _ us u t] by (auto simp: us)
    obtain h where h: "get_health (fail_all ts host port m) host port = Some h" "sh_failures h = int (length ts)"
        "sh_last_failure h = u" "sh_unavailable h = (int (length ts) \<ge> hm_max_failures m)"
      using snoc.IH [OF False c(1)] us by auto
    then show ?thesis using failure_in_window [OF h(1), of t] c(2) by auto
  qed
qed simp

text \<open>A server is taken out of rotation by repeated failures and comes back: after any burst of
  failures of a fresh server, each within the window of the previous one, the monitor answers that
  the server is unavailable exactly when there were at least \<^verbatim>\<open>max_failures\<close> of them and at
  most \<^verbatim>\<open>fail_timeout\<close> seconds have passed since the last; a success makes it available at
  once.\<close>

theorem health_burst:
  assumes "get_health m host port = None" and "ts \<noteq> []" and "close_times (hm_fail_timeout m) ts"
  shows "fst (is_available now host port (fail_all ts host port m))
      = (int (length ts) < hm_max_failures m \<or> now - last ts > hm_fail_timeout m)
    \<and> fst (is_available now host port (record_success host port (fail_all ts host port m)))"
proof -
  let ?m = "fail_all ts host port m"
  obtain h where h: "get_health ?m host port = Some h"
      "sh_unavailable h = (int (length ts) \<ge> hm_max_failures m)" "sh_unavailable h \<longrightarrow> sh_unavailable_since h = last ts"
    using fail_all_state [OF assms] by blast
  then show ?thesis by (auto simp: is_available_def record_success_def get_health_def)
qed

theorem health_burst_witness:
  "\<not> fst (is_available 105 ''h'' 80 (fail_all [100, 101, 102] ''h'' 80 (hm_init 3 10)))
   \<and> fst (is_available 113 ''h'' 80 (fail_all [100, 101, 102] ''h'' 80 (hm_init 3 10)))"
  using health_burst [of "hm_init 3 10" "''h''" 80 "[100, 101, 102]" 105]
    health_burst [of "hm_init 3 10" "''h''" 80 "[100, 101, 102]" 113]
  by (simp add: hm_init_def get_health_def)

section \<open>Rate limiter\<close>

record rate_window =
  rw_count :: int
  rw_start :: time

record rate_limiter =
  rt_zone_size :: nat
  rt_windows :: "(string, rate_window) dict"
  rt_bursts :: "(string, time) dict"

definition rate_init :: "nat \<Rightarrow> rate_limiter" where
  "rate_init zone_size = \<lparr>rt_zone_size = zone_size, rt_windows = [], rt_bursts = []\<rparr>"

definition allow :: "time \<Rightarrow> string \<Rightarrow> real \<Rightarrow> real \<Rightarrow> rate_limiter \<Rightarrow> bool \<times> rate_limiter" where
  "allow now key rate burst r =
     (if rate \<le> 0 then (True, r)
      else
        (let w0 = (case dict_get (rt_windows r) key of
                     None \<Rightarrow> \<lparr>rw_count = 0, rw_start = now\<rparr>
                   | Some w \<Rightarrow> if now - rw_start w > 1 then \<lparr>rw_count = 0, rw_start = now\<rparr> else w);
             w1 = w0\<lparr>rw_count := rw_count w0 + 1\<rparr>;
             r' = r\<lparr>rt_windows := dict_set key w1 (rt_windows r)\<rparr>;
             effective_limit = rate + max 0 burst
         in if of_int (rw_count w1) \<le> effective_limit then (True, r')
            else if burst > 0 \<and> now < dict_get_or (rt_bursts r) key 0 then (True, r')
            else (False, r')))"

definition set_burst :: "time \<Rightarrow> string \<Rightarrow> time \<Rightarrow> rate_limiter \<Rightarrow> rate_limiter" where
  "set_burst now key burst_duration r = r\<lparr>rt_bursts := dict_set key (now + burst_duration) (rt_bursts r)\<rparr>"

definition cleanup :: "time \<Rightarrow> rate_limiter \<Rightarrow> rate_limiter" where
  "cleanup now r =
     (let ws = filter (\<lambda>p. \<not> now - rw_start (snd p) > 10) (rt_windows r);
          bs = filter (\<lambda>p. \<not> now > snd p) (rt_bursts r);
          ws' = (if length ws > rt_zone_size r then drop (length ws - rt_zone_size r) ws else ws)
      in r\<lparr>rt_windows := ws', rt_bursts := bs\<rparr>)"

primrec allow_run :: "string \<Rightarrow> real \<Rightarrow> real \<Rightarrow> time list \<Rightarrow> rate_limiter \<Rightarrow> bool list \<times> rate_limiter" where
  "allow_run key rate burst [] r = ([], r)"
| "allow_run key rate burst (t # ts) r =
     (case allow t key rate burst r of (b, r') \<Rightarrow> (case allow_run key rate burst ts r' of (bs, r'') \<Rightarrow> (b # bs, r'')))"

lemma allow_in_window:
  assumes "rate > 0" "dict_get (rt_windows r) key = Some w" "now - rw_start w \<le> 1"
    and "\<not> (burst > 0 \<and> now < dict_get_or (rt_bursts r) key 0)"
  shows "allow now key rate burst r = (of_int (rw_count w + 1) \<le> rate + max 0 burst,
    r\<lparr>rt_windows := dict_set key (w\<lparr>rw_count := rw_count w + 1\<rparr>) (rt_windows r)\<rparr>)"
  using assms by (auto simp: allow_def Let_def)

lemma allow_run_in_window:
  assumes "rate > 0" "dict_get (rt_windows r) key = Some w" "\<forall>t \<in> set ts. t - rw_start w \<le> 1"
    and "\<forall>t \<in> set ts. \<not> (burst > 0 \<and> t < dict_get_or (rt_bursts r) key 0)"
  shows "fst (allow_run key rate burst ts r)
    = map (\<lambda>i. of_int (rw_count w + 1 + int i) \<le> rate + max 0 burst) [0..<length ts]"
  using assms(2-)
proof (induction ts arbitrary: r w)
  case (Cons t ts)
  let ?r = "r\<lparr>rt_windows := dict_set key (w\<lparr>rw_count := rw_count w + 1\<rparr>) (rt_windows r)\<rparr>"
  have a: "allow t key rate burst r = (of_int (rw_count w + 1) \<le> rate + max 0 burst, ?r)"
    using assms(1) Cons.prems by (intro allow_in_window) auto
  have "fst (allow_run key rate burst ts ?r)
      = map (\<lambda>i. of_int (rw_count w + 1 + 1 + int i) \<le> rate + max 0 burst) [0..<length ts]"
    using Cons.IH [of ?r "w\<lparr>rw_count := rw_count w + 1\<rparr>"] Cons.prems by simp
  then show ?case unfolding allow_run.simps a
    by (simp add: split_beta upt_rec [of 0 "Suc (length ts)"] map_Suc_upt [symmetric] comp_def add.commute add.left_commute del: upt_Suc)
qed simp

lemma count_le_limit:
  "length (filter id (map (\<lambda>i. of_int (1 + int i) \<le> (l :: real)) [0..<n])) = min n (nat \<lfloor>l\<rfloor>)"
proof (induction n)
  case (Suc n)
  have "(of_int (1 + int n) \<le> l) \<longleftrightarrow> n < nat \<lfloor>l\<rfloor>" by linarith
  then show ?case using Suc by simp
qed simp



lemma allow_other_keys:
  "key \<noteq> k \<Longrightarrow> dict_get (rt_windows (snd (allow now key rate burst r))) k = dict_get (rt_windows r) k"
  by (simp add: allow_def Let_def)

lemma cleanup_bounded: "length (rt_windows (cleanup now r)) \<le> rt_zone_size r"
  by (simp add: cleanup_def Let_def)

end
