(* ===== verification/Text.thy ===== *)
theory Text
  imports Protocol
begin

text \<open>
  The operations of Python's \<^verbatim>\<open>str\<close> that the configuration, cache and HTTP code uses beyond those
  of the request validators: substring test, \<^verbatim>\<open>split\<close>, \<^verbatim>\<open>partition\<close> and
  \<^verbatim>\<open>int(text)\<close> (on ASCII digits).
\<close>

fun contains :: "string \<Rightarrow> string \<Rightarrow> bool" where
  "contains sub [] = (sub = [])"
| "contains sub (c # s) = (starts_with sub (c # s) \<or> contains sub s)"

text \<open>The text before the first occurrence of a non-empty separator and the text after it.\<close>

function cut :: "string \<Rightarrow> string \<Rightarrow> (string \<times> string) option" where
  "cut sep s =
     (if starts_with sep s then Some ([], drop (length sep) s)
      else (case s of [] \<Rightarrow> None | c # t \<Rightarrow> map_option (\<lambda>p. (c # fst p, snd p)) (cut sep t)))"
  by auto
termination by (relation "measure (\<lambda>(sep, s). length s)") auto

declare cut.simps [simp del]

definition partition :: "string \<Rightarrow> string \<Rightarrow> string \<times> string \<times> string" where
  "partition sep s = (case cut sep s of None \<Rightarrow> (s, [], []) | Some (a, b) \<Rightarrow> (a, sep, b))"

lemma starts_with_append: "starts_with p (p @ s)"
  by (simp add: starts_with_def)

lemma starts_with_split: "starts_with sep s \<Longrightarrow> s = sep @ drop (length sep) s"
  by (metis append_take_drop_id starts_with_def)

lemma cut_Some: "cut sep s = Some (a, b) \<Longrightarrow> s = a @ sep @ b"
proof (induction sep s arbitrary: a b rule: cut.induct)
  case (1 sep s)
  show ?case
  proof (cases "starts_with sep s")
    case True
    then show ?thesis using "1.prems" starts_with_split [OF True] by (simp add: cut.simps [of sep s])
  next
    case False
    then obtain c t a' where s: "s = c # t" "a = c # a'" "cut sep t = Some (a', b)"
      using "1.prems" by (auto simp: cut.simps [of sep s] split: list.splits)
    then show ?thesis using "1.IH" [OF False s(1,3)] by simp
  qed
qed

lemma cut_shorter: "cut sep s = Some (a, b) \<Longrightarrow> sep \<noteq> [] \<Longrightarrow> length b < length s"
  by (drule cut_Some) simp

function split_on :: "string \<Rightarrow> string \<Rightarrow> string list" where
  "split_on sep s =
     (if sep = [] then [s] else (case cut sep s of None \<Rightarrow> [s] | Some (a, b) \<Rightarrow> a # split_on sep b))"
  by auto
termination by (relation "measure (\<lambda>(sep, s). length s)") (auto dest: cut_shorter)

declare split_on.simps [simp del]

lemma split_on_not_Nil [simp]: "split_on sep s \<noteq> []"
  by (subst split_on.simps) (auto split: option.splits)

text \<open>\<^verbatim>\<open>s.split(sep, n)\<close>, which splits at most \<open>n\<close> times.\<close>

fun split_max :: "string \<Rightarrow> nat \<Rightarrow> string \<Rightarrow> string list" where
  "split_max sep 0 s = [s]"
| "split_max sep (Suc n) s = (case cut sep s of None \<Rightarrow> [s] | Some (a, b) \<Rightarrow> a # split_max sep n b)"

fun digits_value :: "nat \<Rightarrow> string \<Rightarrow> nat option" where
  "digits_value acc [] = Some acc"
| "digits_value acc (c # s) =
     (if is_digit c then digits_value (10 * acc + (of_char c - 48)) s
      else if c = CHR ''_'' then
        (case s of [] \<Rightarrow> None | d # t \<Rightarrow> if is_digit d then digits_value (10 * acc + (of_char d - 48)) t else None)
      else None)"

definition unsigned_int :: "string \<Rightarrow> nat option" where
  "unsigned_int s = (case s of [] \<Rightarrow> None | c # _ \<Rightarrow> if is_digit c then digits_value 0 s else None)"

definition py_int :: "string \<Rightarrow> int option" where
  "py_int text =
     (case strip text of
        [] \<Rightarrow> None
      | c # s \<Rightarrow>
          if c = CHR ''-'' then map_option (\<lambda>n. - int n) (unsigned_int s)
          else if c = CHR ''+'' then map_option int (unsigned_int s)
          else map_option int (unsigned_int (c # s)))"

lemma digits_value_app:
  "list_all is_digit a \<Longrightarrow> digits_value acc (a @ b) = digits_value (foldl (\<lambda>n c. 10 * n + (of_char c - 48)) acc a) b"
  by (induction a arbitrary: acc) auto

lemma digit_not_space: "is_digit c \<Longrightarrow> \<not> is_space c"
  by (auto simp: is_digit_def is_space_def Let_def)

lemma strip_plain: "list_all (\<lambda>c. \<not> is_space c) s \<Longrightarrow> strip s = s"
proof -
  assume d: "list_all (\<lambda>c. \<not> is_space c) s"
  then have "lstrip s = s" by (cases s) (auto simp: lstrip_def)
  moreover have "rstrip s = s"
    using d by (cases s rule: rev_cases) (auto simp: rstrip_def)
  ultimately show ?thesis by (simp add: strip_def)
qed

lemma strip_digits: "list_all is_digit s \<Longrightarrow> strip s = s"
  by (rule strip_plain) (auto simp: list_all_iff digit_not_space)

lemma unsigned_int_dec: "unsigned_int (dec_digits n) = Some n"
proof -
  have "digits_value 0 (dec_digits n) = Some (nat_of_digits (dec_digits n))"
    using digits_value_app [OF dec_digits_digits, of 0 n "[]"]
    by (simp add: nat_of_digits_def mult.commute)
  then show ?thesis
    using dec_digits_first [of n] by (auto simp: unsigned_int_def nat_of_dec_digits)
qed

lemma py_int_dec [simp]: "py_int (dec_digits n) = Some (int n)"
proof -
  obtain c t where c: "dec_digits n = c # t" "is_digit c" using dec_digits_first by blast
  then have "c \<noteq> CHR ''-''" "c \<noteq> CHR ''+''" by (auto simp: is_digit_def)
  moreover have "strip (c # t) = c # t" using strip_digits [OF dec_digits_digits [of n]] by (simp add: c)
  ultimately show ?thesis
    using unsigned_int_dec [of n] c by (simp add: py_int_def)
qed

lemma cut_char: "c \<notin> set a \<Longrightarrow> cut [c] (a @ c # b) = Some (a, b)"
  by (induction a) (auto simp: cut.simps starts_with_def)

lemma cut_absent: "c \<notin> set a \<Longrightarrow> cut [c] a = None"
  by (induction a) (auto simp: cut.simps starts_with_def)

lemma split_on_char: "c \<notin> set a \<Longrightarrow> split_on [c] (a @ c # b) = a # split_on [c] b"
  by (subst split_on.simps) (simp add: cut_char)

lemma split_on_absent: "c \<notin> set a \<Longrightarrow> split_on [c] a = [a]"
  by (subst split_on.simps) (simp add: cut_absent)

lemma split_join: "list_all (\<lambda>s. c \<notin> set s) ss \<Longrightarrow> ss \<noteq> [] \<Longrightarrow> split_on [c] (join [c] ss) = ss"
proof (induction ss)
  case (Cons s ss)
  then show ?case by (cases "ss = []") (simp_all add: split_on_absent join_Cons split_on_char)
qed simp

section \<open>Slices and searching\<close>

text \<open>Indices of Python sequences: a negative one counts from the end, and both ends of a slice are
  clipped.  \<^verbatim>\<open>find\<close> returns -1 when there is no occurrence.\<close>

definition py_index :: "nat \<Rightarrow> int \<Rightarrow> nat" where
  "py_index n i = (if i < 0 then nat (i + int n) else min (nat i) n)"

definition py_slice :: "'a list \<Rightarrow> int \<Rightarrow> int \<Rightarrow> 'a list" where
  "py_slice xs i j =
     (let a = py_index (length xs) i; b = py_index (length xs) j in take (b - a) (drop a xs))"

fun find_sub :: "'a list \<Rightarrow> 'a list \<Rightarrow> nat option" where
  "find_sub sub [] = (if sub = [] then Some 0 else None)"
| "find_sub sub (x # xs) =
     (if take (length sub) (x # xs) = sub then Some 0 else map_option Suc (find_sub sub xs))"

definition py_find :: "'a list \<Rightarrow> 'a list \<Rightarrow> int \<Rightarrow> int" where
  "py_find xs sub i =
     (let a = py_index (length xs) i in
      if int (length xs) < i then -1
      else (case find_sub sub (drop a xs) of None \<Rightarrow> -1 | Some k \<Rightarrow> int (a + k)))"

lemma py_index_nonneg: "0 \<le> i \<Longrightarrow> py_index n i = min (nat i) n"
  by (simp add: py_index_def)

lemma py_index_le [simp]: "py_index n i \<le> n"
  by (cases "i < 0") (simp_all add: py_index_def nat_le_iff)

lemma py_slice_mid: "py_slice (a @ b @ c) (int (length a)) (int (length a) + int (length b)) = b"
  by (simp add: py_slice_def py_index_def Let_def nat_int_add)

lemma find_sub_bound: "find_sub sub xs = Some k \<Longrightarrow> k + length sub \<le> length xs"
proof (induction xs arbitrary: k)
  case (Cons x xs)
  show ?case
  proof (cases "take (length sub) (x # xs) = sub")
    case True
    then have "length sub \<le> length (x # xs)" by (metis length_take min.cobounded1)
    then show ?thesis using Cons.prems True by (simp del: take_Cons)
  next
    case False
    then show ?thesis using Cons by (auto simp del: take_Cons)
  qed
qed (simp split: if_splits)

lemma py_find_bound:
  assumes "py_find xs sub i \<noteq> -1"
  shows "int (py_index (length xs) i) \<le> py_find xs sub i \<and> py_find xs sub i + int (length sub) \<le> int (length xs)"
proof -
  obtain k where k: "find_sub sub (drop (py_index (length xs) i) xs) = Some k" and i: "i \<le> int (length xs)"
    using assms by (auto simp: py_find_def Let_def split: option.splits if_splits)
  have "py_index (length xs) i + k + length sub \<le> length xs"
    using find_sub_bound [OF k] py_index_le [of "length xs" i] unfolding length_drop by linarith
  then show ?thesis using k i by (simp add: py_find_def Let_def)
qed

text \<open>A separator is found right after a text in which it does not begin.\<close>

definition clean :: "'a list \<Rightarrow> 'a list \<Rightarrow> bool" where
  "clean sub xs \<longleftrightarrow> (\<forall>i < length xs. take (length sub) (drop i (xs @ sub)) \<noteq> sub)"

lemma clean_Cons: "clean sub (x # xs) \<longleftrightarrow> take (length sub) (x # xs @ sub) \<noteq> sub \<and> clean sub xs"
  unfolding clean_def by (simp add: all_less_Suc_split del: take_Cons)

lemma clean_Nil [simp]: "clean sub []"
  by (simp add: clean_def)

lemma find_sub_clean: "clean sub xs \<Longrightarrow> sub \<noteq> [] \<Longrightarrow> find_sub sub (xs @ sub @ ys) = Some (length xs)"
proof (induction xs)
  case Nil
  then show ?case by (cases sub) auto
next
  case (Cons x xs)
  have "take (length sub) (x # xs @ sub @ ys) = take (length sub) (x # xs @ sub)"
    by (simp add: take_Cons split: nat.splits)
  then show ?case using Cons by (simp add: clean_Cons del: take_Cons)
qed

lemma clean_no_first:
  assumes "x \<notin> set xs" and "sub = x # r"
  shows "clean sub xs"
  unfolding clean_def
proof (intro allI impI)
  fix i
  assume i: "i < length xs"
  then obtain y ys where y: "drop i xs = y # ys" by (metis Cons_nth_drop_Suc)
  then have "y \<in> set xs" by (metis in_set_dropD list.set_intros(1))
  then show "take (length sub) (drop i (xs @ sub)) \<noteq> sub" using assms i y by auto
qed

section \<open>Decoding with replacement\<close>

text \<open>\<^verbatim>\<open>bytes.decode("utf-8", errors="replace")\<close>: a well-formed sequence is taken as it is, and
  the longest beginning of a sequence that goes wrong (at least one byte) becomes U+FFFD.  The
  first function tells whether the bytes begin with a well-formed sequence, and how many bytes
  are consumed.\<close>

definition byte_at :: "bytes \<Rightarrow> nat \<Rightarrow> nat \<Rightarrow> nat \<Rightarrow> bool" where
  "byte_at bs i lo hi \<longleftrightarrow> i < length bs \<and> lo \<le> unat (bs ! i) \<and> unat (bs ! i) < hi"

definition utf8_step :: "byte \<Rightarrow> bytes \<Rightarrow> bool \<times> nat" where
  "utf8_step a bs =
     (let n = unat a in
      if n < 128 then (True, 1)
      else if 194 \<le> n \<and> n < 224 then (if byte_at bs 0 128 192 then (True, 2) else (False, 1))
      else if 224 \<le> n \<and> n < 240 then
        (if \<not> byte_at bs 0 (if n = 224 then 160 else 128) (if n = 237 then 160 else 192) then (False, 1)
         else if \<not> byte_at bs 1 128 192 then (False, 2) else (True, 3))
      else if 240 \<le> n \<and> n < 245 then
        (if \<not> byte_at bs 0 (if n = 240 then 144 else 128) (if n = 244 then 144 else 192) then (False, 1)
         else if \<not> byte_at bs 1 128 192 then (False, 2)
         else if \<not> byte_at bs 2 128 192 then (False, 3) else (True, 4))
      else (False, 1))"

function utf8_replace :: "bytes \<Rightarrow> string" where
  "utf8_replace [] = []"
| "utf8_replace (a # bs) =
     (case utf8_step a bs of
        (ok, k) \<Rightarrow> (if ok then decode_raw (take k (a # bs)) else [CHR 0xEF, CHR 0xBF, CHR 0xBD])
                    @ utf8_replace (drop (k - 1) bs))"
  by pat_completeness auto
termination by (relation "measure length") auto

lemma utf8_replace_ascii: "list_all (\<lambda>b. unat b < 128) bs \<Longrightarrow> utf8_replace bs = decode_raw bs"
  by (induction bs) (auto simp: utf8_step_def decode_raw_def)

lemma utf8_replace_app:
  "list_all (\<lambda>b. unat b < 128) xs \<Longrightarrow> utf8_replace (xs @ ys) = decode_raw xs @ utf8_replace ys"
  by (induction xs) (auto simp: utf8_step_def decode_raw_def)

lemma utf8_valid_step: "utf8_valid (a # bs) \<Longrightarrow> \<exists>k. utf8_step a bs = (True, Suc k) \<and> utf8_valid (drop k bs)"
proof -
  assume v: "utf8_valid (a # bs)"
  consider (one) "unat a < 128" | (two) "194 \<le> unat a" "unat a < 224" | (three) "224 \<le> unat a" "unat a < 240"
    | (four) "240 \<le> unat a" "unat a < 245"
    using v by (auto simp: Let_def split: if_splits)
  then show ?thesis
  proof cases
    case one
    then show ?thesis using v by (intro exI [of _ 0]) (simp add: utf8_step_def)
  next
    case two
    then show ?thesis using v
      by (intro exI [of _ 1]) (auto simp: utf8_step_def byte_at_def cont_byte_def split: list.splits)
  next
    case three
    then show ?thesis using v
      by (intro exI [of _ 2]) (auto simp: utf8_step_def byte_at_def cont_byte_def Let_def split: list.splits)
  next
    case four
    then show ?thesis using v
      by (intro exI [of _ 3]) (auto simp: utf8_step_def byte_at_def cont_byte_def Let_def split: list.splits)
  qed
qed

lemma utf8_replace_valid: "utf8_valid bs \<Longrightarrow> utf8_replace bs = decode_raw bs"
proof (induction bs rule: length_induct)
  case (1 bs)
  show ?case
  proof (cases bs)
    case (Cons a r)
    obtain k where k: "utf8_step a r = (True, Suc k)" "utf8_valid (drop k r)"
      using utf8_valid_step "1.prems" Cons by blast
    have "utf8_replace (drop k r) = decode_raw (drop k r)" using "1.IH" k(2) Cons by simp
    moreover have "decode_raw (take (Suc k) (a # r)) @ decode_raw (drop k r) = decode_raw (a # r)"
      by (simp add: decode_raw_def flip: map_append)
    ultimately show ?thesis using Cons k(1) by simp
  qed (simp add: decode_raw_def)
qed

section \<open>Base64\<close>

text \<open>\<^verbatim>\<open>binascii.a2b_base64\<close> as \<^verbatim>\<open>base64.b64decode\<close> calls it: characters outside the
  alphabet are skipped, a completed padding ends the input, and a truncated group is an error.  The
  arguments are the position in the group, the bits left over and the number of pads seen.\<close>

fun a2b_loop :: "nat \<Rightarrow> nat \<Rightarrow> nat \<Rightarrow> string \<Rightarrow> bytes option" where
  "a2b_loop quad left pads [] = (if quad = 0 then Some [] else None)"
| "a2b_loop quad left pads (c # s) =
     (if c = CHR ''='' then
        (if 2 \<le> quad \<and> 4 \<le> quad + pads + 1 then Some []
         else a2b_loop quad left (if 2 \<le> quad then pads + 1 else pads) s)
      else
        (case b64_val c of
           None \<Rightarrow> a2b_loop quad left pads s
         | Some v \<Rightarrow>
             if quad = 0 then a2b_loop 1 v 0 s
             else if quad = 1 then map_option (\<lambda>bs. word_of_nat (left * 4 + v div 16) # bs) (a2b_loop 2 (v mod 16) 0 s)
             else if quad = 2 then map_option (\<lambda>bs. word_of_nat (left * 16 + v div 4) # bs) (a2b_loop 3 (v mod 4) 0 s)
             else map_option (\<lambda>bs. word_of_nat (left * 64 + v) # bs) (a2b_loop 0 0 0 s)))"

definition b64decode :: "string \<Rightarrow> bytes result" where
  "b64decode s =
     (if \<not> list_all (\<lambda>c. of_char c < (128 :: nat)) s
      then Inl (ValueError ''string argument should contain only ASCII characters'')
      else (case a2b_loop 0 0 0 s of None \<Rightarrow> Inl (ValueError ''Incorrect padding'') | Some bs \<Rightarrow> Inr bs))"

lemma b64_val_char: "n < 64 \<Longrightarrow> b64_val (b64_char n) = Some n"
  by (auto simp: b64_val_def b64_char_def Let_def of_char_of)

lemma b64_char_not_pad: "n < 64 \<Longrightarrow> b64_char n \<noteq> CHR ''=''"
  using b64_val_char [of n] by (auto simp: b64_val_def)

lemma a2b_char: "n < 64 \<Longrightarrow> a2b_loop q l p (b64_char n # s) =
    (if q = 0 then a2b_loop 1 n 0 s
     else if q = 1 then map_option (\<lambda>bs. word_of_nat (l * 4 + n div 16) # bs) (a2b_loop 2 (n mod 16) 0 s)
     else if q = 2 then map_option (\<lambda>bs. word_of_nat (l * 16 + n div 4) # bs) (a2b_loop 3 (n mod 4) 0 s)
     else map_option (\<lambda>bs. word_of_nat (l * 64 + n) # bs) (a2b_loop 0 0 0 s))"
  by (simp add: b64_val_char b64_char_not_pad)

lemma byte_parts: "(word_of_nat (unat b div k) * of_nat k + word_of_nat (unat b mod k) :: byte) = b"
proof -
  have "(word_of_nat (unat b div k) * of_nat k + word_of_nat (unat b mod k) :: byte)
      = word_of_nat (unat b div k * k + unat b mod k)" by (simp only: of_nat_add of_nat_mult)
  then show ?thesis by simp
qed

lemma sextets:
  fixes x y z :: nat
  assumes "x < 256" "y < 256" "z < 256"
  shows "x div 4 < 64" "x mod 4 * 16 < 64" "x mod 4 * 16 + y div 16 < 64" "y mod 16 * 4 < 64"
    "y mod 16 * 4 + z div 64 < 64" "z mod 64 < 64"
proof -
  have "x div 4 < 64" "y div 16 < 16" "z div 64 < 4" "x mod 4 < 4" "y mod 16 < 16"
    using assms by (simp_all add: less_mult_imp_div_less)
  then show "x div 4 < 64" "x mod 4 * 16 < 64" "x mod 4 * 16 + y div 16 < 64" "y mod 16 * 4 < 64"
    "y mod 16 * 4 + z div 64 < 64" "z mod 64 < 64"
    by simp_all
qed

lemma byte_div [simp]:
  "unat (b :: byte) div 16 mod 16 = unat b div 16" "unat b div 16 div 16 = 0" "unat b div 256 = 0"
  "unat b div 64 mod 4 = unat b div 64" "unat b div 64 div 4 = 0"
  by (simp_all add: less_mult_imp_div_less div_mult2_eq [symmetric])

lemmas byte_join [simp] = byte_parts [of _ 4, simplified] byte_parts [of _ 16, simplified] byte_parts [of _ 64, simplified]

lemma a2b_encode: "a2b_loop 0 0 0 (b64encode bs) = Some bs"
proof (induction bs rule: b64encode.induct)
  case (2 a)
  show ?case by (simp add: a2b_char sextets [of "unat a" 0 0] del: a2b_loop.simps) simp
next
  case (3 a b)
  note x = sextets [of "unat a" "unat b" 0]
  show ?case by (simp add: a2b_char x del: a2b_loop.simps) simp
next
  case (4 a b c s)
  note x = sextets [of "unat a" "unat b" "unat c"]
  show ?case by (simp add: a2b_char x 4 del: a2b_loop.simps)
qed simp

lemma b64_char_ascii [simp]: "n < 64 \<Longrightarrow> of_char (b64_char n) < (128 :: nat)"
  by (auto simp: b64_char_def of_char_of)

lemma b64encode_ascii: "list_all (\<lambda>c. of_char c < (128 :: nat)) (b64encode bs)"
proof (induction bs rule: b64encode.induct)
  case (2 a)
  show ?case by (simp add: sextets [of "unat a" 0 0])
next
  case (3 a b)
  show ?case by (simp add: sextets [of "unat a" "unat b" 0])
next
  case (4 a b c s)
  then show ?case by (simp add: sextets [of "unat a" "unat b" "unat c"])
qed simp

lemma b64decode_b64encode [simp]: "b64decode (b64encode bs) = Inr bs"
  by (simp add: b64decode_def b64encode_ascii a2b_encode)

section \<open>Hexadecimal digits\<close>

lemma hex2_val:
  obtains h l where "hex2 b = [h, l]" "hex_val h = Some (unat b div 16)" "hex_val l = Some (unat b mod 16)"
  using unat_byte_less [of b] by (simp add: hex2_def hex_val_hex_digit less_mult_imp_div_less)

lemma hex_val_plain: "hex_val c \<noteq> None \<Longrightarrow> \<not> is_space c \<and> c \<noteq> CHR '':''"
  by (auto simp: hex_val_def is_space_def Let_def split: if_splits)

end
