(* ===== verification/Cache.thy ===== *)
theory Cache
  imports Text "HOL-Library.List_Lexorder" "HOL-Library.Char_ord"
begin

text \<open>
  The response cache of the reverse proxy: \<^verbatim>\<open>proxy/cache/storage.py\<close> (entries in memory with
  LRU eviction, mirrored to files), \<^verbatim>\<open>proxy/cache/metadata.py\<close> (the index) and
  \<^verbatim>\<open>proxy/cache/manager.py\<close> (keys, cacheability, lifetimes).  SHA-256, the parser of HTTP
  dates and the outcome of writing a file are arguments.  A cache file is the record of what
  \<^verbatim>\<open>store\<close> writes into it, or \<open>CorruptFile\<close> when its header cannot be read back.
\<close>

section \<open>Storage\<close>

record cache_entry =
  ce_key :: string
  ce_status :: int
  ce_headers :: "(string, string) dict"
  ce_body :: bytes
  ce_ttl :: int
  ce_created_at :: time
  ce_last_access :: time

datatype cache_file = CorruptFile | CacheFile cache_entry

record disk_cache =
  dc_path :: string
  dc_max_size :: int
  dc_entries :: "(string, cache_entry) dict"
  dc_current_size :: int
  dc_files :: "(string, cache_file) dict"

definition new_entry :: "time \<Rightarrow> string \<Rightarrow> int \<Rightarrow> (string, string) dict \<Rightarrow> bytes \<Rightarrow> int \<Rightarrow> cache_entry" where
  "new_entry now key status headers body ttl =
     \<lparr>ce_key = key, ce_status = status, ce_headers = headers, ce_body = body, ce_ttl = ttl,
      ce_created_at = now, ce_last_access = now\<rparr>"

definition expired :: "time \<Rightarrow> cache_entry \<Rightarrow> bool" where
  "expired now e \<longleftrightarrow> now - ce_created_at e > of_int (ce_ttl e)"

definition entry_size :: "cache_entry \<Rightarrow> int" where
  "entry_size e = int (length (ce_body e))"

definition dc_init :: "string \<Rightarrow> int \<Rightarrow> (string, cache_file) dict \<Rightarrow> disk_cache" where
  "dc_init path max_size files =
     \<lparr>dc_path = path, dc_max_size = max_size, dc_entries = [], dc_current_size = 0, dc_files = files\<rparr>"

definition entry_path :: "(bytes \<Rightarrow> string) \<Rightarrow> disk_cache \<Rightarrow> string \<Rightarrow> string" where
  "entry_path sha256 c key = (let h = sha256 (encode key) in dc_path c @ ''/'' @ take 2 h @ ''/'' @ h)"

definition remove_entry :: "(bytes \<Rightarrow> string) \<Rightarrow> string \<Rightarrow> disk_cache \<Rightarrow> disk_cache" where
  "remove_entry sha256 key c =
     (let c1 = (case dict_get (dc_entries c) key of
                  None \<Rightarrow> c
                | Some e \<Rightarrow> c\<lparr>dc_entries := dict_del key (dc_entries c),
                              dc_current_size := max 0 (dc_current_size c - entry_size e)\<rparr>)
      in c1\<lparr>dc_files := dict_del (entry_path sha256 c key) (dc_files c1)\<rparr>)"

definition evict_one :: "(bytes \<Rightarrow> string) \<Rightarrow> disk_cache \<Rightarrow> disk_cache" where
  "evict_one sha256 c =
     (if dc_entries c = [] then c
      else remove_entry sha256 (fst (arg_min_list (\<lambda>p. ce_last_access (snd p)) (dc_entries c))) c)"

lemma remove_entries [simp]: "dc_entries (remove_entry sha key c) = dict_del key (dc_entries c)"
proof (cases "dict_get (dc_entries c) key")
  case None
  then have "key \<notin> fst ` set (dc_entries c)" by (simp add: map_of_eq_None_iff)
  then show ?thesis using None by (simp add: remove_entry_def)
qed (simp add: remove_entry_def)

lemma length_evict: "dc_entries c \<noteq> [] \<Longrightarrow> length (dc_entries (evict_one sha c)) < length (dc_entries c)"
proof -
  assume ne: "dc_entries c \<noteq> []"
  let ?p = "arg_min_list (\<lambda>p. ce_last_access (snd p)) (dc_entries c)"
  have "?p \<in> set (dc_entries c)" using ne by (rule arg_min_list_in)
  then show ?thesis using ne by (auto simp: evict_one_def dict_del_def intro: length_filter_less)
qed

function make_room :: "(bytes \<Rightarrow> string) \<Rightarrow> int \<Rightarrow> disk_cache \<Rightarrow> disk_cache" where
  "make_room sha256 n c =
     (if dc_current_size c + n > dc_max_size c \<and> dc_entries c \<noteq> [] then make_room sha256 n (evict_one sha256 c) else c)"
  by auto
termination by (relation "measure (\<lambda>(sha, n, c). length (dc_entries c))") (auto intro: length_evict)

declare make_room.simps [simp del]

definition store :: "(bytes \<Rightarrow> string) \<Rightarrow> time \<Rightarrow> bool \<Rightarrow> string \<Rightarrow> int \<Rightarrow> (string, string) dict \<Rightarrow> bytes \<Rightarrow> int
    \<Rightarrow> disk_cache \<Rightarrow> disk_cache" where
  "store sha256 now write_ok key status headers body ttl c =
     (let e = new_entry now key status headers body ttl;
          c1 = make_room sha256 (entry_size e) c
      in if \<not> write_ok then c1
         else c1\<lparr>dc_files := dict_set (entry_path sha256 c key) (CacheFile e) (dc_files c1),
                 dc_entries := dict_set key e (dc_entries c1),
                 dc_current_size := dc_current_size c1 + entry_size e\<rparr>)"

definition retrieve :: "(bytes \<Rightarrow> string) \<Rightarrow> time \<Rightarrow> string \<Rightarrow> disk_cache
    \<Rightarrow> (int \<times> (string, string) dict \<times> bytes) option \<times> disk_cache" where
  "retrieve sha256 now key c =
     (case dict_get (dc_entries c) key of
        Some e \<Rightarrow>
          if expired now e then (None, remove_entry sha256 key c)
          else (Some (ce_status e, ce_headers e, ce_body e),
                c\<lparr>dc_entries := dict_upd key (\<lambda>e. e\<lparr>ce_last_access := now\<rparr>) (dc_entries c)\<rparr>)
      | None \<Rightarrow>
          (case dict_get (dc_files c) (entry_path sha256 c key) of
             None \<Rightarrow> (None, c)
           | Some CorruptFile \<Rightarrow> (None, c)
           | Some (CacheFile e) \<Rightarrow>
               if expired now e then (None, c\<lparr>dc_files := dict_del (entry_path sha256 c key) (dc_files c)\<rparr>)
               else (Some (ce_status e, ce_headers e, ce_body e), c)))"

definition purge :: "(bytes \<Rightarrow> string) \<Rightarrow> string \<Rightarrow> disk_cache \<Rightarrow> nat \<times> disk_cache" where
  "purge sha256 key_pattern c =
     (let keys = (if key_pattern = [] then dict_keys (dc_entries c)
                  else filter (starts_with key_pattern) (dict_keys (dc_entries c)))
      in (length keys, fold (remove_entry sha256) keys c))"

section \<open>Cache manager\<close>

definition CACHEABLE_STATUSES :: "int list" where
  "CACHEABLE_STATUSES = [200, 203, 204, 206, 300, 301, 404, 405, 410, 414, 501]"

definition CACHEABLE_METHODS :: "string list" where "CACHEABLE_METHODS = [''GET'', ''HEAD'']"

definition get_cache_key :: "(bytes \<Rightarrow> string) \<Rightarrow> string \<Rightarrow> string \<Rightarrow> (string, string) dict \<Rightarrow> string" where
  "get_cache_key sha256 meth path vary =
     sha256 (encode (join ''|'' ([upper meth, path] @
       map (\<lambda>k. k @ '':'' @ dict_get_or vary k []) (sort (dict_keys vary)))))"

definition is_cacheable :: "string \<Rightarrow> int \<Rightarrow> (string, string) dict \<Rightarrow> bool" where
  "is_cacheable meth status headers \<longleftrightarrow>
     (let cc = lower (dict_get_or headers ''cache-control'' []) in
      upper meth \<in> set CACHEABLE_METHODS \<and> status \<in> set CACHEABLE_STATUSES
      \<and> \<not> contains ''no-store'' cc \<and> \<not> contains ''no-cache'' cc \<and> \<not> contains ''private'' cc)"

definition directive_value :: "string \<Rightarrow> string \<Rightarrow> int option" where
  "directive_value name cc =
     (if contains name cc then
        (case split_on name cc of _ # v # _ \<Rightarrow> py_int (strip (hd (split_on '','' v))) | _ \<Rightarrow> None)
      else None)"

text \<open>\<open>parse_date\<close> is \<^verbatim>\<open>parsedate_to_datetime\<close> followed by \<^verbatim>\<open>timestamp()\<close>; \<open>None\<close> when it raises.\<close>

definition get_ttl :: "(string \<Rightarrow> time option) \<Rightarrow> time \<Rightarrow> int \<Rightarrow> (string, string) dict \<Rightarrow> int" where
  "get_ttl parse_date now default_ttl headers =
     (let cc = lower (dict_get_or headers ''cache-control'' []) in
      case directive_value ''max-age='' cc of
        Some n \<Rightarrow> n
      | None \<Rightarrow>
     (case directive_value ''s-maxage='' cc of
        Some n \<Rightarrow> n
      | None \<Rightarrow>
          (let expires = dict_get_or headers ''expires'' [] in
           if expires = [] then default_ttl
           else (case parse_date expires of
                   Some ts \<Rightarrow> max 0 (if ts - now \<ge> 0 then \<lfloor>ts - now\<rfloor> else \<lceil>ts - now\<rceil>)
                 | None \<Rightarrow> default_ttl))))"

definition is_fresh :: "(bytes \<Rightarrow> string) \<Rightarrow> time \<Rightarrow> string \<Rightarrow> disk_cache \<Rightarrow> bool \<times> disk_cache" where
  "is_fresh sha256 now key c = (case retrieve sha256 now key c of (r, c') \<Rightarrow> (r \<noteq> None, c'))"

definition is_stale :: "(bytes \<Rightarrow> string) \<Rightarrow> time \<Rightarrow> string \<Rightarrow> disk_cache \<Rightarrow> bool \<times> disk_cache" where
  "is_stale sha256 now key c = (case retrieve sha256 now key c of (r, c') \<Rightarrow> (r = None \<and> dict_has (dc_entries c') key, c'))"

section \<open>Metadata index\<close>

record entry_meta =
  em_filepath :: string
  em_key :: string
  em_size :: int
  em_status :: int
  em_created_at :: time
  em_last_access :: time
  em_ttl :: int

type_synonym metadata_index = "(string, entry_meta) dict"

definition mi_add :: "time \<Rightarrow> string \<Rightarrow> string \<Rightarrow> int \<Rightarrow> int \<Rightarrow> int \<Rightarrow> metadata_index \<Rightarrow> metadata_index" where
  "mi_add now key filepath sz status ttl =
     dict_set key \<lparr>em_filepath = filepath, em_key = key, em_size = sz, em_status = status,
                   em_created_at = now, em_last_access = now, em_ttl = ttl\<rparr>"

definition mi_get :: "time \<Rightarrow> string \<Rightarrow> metadata_index \<Rightarrow> entry_meta option \<times> metadata_index" where
  "mi_get now key ix =
     (let ix' = dict_upd key (\<lambda>e. e\<lparr>em_last_access := now\<rparr>) ix in (dict_get ix' key, ix'))"

definition mi_remove :: "string \<Rightarrow> metadata_index \<Rightarrow> metadata_index" where
  "mi_remove key ix = dict_del key ix"

definition mi_total_size :: "metadata_index \<Rightarrow> int" where
  "mi_total_size ix = sum_list (map em_size (dict_values ix))"

text \<open>\<^verbatim>\<open>rebuild_from_disk\<close>: the files in the order in which the directory scan finds them, their sizes and
  access times as the file system reports them.  A file whose header cannot be read is passed over.\<close>

definition meta_of_file :: "(string \<Rightarrow> int) \<Rightarrow> (string \<Rightarrow> time) \<Rightarrow> string \<Rightarrow> cache_entry \<Rightarrow> entry_meta" where
  "meta_of_file getsize getatime path e =
     \<lparr>em_filepath = path, em_key = ce_key e, em_size = getsize path, em_status = ce_status e,
      em_created_at = ce_created_at e, em_last_access = getatime path, em_ttl = ce_ttl e\<rparr>"

definition rebuild_from_disk :: "(string \<Rightarrow> int) \<Rightarrow> (string \<Rightarrow> time) \<Rightarrow> (string, cache_file) dict \<Rightarrow> metadata_index" where
  "rebuild_from_disk getsize getatime files =
     foldl (\<lambda>ix (path, f). case f of CorruptFile \<Rightarrow> ix
              | CacheFile e \<Rightarrow> dict_set (ce_key e) (meta_of_file getsize getatime path e) ix) [] files"

section \<open>Invariant\<close>

definition stored_size :: "disk_cache \<Rightarrow> int" where
  "stored_size c = sum_list (map entry_size (dict_values (dc_entries c)))"

definition cache_inv :: "disk_cache \<Rightarrow> bool" where
  "cache_inv c \<longleftrightarrow> dict_wf (dc_entries c) \<and> stored_size c \<le> dc_current_size c
     \<and> (stored_size c \<le> dc_max_size c \<or> length (dc_entries c) \<le> 1)"

lemma sum_list_del:
  fixes f :: "'v \<Rightarrow> int"
  assumes "dict_wf d" "map_of d k = Some v"
  shows "sum_list (map f (map snd (dict_del k d))) = sum_list (map f (map snd d)) - f v"
  using assms
proof (induction d)
  case (Cons p d)
  have "k \<notin> fst ` set d \<Longrightarrow> filter (\<lambda>q. fst q \<noteq> k) d = d" by (force simp: filter_id_conv)
  then show ?case using Cons by (cases p) (auto simp: dict_del_def split: if_splits)
qed simp

lemma sum_list_set:
  fixes f :: "'v \<Rightarrow> int"
  assumes "dict_wf d" "\<And>v. f v \<ge> 0"
  shows "sum_list (map f (map snd (dict_set k w d))) \<le> sum_list (map f (map snd d)) + f w"
  using assms(1)
proof (induction d)
  case (Cons p d)
  then show ?case using assms(2) [of "snd p"] by auto
qed simp

lemma entry_size_nonneg [simp]: "entry_size e \<ge> 0"
  by (simp add: entry_size_def)

lemma remove_inv:
  assumes "cache_inv c"
  shows "cache_inv (remove_entry sha key c) \<and> dc_max_size (remove_entry sha key c) = dc_max_size c
    \<and> dc_path (remove_entry sha key c) = dc_path c"
proof (cases "dict_get (dc_entries c) key")
  case None
  then show ?thesis using assms by (simp add: cache_inv_def remove_entry_def stored_size_def)
next
  case (Some e)
  have "stored_size (remove_entry sha key c) = stored_size c - entry_size e"
    using sum_list_del [OF _ Some, of entry_size] assms by (simp add: stored_size_def cache_inv_def)
  moreover have "length (dict_del key (dc_entries c)) \<le> length (dc_entries c)" by (rule length_dict_del_le)
  moreover have "stored_size c - entry_size e \<ge> 0"
    using calculation(1) sum_list_nonneg [of "map entry_size (dict_values (dict_del key (dc_entries c)))"]
    by (force simp: stored_size_def)
  ultimately show ?thesis using assms Some entry_size_nonneg [of e]
    by (auto simp: cache_inv_def remove_entry_def Let_def simp del: entry_size_nonneg)
qed

lemma evict_inv:
  assumes "cache_inv c"
  shows "cache_inv (evict_one sha c) \<and> dc_max_size (evict_one sha c) = dc_max_size c \<and> dc_path (evict_one sha c) = dc_path c"
  using remove_inv [OF assms] assms by (simp add: evict_one_def)

lemma make_room_inv:
  "cache_inv c \<Longrightarrow> cache_inv (make_room sha n c) \<and> dc_max_size (make_room sha n c) = dc_max_size c
     \<and> dc_path (make_room sha n c) = dc_path c
     \<and> (dc_current_size (make_room sha n c) + n \<le> dc_max_size c \<or> dc_entries (make_room sha n c) = [])"
proof (induction sha n c rule: make_room.induct)
  case (1 sha n c)
  show ?case
  proof (cases "dc_current_size c + n > dc_max_size c \<and> dc_entries c \<noteq> []")
    case True
    have "make_room sha n c = make_room sha n (evict_one sha c)" using True by (subst make_room.simps) simp
    then show ?thesis using 1 True evict_inv [of c sha] by simp
  next
    case False
    then have "make_room sha n c = c" by (subst make_room.simps) auto
    then show ?thesis using 1 False by auto
  qed
qed

lemma store_inv:
  assumes "cache_inv c"
  shows "cache_inv (store sha now ok key status headers body ttl c)
    \<and> dc_max_size (store sha now ok key status headers body ttl c) = dc_max_size c"
proof -
  let ?e = "new_entry now key status headers body ttl"
  let ?c = "make_room sha (entry_size ?e) c"
  note r = make_room_inv [OF assms, of sha "entry_size ?e"]
  have wf: "dict_wf (dc_entries ?c)" using r by (simp add: cache_inv_def)
  have le: "sum_list (map entry_size (map snd (dict_set key ?e (dc_entries ?c)))) \<le> stored_size ?c + entry_size ?e"
    using sum_list_set [OF wf, of entry_size key ?e] by (simp add: stored_size_def)
  have "length (dict_set key ?e (dc_entries ?c)) \<le> 1" if "dc_entries ?c = []" using that by simp
  then show ?thesis using r le wf
    by (auto simp: store_def Let_def cache_inv_def stored_size_def)
qed

lemma retrieve_inv:
  assumes "cache_inv c"
  shows "cache_inv (snd (retrieve sha now key c)) \<and> dc_max_size (snd (retrieve sha now key c)) = dc_max_size c"
proof -
  have "map entry_size (map snd (dict_upd key (\<lambda>e. e\<lparr>ce_last_access := now\<rparr>) d)) = map entry_size (map snd d)" for d
    by (induction d) (auto simp: dict_upd_def entry_size_def)
  then show ?thesis using assms remove_inv [OF assms, of sha key]
    by (auto simp: retrieve_def cache_inv_def stored_size_def split: option.splits cache_file.splits)
qed

lemma purge_inv:
  assumes "cache_inv c"
  shows "cache_inv (snd (purge sha pat c)) \<and> dc_max_size (snd (purge sha pat c)) = dc_max_size c"
proof -
  have "cache_inv (fold (remove_entry sha) ks c) \<and> dc_max_size (fold (remove_entry sha) ks c) = dc_max_size c" for ks
    using assms
  proof (induction ks arbitrary: c)
    case (Cons k ks)
    then show ?case using remove_inv [OF Cons.prems, of sha k] by simp
  qed simp
  then show ?thesis by (simp add: purge_def Let_def)
qed

datatype cache_event =
    Store time bool string int "(string, string) dict" bytes int
  | Retrieve time string
  | Purge string

primrec cache_step :: "(bytes \<Rightarrow> string) \<Rightarrow> disk_cache \<Rightarrow> cache_event \<Rightarrow> disk_cache" where
  "cache_step sha c (Store now ok key status headers body ttl) = store sha now ok key status headers body ttl c"
| "cache_step sha c (Retrieve now key) = snd (retrieve sha now key c)"
| "cache_step sha c (Purge pat) = snd (purge sha pat c)"

interpretation cache_run: invariant_machine "cache_step sha" "\<lambda>c. cache_inv c \<and> dc_max_size c = n"
proof
  fix c e
  assume "cache_inv c \<and> dc_max_size c = n"
  then show "cache_inv (cache_step sha c e) \<and> dc_max_size (cache_step sha c e) = n"
    using store_inv [of c] retrieve_inv [of c] purge_inv [of c] by (cases e) auto
qed

section \<open>Properties\<close>

text \<open>C24: the cache stays within its budget: after any sequence of stores, lookups and purges the
  bodies held in memory sum to at most \<^verbatim>\<open>max_size\<close>, unless a single response that is larger
  than the whole budget is the only entry; the size the cache reports is never below the true
  one.\<close>

theorem cache_within_budget:
  fixes events :: "cache_event list" and sha :: "bytes \<Rightarrow> string" and path files max_size
  defines "c \<equiv> foldl (cache_step sha) (dc_init path max_size files) events"
  assumes "max_size \<ge> 0"
  shows "(stored_size c \<le> max_size \<or> length (dc_entries c) = 1) \<and> stored_size c \<le> dc_current_size c"
proof -
  have "cache_inv (dc_init path max_size files) \<and> dc_max_size (dc_init path max_size files) = max_size"
    by (simp add: cache_inv_def dc_init_def stored_size_def)
  then have inv: "cache_inv c" "dc_max_size c = max_size" unfolding c_def using cache_run.run_keeps by blast+
  have "length (dc_entries c) \<le> 1 \<Longrightarrow> stored_size c \<le> max_size \<or> length (dc_entries c) = 1"
    using assms(2) by (cases "dc_entries c") (auto simp: stored_size_def)
  then show ?thesis using inv by (auto simp: cache_inv_def)
qed

theorem cache_within_budget_witness:
  "stored_size (foldl (cache_step (\<lambda>_. ''ab'')) (dc_init ''/c'' 3 [])
     [Store 1 True ''k'' 200 [] [1, 2] 60, Store 2 True ''l'' 200 [] [3, 4] 60]) \<le> 3
   \<or> length (dc_entries (foldl (cache_step (\<lambda>_. ''ab'')) (dc_init ''/c'' 3 [])
     [Store 1 True ''k'' 200 [] [1, 2] 60, Store 2 True ''l'' 200 [] [3, 4] 60])) = 1"
  using cache_within_budget [of 3 "\<lambda>_. ''ab''" "''/c''" "[]"
      "[Store 1 True ''k'' 200 [] [1, 2] 60, Store 2 True ''l'' 200 [] [3, 4] 60]"] by simp

lemma get_remove_other: "k \<noteq> key \<Longrightarrow> dict_get (dc_entries (remove_entry sha k c)) key = dict_get (dc_entries c) key"
  by simp

primrec harmless :: "string \<Rightarrow> cache_event \<Rightarrow> bool" where
  "harmless key (Store now ok k status headers body ttl) = False"
| "harmless key (Retrieve now k) = (k \<noteq> key)"
| "harmless key (Purge pat) = (pat \<noteq> [] \<and> \<not> starts_with pat key)"

lemma harmless_step:
  assumes "harmless key e"
  shows "dict_get (dc_entries (cache_step sha c e)) key = dict_get (dc_entries c) key"
proof (cases e)
  case (Purge pat)
  have "dict_get (dc_entries (fold (remove_entry sha) ks c)) key = dict_get (dc_entries c) key" if "key \<notin> set ks" for ks
    using that by (induction ks arbitrary: c) auto
  then show ?thesis using Purge assms by (simp add: purge_def Let_def)
next
  case (Retrieve now k)
  then show ?thesis using assms by (auto simp: retrieve_def split: option.splits cache_file.splits)
qed (use assms in simp)

text \<open>What was stored is served: a response written to the cache is returned by a lookup of its key
  with status, headers and body unchanged until its lifetime has passed, and afterwards the
  lookup misses and drops the entry and its file; lookups and purges of other keys in between do
  not matter.\<close>

theorem store_then_retrieve:
  assumes "\<forall>e \<in> set events. harmless key e"
  shows "fst (retrieve sha t key (foldl (cache_step sha) (store sha now True key status headers body ttl c) events))
    = (if t - now \<le> of_int ttl then Some (status, headers, body) else None)"
proof -
  have "dict_get (dc_entries (foldl (cache_step sha) d events)) key = dict_get (dc_entries d) key" for d
    using assms by (induction events arbitrary: d) (auto simp: harmless_step)
  then have "dict_get (dc_entries (foldl (cache_step sha) (store sha now True key status headers body ttl c) events)) key
      = Some (new_entry now key status headers body ttl)"
    by (simp add: store_def Let_def)
  then show ?thesis by (auto simp: retrieve_def new_entry_def expired_def)
qed

theorem store_then_retrieve_witness:
  "fst (retrieve (\<lambda>_. ''ab'') 9 ''k'' (foldl (cache_step (\<lambda>_. ''ab''))
     (store (\<lambda>_. ''ab'') 1 True ''k'' 200 [] [1, 2] 60 (dc_init ''/c'' 3 [])) [Retrieve 5 ''x'', Purge ''z'']))
   = Some (200, [], [1, 2])"
  using store_then_retrieve [of "[Retrieve 5 ''x'', Purge ''z'']" "''k''" "\<lambda>_. ''ab''" 9 1 200 "[]" "[1, 2]" 60]
  by (simp add: starts_with_def)

text \<open>Two defects of the size and staleness accounting: storing a key that is already present counts
  its body again, so that the reported size exceeds the stored size by the overwritten body for
  ever; and \<^verbatim>\<open>is_stale\<close> never answers that an entry is stale.\<close>

theorem cache_accounting_defects:
  assumes "dict_get (dc_entries c) key = Some old" and "dict_wf (dc_entries c)"
    and "dc_current_size c + int (length body) \<le> dc_max_size c"
  shows "dc_current_size (store sha now True key status headers body ttl c)
       - stored_size (store sha now True key status headers body ttl c)
       = (dc_current_size c - stored_size c) + entry_size old
    \<and> \<not> fst (is_stale sha t k c)"
proof -
  let ?e = "new_entry now key status headers body ttl"
  have mr: "make_room sha (entry_size ?e) c = c"
    using assms(3) by (subst make_room.simps) (simp add: entry_size_def new_entry_def)
  have "sum_list (map entry_size (map snd (dict_set key ?e d))) = sum_list (map entry_size (map snd d)) - entry_size old + entry_size ?e"
    if "map_of d key = Some old" for d
    using that by (induction d) auto
  from this [OF assms(1)] have "stored_size (store sha now True key status headers body ttl c)
      = stored_size c - entry_size old + entry_size ?e"
    by (simp add: store_def Let_def mr stored_size_def)
  moreover have "\<not> fst (is_stale sha t k c)"
    by (auto simp: is_stale_def retrieve_def dict_has_def split: option.splits cache_file.splits prod.splits if_splits)
  ultimately show ?thesis by (simp add: store_def Let_def mr)
qed

theorem cache_accounting_defects_witness:
  "dc_current_size (store (\<lambda>_. ''ab'') 2 True ''k'' 200 [] [5] 60 (store (\<lambda>_. ''ab'') 1 True ''k'' 200 [] [1, 2] 60 (dc_init ''/c'' 9 [])))
   - stored_size (store (\<lambda>_. ''ab'') 2 True ''k'' 200 [] [5] 60 (store (\<lambda>_. ''ab'') 1 True ''k'' 200 [] [1, 2] 60 (dc_init ''/c'' 9 []))) = 2"
proof -
  let ?c = "store (\<lambda>_. ''ab'') 1 True ''k'' 200 [] [1, 2] 60 (dc_init ''/c'' 9 [])"
  have c: "dc_entries ?c = [(''k'', new_entry 1 ''k'' 200 [] [1, 2] 60)]" "dc_current_size ?c = 2" "dc_max_size ?c = 9"
    by (simp_all add: store_def Let_def dc_init_def make_room.simps entry_size_def new_entry_def)
  have "dict_get (dc_entries ?c) ''k'' = Some (new_entry 1 ''k'' 200 [] [1, 2] 60)" "dict_wf (dc_entries ?c)"
      "dc_current_size ?c + int (length [5 :: byte]) \<le> dc_max_size ?c" by (simp_all add: c)
  from conjunct1 [OF cache_accounting_defects [OF this, where sha = "\<lambda>_. ''ab''" and now = 2 and status = 200 and headers = "[]" and ttl = 60]]
  show ?thesis by (simp add: c stored_size_def [of ?c] entry_size_def new_entry_def)
qed

section \<open>Rebuilding the index\<close>

definition readable_files :: "(string, cache_file) dict \<Rightarrow> (string \<times> cache_entry) list" where
  "readable_files files = List.map_filter (\<lambda>(path, f). case f of CorruptFile \<Rightarrow> None | CacheFile e \<Rightarrow> Some (path, e)) files"

text \<open>A rebuilt index describes exactly the readable files of the directory, in the order of the scan, when no two
  of them are for the same key.\<close>

theorem rebuild_exact:
  assumes "distinct (map (\<lambda>(path, e). ce_key e) (readable_files files))"
  shows "rebuild_from_disk getsize getatime files
    = map (\<lambda>(path, e). (ce_key e, meta_of_file getsize getatime path e)) (readable_files files)"
proof -
  have "foldl (\<lambda>ix (path, f). case f of CorruptFile \<Rightarrow> ix
              | CacheFile e \<Rightarrow> dict_set (ce_key e) (meta_of_file getsize getatime path e) ix) ix files
      = ix @ map (\<lambda>(path, e). (ce_key e, meta_of_file getsize getatime path e)) (readable_files files)"
    if "distinct (map fst ix @ map (\<lambda>(path, e). ce_key e) (readable_files files))" for ix
    using that
  proof (induction files arbitrary: ix)
    case (Cons pf files)
    then show ?case
      by (cases pf; cases "snd pf") (auto simp: readable_files_def List.map_filter_def dict_set_fresh)
  qed (simp add: readable_files_def List.map_filter_def)
  from this [of "[]"] show ?thesis using assms by (simp add: rebuild_from_disk_def)
qed

end
