(* ===== verification/Topology.thy ===== *)
theory Topology
  imports Prelude
begin

text \<open>
  The three topology managers of \<^verbatim>\<open>client/topology.py\<close> and their factory.  The abstract base
  class is the locale \<open>topology_manager\<close>: what its documentation promises of the two event
  handlers, relative to a fixed choice of wanted peers.  Each class interprets it, and so does
  the dispatching sum type that the factory returns; the client-side driver that follows the
  answers of the handlers is proved once, inside the locale.
\<close>

section \<open>The managers\<close>

definition TOPOLOGY_MESH :: string where "TOPOLOGY_MESH = ''mesh''"
definition TOPOLOGY_HUB_AND_SPOKE :: string where "TOPOLOGY_HUB_AND_SPOKE = ''hub_and_spoke''"
definition TOPOLOGY_GATEWAY :: string where "TOPOLOGY_GATEWAY = ''gateway''"

record 'i mesh_topology =
  mesh_peers :: "(string, 'i) dict"

definition mesh_online :: "'i mesh_topology \<Rightarrow> string \<Rightarrow> 'i \<Rightarrow> 'n \<Rightarrow> bool \<times> 'i mesh_topology" where
  "mesh_online t peer_id peer_ip network_id = (True, t\<lparr>mesh_peers := dict_set peer_id peer_ip (mesh_peers t)\<rparr>)"

definition mesh_offline :: "'i mesh_topology \<Rightarrow> string \<Rightarrow> 'n \<Rightarrow> bool \<times> 'i mesh_topology" where
  "mesh_offline t peer_id network_id = (True, t\<lparr>mesh_peers := dict_del peer_id (mesh_peers t)\<rparr>)"

definition mesh_to_connect :: "'i mesh_topology \<Rightarrow> string list" where
  "mesh_to_connect t = dict_keys (mesh_peers t)"

record 'i hub_topology =
  hub_id :: string
  hub_is_hub :: bool
  spokes :: "(string, 'i) dict"

definition hub_online :: "'i hub_topology \<Rightarrow> string \<Rightarrow> 'i \<Rightarrow> 'n \<Rightarrow> bool \<times> 'i hub_topology" where
  "hub_online t peer_id peer_ip network_id =
     (if hub_is_hub t then (True, t\<lparr>spokes := dict_set peer_id peer_ip (spokes t)\<rparr>)
      else if peer_id = hub_id t then (True, t)
      else (False, t))"

definition hub_offline :: "'i hub_topology \<Rightarrow> string \<Rightarrow> 'n \<Rightarrow> bool \<times> 'i hub_topology" where
  "hub_offline t peer_id network_id =
     (if hub_is_hub t then (True, t\<lparr>spokes := dict_del peer_id (spokes t)\<rparr>)
      else (peer_id = hub_id t, t))"

definition hub_to_connect :: "'i hub_topology \<Rightarrow> string list" where
  "hub_to_connect t = (if hub_is_hub t then dict_keys (spokes t) else [hub_id t])"

definition get_spoke_ip :: "'i hub_topology \<Rightarrow> string \<Rightarrow> 'i option" where
  "get_spoke_ip t spoke_id = dict_get (spokes t) spoke_id"

record 'i gateway_topology =
  gateway_id :: string
  gw_is_gateway :: bool
  gw_peers :: "(string, 'i) dict"
  arp_table :: "(string, string) dict"

definition gw_online :: "'i gateway_topology \<Rightarrow> string \<Rightarrow> 'i \<Rightarrow> 'n \<Rightarrow> bool \<times> 'i gateway_topology" where
  "gw_online t peer_id peer_ip network_id =
     (let t' = t\<lparr>gw_peers := dict_set peer_id peer_ip (gw_peers t)\<rparr> in
      if gw_is_gateway t then (True, t')
      else if peer_id = gateway_id t then (True, t')
      else (False, t'))"

definition gw_offline :: "'i gateway_topology \<Rightarrow> string \<Rightarrow> 'n \<Rightarrow> bool \<times> 'i gateway_topology" where
  "gw_offline t peer_id network_id =
     (True, t\<lparr>gw_peers := dict_del peer_id (gw_peers t), arp_table := dict_del peer_id (arp_table t)\<rparr>)"

definition gw_to_connect :: "'i gateway_topology \<Rightarrow> string list" where
  "gw_to_connect t = (if gw_is_gateway t then dict_keys (gw_peers t) else [gateway_id t])"

definition set_arp_entry :: "'i gateway_topology \<Rightarrow> string \<Rightarrow> string \<Rightarrow> 'i gateway_topology" where
  "set_arp_entry t ip mac = t\<lparr>arp_table := dict_set ip mac (arp_table t)\<rparr>"

definition get_arp_entry :: "'i gateway_topology \<Rightarrow> string \<Rightarrow> string option" where
  "get_arp_entry t ip = dict_get (arp_table t) ip"

definition get_peer_ip :: "'i gateway_topology \<Rightarrow> string \<Rightarrow> 'i option" where
  "get_peer_ip t peer_id = dict_get (gw_peers t) peer_id"

section \<open>The base class and the factory\<close>

datatype 'i topology =
    MeshTopology "'i mesh_topology" | HubAndSpokeTopology "'i hub_topology" | GatewayTopology "'i gateway_topology"

fun on_peer_online :: "'i topology \<Rightarrow> string \<Rightarrow> 'i \<Rightarrow> 'n \<Rightarrow> bool \<times> 'i topology" where
  "on_peer_online (MeshTopology t) p ip n = map_prod id MeshTopology (mesh_online t p ip n)"
| "on_peer_online (HubAndSpokeTopology t) p ip n = map_prod id HubAndSpokeTopology (hub_online t p ip n)"
| "on_peer_online (GatewayTopology t) p ip n = map_prod id GatewayTopology (gw_online t p ip n)"

fun on_peer_offline :: "'i topology \<Rightarrow> string \<Rightarrow> 'n \<Rightarrow> bool \<times> 'i topology" where
  "on_peer_offline (MeshTopology t) p n = map_prod id MeshTopology (mesh_offline t p n)"
| "on_peer_offline (HubAndSpokeTopology t) p n = map_prod id HubAndSpokeTopology (hub_offline t p n)"
| "on_peer_offline (GatewayTopology t) p n = map_prod id GatewayTopology (gw_offline t p n)"

fun get_peers_to_connect :: "'i topology \<Rightarrow> string list" where
  "get_peers_to_connect (MeshTopology t) = mesh_to_connect t"
| "get_peers_to_connect (HubAndSpokeTopology t) = hub_to_connect t"
| "get_peers_to_connect (GatewayTopology t) = gw_to_connect t"

fun is_hub :: "'i topology \<Rightarrow> bool" where
  "is_hub (HubAndSpokeTopology t) = hub_is_hub t"
| "is_hub _ = False"

fun is_gateway :: "'i topology \<Rightarrow> bool" where
  "is_gateway (GatewayTopology t) = gw_is_gateway t"
| "is_gateway _ = False"

definition create_topology_manager :: "string \<Rightarrow> string \<Rightarrow> string \<Rightarrow> bool \<Rightarrow> bool \<Rightarrow> 'i topology result" where
  "create_topology_manager topology hub_client_id gateway_client_id hub gateway =
     (if topology = TOPOLOGY_MESH then Inr (MeshTopology \<lparr>mesh_peers = []\<rparr>)
      else if topology = TOPOLOGY_HUB_AND_SPOKE
      then Inr (HubAndSpokeTopology \<lparr>hub_id = hub_client_id, hub_is_hub = hub, spokes = []\<rparr>)
      else if topology = TOPOLOGY_GATEWAY
      then Inr (GatewayTopology \<lparr>gateway_id = gateway_client_id, gw_is_gateway = gateway, gw_peers = [], arp_table = []\<rparr>)
      else Inl (ValueError (''unknown topology: '' @ topology)))"

section \<open>The contract and its client\<close>

datatype ('i, 'n) peer_event = Came string 'i 'n | Went string 'n

text \<open>A client that opens a tunnel when the manager answers that one should be created and closes
  it when the manager answers that it should be closed.\<close>

fun drive :: "('s \<Rightarrow> string \<Rightarrow> 'i \<Rightarrow> 'n \<Rightarrow> bool \<times> 's) \<Rightarrow> ('s \<Rightarrow> string \<Rightarrow> 'n \<Rightarrow> bool \<times> 's)
    \<Rightarrow> 's \<times> string list \<Rightarrow> ('i, 'n) peer_event \<Rightarrow> 's \<times> string list" where
  "drive online offline (s, tunnels) (Came p ip n) =
     (case online s p ip n of (create, s') \<Rightarrow> (s', if create then set_add p tunnels else tunnels))"
| "drive online offline (s, tunnels) (Went p n) =
     (case offline s p n of (close, s') \<Rightarrow> (s', if close then set_discard p tunnels else tunnels))"

text \<open>The specification of the online peers of a history.\<close>

fun present :: "string set \<Rightarrow> ('i, 'n) peer_event \<Rightarrow> string set" where
  "present P (Came p ip n) = insert p P"
| "present P (Went p n) = P - {p}"

locale topology_manager =
  fixes online :: "'s \<Rightarrow> string \<Rightarrow> 'i \<Rightarrow> 'n \<Rightarrow> bool \<times> 's"
    and offline :: "'s \<Rightarrow> string \<Rightarrow> 'n \<Rightarrow> bool \<times> 's"
    and to_connect :: "'s \<Rightarrow> string list"
    and wants :: "'s \<Rightarrow> string \<Rightarrow> bool"
  assumes online_answer: "fst (online s p ip n) = wants s p"
    and offline_answer: "wants s p \<Longrightarrow> fst (offline s p n)"
    and wants_online: "wants (snd (online s p ip n)) = wants s"
    and wants_offline: "wants (snd (offline s p n)) = wants s"
    and connect_online: "wants s p \<Longrightarrow> set (to_connect (snd (online s p ip n))) = insert p (set (to_connect s))"
    and connect_ignored: "\<not> wants s p \<Longrightarrow> to_connect (snd (online s p ip n)) = to_connect s"
    and connect_offline: "set (to_connect s) - {p} \<subseteq> set (to_connect (snd (offline s p n)))"
begin

lemma drive_step:
  assumes "set tunnels = {p \<in> P. wants s p}" "set tunnels \<subseteq> set (to_connect s)"
    and "drive online offline (s, tunnels) e = (s', tunnels')"
  shows "wants s' = wants s \<and> set tunnels' = {p \<in> present P e. wants s p} \<and> set tunnels' \<subseteq> set (to_connect s')"
proof (cases e)
  case (Came p ip n)
  obtain c t where on: "online s p ip n = (c, t)" by (cases "online s p ip n")
  have laws: "c = wants s p" "wants t = wants s"
    "wants s p \<Longrightarrow> set (to_connect t) = insert p (set (to_connect s))" "\<not> wants s p \<Longrightarrow> to_connect t = to_connect s"
    using online_answer [of s p ip n] wants_online [of s p ip n] connect_online [of s p ip n]
      connect_ignored [of s p ip n] by (simp_all add: on)
  have new: "s' = t" "tunnels' = (if c then set_add p tunnels else tunnels)"
    using assms(3) by (simp_all add: Came on)
  show ?thesis
  proof (cases c)
    case True
    then have "wants s p" "set (to_connect t) = insert p (set (to_connect s))" using laws(1,3) by simp_all
    then show ?thesis using assms(1,2) True new laws(2) by (auto simp: Came)
  next
    case False
    then have "\<not> wants s p" "to_connect t = to_connect s" using laws(1,4) by simp_all
    then show ?thesis using assms(1,2) False new laws(2) by (auto simp: Came)
  qed
next
  case (Went p n)
  obtain c t where off: "offline s p n = (c, t)" by (cases "offline s p n")
  have laws: "wants s p \<Longrightarrow> c" "wants t = wants s" "set (to_connect s) - {p} \<subseteq> set (to_connect t)"
    using offline_answer [of s p n] wants_offline [of s p n] connect_offline [of s p n] by (simp_all add: off)
  have new: "s' = t" "tunnels' = (if c then set_discard p tunnels else tunnels)"
    using assms(3) by (simp_all add: Went off)
  have "p \<notin> set tunnels" if "\<not> c" using that laws(1) assms(1) by auto
  then show ?thesis using assms(1,2) laws new by (auto simp: Went)
qed

lemma drive_run:
  assumes "set tunnels = {p \<in> P. wants s p}" "set tunnels \<subseteq> set (to_connect s)"
    and "foldl (drive online offline) (s, tunnels) es = (s', tunnels')"
  shows "set tunnels' = {p \<in> foldl present P es. wants s p} \<and> set tunnels' \<subseteq> set (to_connect s')"
  using assms
proof (induction es arbitrary: s tunnels P)
  case (Cons e es)
  obtain t ts where d: "drive online offline (s, tunnels) e = (t, ts)" by (cases "drive online offline (s, tunnels) e")
  note step = drive_step [OF Cons.prems(1,2) d]
  have w: "wants t = wants s" and ts: "set ts = {p \<in> present P e. wants t p}" "set ts \<subseteq> set (to_connect t)"
    using step by auto
  show ?case
    using Cons.IH [OF ts] Cons.prems(3) d unfolding w by auto
qed simp

end

section \<open>The classes meet the contract\<close>

definition hub_wants :: "'i hub_topology \<Rightarrow> string \<Rightarrow> bool" where
  "hub_wants t p \<longleftrightarrow> hub_is_hub t \<or> p = hub_id t"

definition gw_wants :: "'i gateway_topology \<Rightarrow> string \<Rightarrow> bool" where
  "gw_wants t p \<longleftrightarrow> gw_is_gateway t \<or> p = gateway_id t"

fun topo_wants :: "'i topology \<Rightarrow> string \<Rightarrow> bool" where
  "topo_wants (MeshTopology t) p = True"
| "topo_wants (HubAndSpokeTopology t) p = hub_wants t p"
| "topo_wants (GatewayTopology t) p = gw_wants t p"

lemmas mesh_defs = mesh_online_def mesh_offline_def mesh_to_connect_def
lemmas hub_defs = hub_online_def hub_offline_def hub_to_connect_def hub_wants_def fun_eq_iff
lemmas gw_defs = gw_online_def gw_offline_def gw_to_connect_def gw_wants_def Let_def fun_eq_iff

interpretation mesh: topology_manager mesh_online mesh_offline mesh_to_connect "\<lambda>_ _. True"
  by unfold_locales (auto simp: mesh_defs)

interpretation hub: topology_manager hub_online hub_offline hub_to_connect hub_wants
  by unfold_locales (auto simp: hub_defs)

interpretation gw: topology_manager gw_online gw_offline gw_to_connect gw_wants
  by unfold_locales (auto simp: gw_defs)

interpretation topo: topology_manager on_peer_online on_peer_offline get_peers_to_connect topo_wants
proof unfold_locales
  fix s p ip n
  show "fst (on_peer_online s p ip n) = topo_wants s p"
    by (cases s) (simp_all add: mesh.online_answer hub.online_answer gw.online_answer)
  show "topo_wants s p \<Longrightarrow> fst (on_peer_offline s p n)"
    by (cases s) (simp_all add: mesh.offline_answer hub.offline_answer gw.offline_answer)
  show "topo_wants (snd (on_peer_online s p ip n)) = topo_wants s"
    by (cases s) (simp_all add: fun_eq_iff hub.wants_online gw.wants_online)
  show "topo_wants (snd (on_peer_offline s p n)) = topo_wants s"
    by (cases s) (simp_all add: fun_eq_iff hub.wants_offline gw.wants_offline)
  show "topo_wants s p \<Longrightarrow> set (get_peers_to_connect (snd (on_peer_online s p ip n))) = insert p (set (get_peers_to_connect s))"
    by (cases s) (simp_all add: mesh.connect_online hub.connect_online gw.connect_online)
  show "\<not> topo_wants s p \<Longrightarrow> get_peers_to_connect (snd (on_peer_online s p ip n)) = get_peers_to_connect s"
    by (cases s) (simp_all add: hub.connect_ignored gw.connect_ignored)
  show "set (get_peers_to_connect s) - {p} \<subseteq> set (get_peers_to_connect (snd (on_peer_offline s p n)))"
    using mesh.connect_offline hub.connect_offline gw.connect_offline by (cases s) simp_all
qed

section \<open>Which tunnels a topology keeps\<close>

text \<open>The specification: in a mesh every pair is connected, around a hub or a gateway only the
  pairs that contain it.\<close>

definition linked :: "string \<Rightarrow> string \<Rightarrow> bool \<Rightarrow> string \<Rightarrow> bool" where
  "linked topology centre is_centre p \<longleftrightarrow> topology = TOPOLOGY_MESH \<or> is_centre \<or> p = centre"

text \<open>C7: the topology managers implement their specification.  Whatever peers come and go, a client
  that follows the answers of the manager made by the factory has tunnels to exactly the online
  peers that the topology links to it, and never to a peer outside
  \<^verbatim>\<open>get_peers_to_connect\<close>.\<close>
theorem topology_refines_links:
  assumes "create_topology_manager topology centre centre is_centre is_centre = Inr m"
    and "foldl (drive on_peer_online on_peer_offline) (m, []) es = (m', tunnels)"
  shows "set tunnels = {p \<in> foldl present {} es. linked topology centre is_centre p}
    \<and> set tunnels \<subseteq> set (get_peers_to_connect m')"
proof -
  have "topo_wants m p = linked topology centre is_centre p" for p
    using assms(1) by (auto simp: create_topology_manager_def linked_def hub_wants_def gw_wants_def split: if_splits)
  then have "topo_wants m = linked topology centre is_centre" by blast
  then show ?thesis using topo.drive_run [OF _ _ assms(2), of "{}"] unfolding \<open>topo_wants m = _\<close> by auto
qed

theorem topology_refines_links_witness:
  "set (snd (foldl (drive on_peer_online on_peer_offline)
       (HubAndSpokeTopology \<lparr>hub_id = ''h'', hub_is_hub = False, spokes = []\<rparr>, [])
       [Came ''a'' ''25.0.0.2'' ''n'', Came ''h'' ''25.0.0.1'' ''n''])) = {''h''}"
proof -
  obtain m' ts where run: "foldl (drive on_peer_online on_peer_offline)
       (HubAndSpokeTopology \<lparr>hub_id = ''h'', hub_is_hub = False, spokes = []\<rparr>, [])
       [Came ''a'' ''25.0.0.2'' ''n'', Came ''h'' ''25.0.0.1'' ''n''] = (m', ts)"
    by (meson surj_pair)
  have "create_topology_manager ''hub_and_spoke'' ''h'' ''h'' False False
      = Inr (HubAndSpokeTopology \<lparr>hub_id = ''h'', hub_is_hub = False, spokes = []\<rparr>)"
    by (simp add: create_topology_manager_def TOPOLOGY_MESH_def TOPOLOGY_HUB_AND_SPOKE_def)
  from topology_refines_links [OF this run] show ?thesis
    unfolding run by (auto simp: linked_def TOPOLOGY_MESH_def)
qed

text \<open>The ARP table of the gateway is keyed by address, but a departing peer's entry is looked up
  under its identifier: the entry stays.\<close>

lemma gateway_keeps_arp_entry:
  "get_arp_entry (snd (gw_offline (set_arp_entry (snd (gw_online t p ip n)) ip mac) p n)) ip =
     (if ip = p then None else Some mac)"
  by (simp add: gw_defs set_arp_entry_def get_arp_entry_def)

end
