(* ===== verification/Punch.thy ===== *)
theory Punch
  imports Frame "HOL-Library.Word"
begin

text \<open>
  Key agreement, the tunnel cipher (\<^verbatim>\<open>client/encryption.py\<close>) and UDP hole punching
  (\<^verbatim>\<open>client/nat_traversal.py\<close>).  X25519, HKDF and AES-GCM of the \<^verbatim>\<open>cryptography\<close>
  package are the fields of the parameter \<open>crypto\<close>; what the code relies on is the predicate
  \<open>crypto_ok\<close>.  A punching loop is a function of the outcomes of its successive
  \<^verbatim>\<open>recvfrom\<close> calls, each with the time at which the loop condition was tested; the list ends
  when the deadline has passed.
\<close>

unbundle bit_operations_syntax

section \<open>Cryptography\<close>

record 'p crypto =
  x_public :: "'p \<Rightarrow> bytes"
  x_exchange :: "'p \<Rightarrow> bytes \<Rightarrow> bytes option"
  hkdf :: "bytes \<Rightarrow> bytes \<Rightarrow> bytes"
  gcm_encrypt :: "bytes \<Rightarrow> bytes \<Rightarrow> bytes \<Rightarrow> bytes \<Rightarrow> bytes"
  gcm_decrypt :: "bytes \<Rightarrow> bytes \<Rightarrow> bytes \<Rightarrow> bytes \<Rightarrow> bytes option"

text \<open>\<open>ExchangeError\<close> is the \<^verbatim>\<open>ValueError\<close> that \<^verbatim>\<open>exchange\<close> raises on a
  public key of small order.\<close>

datatype crypto_error = EncryptionError | DecryptionError | ExchangeError

definition HKDF_INFO :: string where "HKDF_INFO = ''localnetwork-tunnel-v1''"
definition SESSION_KEY_LENGTH :: nat where [model_defs]: "SESSION_KEY_LENGTH = 32"
definition NONCE_LENGTH :: nat where [model_defs]: "NONCE_LENGTH = 12"
definition TAG_LENGTH :: nat where [model_defs]: "TAG_LENGTH = 16"

definition ecdh_public_from_bytes :: "bytes \<Rightarrow> crypto_error + bytes" where
  "ecdh_public_from_bytes data = (if length data \<noteq> 32 then Inl EncryptionError else Inr data)"

definition derive_session_key :: "'p crypto \<Rightarrow> 'p \<Rightarrow> bytes \<Rightarrow> crypto_error + bytes" where
  "derive_session_key cr our_private peer_public =
     (case x_exchange cr our_private peer_public of
        None \<Rightarrow> Inl ExchangeError | Some shared \<Rightarrow> Inr (hkdf cr shared (encode HKDF_INFO)))"

definition derive_session_key_from_bytes :: "'p crypto \<Rightarrow> 'p \<Rightarrow> bytes \<Rightarrow> crypto_error + bytes" where
  "derive_session_key_from_bytes cr our_private peer =
     (case ecdh_public_from_bytes peer of Inl e \<Rightarrow> Inl e | Inr pk \<Rightarrow> derive_session_key cr our_private pk)"

definition cipher_context :: "bytes \<Rightarrow> crypto_error + bytes" where
  "cipher_context session_key =
     (if length session_key \<noteq> SESSION_KEY_LENGTH then Inl EncryptionError else Inr session_key)"

text \<open>\<open>sealed[:-16]\<close> and \<open>sealed[-16:]\<close> of the nonce-less output.\<close>

definition cipher_encrypt :: "'p crypto \<Rightarrow> bytes \<Rightarrow> bytes \<Rightarrow> bytes \<Rightarrow> bytes \<Rightarrow> bytes \<times> bytes" where
  "cipher_encrypt cr key nonce plaintext ad =
     (let sealed = gcm_encrypt cr key nonce plaintext ad; n = length sealed - TAG_LENGTH
      in (nonce @ take n sealed, drop n sealed))"

definition cipher_decrypt :: "'p crypto \<Rightarrow> bytes \<Rightarrow> bytes \<Rightarrow> bytes \<Rightarrow> bytes \<Rightarrow> crypto_error + bytes" where
  "cipher_decrypt cr key ciphertext tag ad =
     (if length ciphertext < NONCE_LENGTH then Inl DecryptionError
      else (case gcm_decrypt cr key (take NONCE_LENGTH ciphertext) (drop NONCE_LENGTH ciphertext @ tag) ad of
              Some p \<Rightarrow> Inr p | None \<Rightarrow> Inl DecryptionError))"

definition encrypt_full :: "'p crypto \<Rightarrow> bytes \<Rightarrow> bytes \<Rightarrow> bytes \<Rightarrow> bytes \<Rightarrow> bytes" where
  "encrypt_full cr key nonce plaintext ad = (case cipher_encrypt cr key nonce plaintext ad of (c, t) \<Rightarrow> c @ t)"

section \<open>Hole punching\<close>

record nat_traversal =
  local_port_range :: "int \<times> int"
  punch_timeout :: time
  punch_retries :: nat

definition nat_init :: "int \<times> int \<Rightarrow> time \<Rightarrow> nat \<Rightarrow> nat_traversal result" where
  "nat_init ports timeout retries =
     (if \<not> (0 < fst ports \<and> fst ports \<le> snd ports \<and> snd ports < 65536)
      then Inl (ValueError ''invalid port range'')
      else Inr \<lparr>local_port_range = ports, punch_timeout = timeout, punch_retries = retries\<rparr>)"

text \<open>The shuffled candidates are an argument, and so is whether the operating system lets the
  socket be bound to a port.\<close>

definition bind_udp_socket :: "int list \<Rightarrow> (int \<Rightarrow> bool) \<Rightarrow> int result" where
  "bind_udp_socket candidates can_bind =
     (case find can_bind (take 64 candidates) of
        Some port \<Rightarrow> Inr port | None \<Rightarrow> Inl (OSError ''no free UDP port in range''))"

datatype punch_state = IDLE | PUNCHING | CONNECTED | FAILED | CLOSED

type_synonym addr = "string \<times> int"

datatype recv_outcome = RecvTimeout | RecvError | Datagram bytes addr

definition is_frame_type :: "bytes \<Rightarrow> int \<Rightarrow> bool" where
  "is_frame_type data t = (case unpack_frame data of Inl _ \<Rightarrow> False | Inr (h, _, _) \<Rightarrow> fh_type h = t)"

definition try_extract_payload :: "bytes \<Rightarrow> bytes" where
  "try_extract_payload data = (case unpack_frame data of Inl _ \<Rightarrow> [] | Inr (_, payload, _) \<Rightarrow> payload)"

definition send_to_all :: "bytes \<Rightarrow> addr list \<Rightarrow> (bytes \<times> addr) list" where
  "send_to_all frame endpoints = map (\<lambda>ep. (frame, ep)) endpoints"

text \<open>The outcome of a punch, and the datagrams sent.\<close>

type_synonym punch_result = "(bool \<times> addr option \<times> bytes) \<times> (bytes \<times> addr) list"

definition ack_sends :: "bytes \<Rightarrow> addr \<Rightarrow> (bytes \<times> addr) list" where
  "ack_sends key a = (case make_punch_ack_frame 0 key of Inl _ \<Rightarrow> [] | Inr f \<Rightarrow> [(f, a)])"

fun punch_loop :: "bytes \<Rightarrow> addr list \<Rightarrow> time \<Rightarrow> (time \<times> recv_outcome) list \<Rightarrow> punch_result" where
  "punch_loop punch endpoints deadline [] = ((False, None, []), [])"
| "punch_loop punch endpoints deadline ((now, ev) # evs) =
     (if \<not> now < deadline then ((False, None, []), [])
      else
        (case ev of
           RecvTimeout \<Rightarrow>
             (case punch_loop punch endpoints deadline evs of (r, ss) \<Rightarrow> (r, send_to_all punch endpoints @ ss))
         | RecvError \<Rightarrow> ((False, None, []), [])
         | Datagram data a \<Rightarrow>
             if is_frame_type data FRAME_PUNCH_ACK then ((True, Some a, try_extract_payload data), [])
             else if is_frame_type data FRAME_PUNCH
             then ((True, Some a, try_extract_payload data), ack_sends [] a)
             else punch_loop punch endpoints deadline evs))"

definition punch_peer :: "addr list \<Rightarrow> bytes \<Rightarrow> time \<Rightarrow> time \<Rightarrow> (time \<times> recv_outcome) list \<Rightarrow> frame_error + punch_result" where
  "punch_peer endpoints pubkey start timeout evs =
     (if endpoints = [] then Inr ((False, None, []), [])
      else
        (case make_punch_frame 0 pubkey of
           Inl e \<Rightarrow> Inl e
         | Inr punch \<Rightarrow>
             (case punch_loop punch endpoints (start + timeout) evs of
                (r, ss) \<Rightarrow> Inr (r, send_to_all punch endpoints @ ss))))"

definition punch_cycle :: "time \<Rightarrow> nat \<Rightarrow> time" where
  "punch_cycle timeout retries = max (5 / 100) (min (timeout / of_nat retries) 1)"

fun accept_punch :: "bytes \<Rightarrow> time \<Rightarrow> (time \<times> recv_outcome) list \<Rightarrow> (addr \<times> bytes) option \<times> (bytes \<times> addr) list" where
  "accept_punch pubkey deadline [] = (None, [])"
| "accept_punch pubkey deadline ((now, ev) # evs) =
     (if \<not> now < deadline then (None, [])
      else
        (case ev of
           RecvTimeout \<Rightarrow> (None, [])
         | RecvError \<Rightarrow> (None, [])
         | Datagram data a \<Rightarrow>
             if is_frame_type data FRAME_PUNCH
             then (Some (a, try_extract_payload data), ack_sends pubkey a)
             else accept_punch pubkey deadline evs))"

section \<open>STUN\<close>

definition STUN_MAGIC_COOKIE :: nat where "STUN_MAGIC_COOKIE = 0x2112A442"
definition STUN_BINDING :: nat where "STUN_BINDING = 1"
definition ATTR_XOR_MAPPED_ADDRESS :: nat where "ATTR_XOR_MAPPED_ADDRESS = 0x20"

definition stun_binding_request :: "bytes \<Rightarrow> bytes" where
  "stun_binding_request tx = be_bytes 2 STUN_BINDING @ be_bytes 2 0 @ be_bytes 4 STUN_MAGIC_COOKIE
     @ take 12 (tx @ replicate 12 0)"

definition dotted :: "bytes \<Rightarrow> string" where
  "dotted bs = str_int (int (unat (bs ! 0))) @ ''.'' @ str_int (int (unat (bs ! 1))) @ ''.''
                @ str_int (int (unat (bs ! 2))) @ ''.'' @ str_int (int (unat (bs ! 3)))"

definition inet_ntoa :: "bytes \<Rightarrow> string result" where
  "inet_ntoa bs = (if length bs \<noteq> 4 then Inl (OSError ''packed IP wrong length'') else Inr (dotted bs))"

definition xor_mapped :: "bytes \<Rightarrow> addr result" where
  "xor_mapped value =
     (if length value < 2 then Inl IndexError
      else if length value < 4 then Inl StructError
      else
        (let port = unat ((word_of_nat (be_val (take 2 (drop 2 value))) :: 16 word)
                          XOR word_of_nat (STUN_MAGIC_COOKIE div 2 ^ 16))
         in if value ! 1 = 1
            then (case inet_ntoa (map2 (\<lambda>b m. b XOR m) (take 4 (drop 4 value)) (be_bytes 4 STUN_MAGIC_COOKIE)) of
                    Inl e \<Rightarrow> Inl e | Inr ip \<Rightarrow> Inr (ip, int port))
            else Inl (ValueError ''IPv6 XOR-MAPPED-ADDRESS unsupported'')))"

function stun_attrs :: "bytes \<Rightarrow> nat \<Rightarrow> nat \<Rightarrow> addr result" where
  "stun_attrs data pos end =
     (if pos + 4 \<le> end then
        (let attr_type = be_val (take 2 (drop pos data));
             attr_len = be_val (take 2 (drop (pos + 2) data));
             value_start = pos + 4;
             value_end = value_start + attr_len
         in if value_end > end then Inl (ValueError ''no XOR-MAPPED-ADDRESS in stun response'')
            else if attr_type = ATTR_XOR_MAPPED_ADDRESS then xor_mapped (take attr_len (drop value_start data))
            else stun_attrs data (value_end + (4 - attr_len mod 4) mod 4) end)
      else Inl (ValueError ''no XOR-MAPPED-ADDRESS in stun response''))"
  by auto
termination by (relation "measure (\<lambda>(data, pos, end). end - pos)") auto

declare stun_attrs.simps [simp del]

definition parse_stun_mapped_address :: "bytes \<Rightarrow> bytes \<Rightarrow> addr result" where
  "parse_stun_mapped_address data tx =
     (if length data < 20 then Inl (ValueError ''stun response too short'')
      else
        (let len = be_val (take 2 (drop 2 data)) in
         if take 12 (drop 8 data) \<noteq> tx then Inl (ValueError ''stun transaction id mismatch'')
         else stun_attrs data 20 (min (length data) (20 + len))))"

datatype nat_type = OPEN | FULL_CONE | RESTRICTED | PORT_RESTRICTED | SYMMETRIC | UNKNOWN

text \<open>One probe, given what \<^verbatim>\<open>recvfrom\<close> returned: the listed exceptions become
  \<^verbatim>\<open>None\<close>, an \<^verbatim>\<open>IndexError\<close> (an attribute of one byte) propagates.\<close>

definition stun_probe :: "bytes \<Rightarrow> recv_outcome \<Rightarrow> addr option result" where
  "stun_probe tx r =
     (case r of
        RecvTimeout \<Rightarrow> Inr None
      | RecvError \<Rightarrow> Inr None
      | Datagram data _ \<Rightarrow>
          (case parse_stun_mapped_address data tx of
             Inr a \<Rightarrow> Inr (Some a)
           | Inl e \<Rightarrow>
               (case e of OSError _ \<Rightarrow> Inr None | StructError \<Rightarrow> Inr None | ValueError _ \<Rightarrow> Inr None | _ \<Rightarrow> Inl e)))"

text \<open>The outcomes of the three probes are arguments; an exception of a probe that is made gives
  \<^verbatim>\<open>UNKNOWN\<close>.\<close>

definition determine_nat_type :: "addr option result \<Rightarrow> addr option result \<Rightarrow> addr option result \<Rightarrow> nat_type" where
  "determine_nat_type p1 p2 p3 =
     (case p1 of Inl _ \<Rightarrow> UNKNOWN | Inr None \<Rightarrow> UNKNOWN | Inr (Some m1) \<Rightarrow>
     (case p2 of Inl _ \<Rightarrow> UNKNOWN | Inr None \<Rightarrow> UNKNOWN | Inr (Some m2) \<Rightarrow>
        if snd m2 \<noteq> snd m1 then SYMMETRIC
        else (case p3 of Inl _ \<Rightarrow> UNKNOWN | Inr None \<Rightarrow> RESTRICTED
              | Inr (Some m3) \<Rightarrow> if fst m3 \<noteq> fst m1 \<or> snd m3 \<noteq> snd m1 then PORT_RESTRICTED else FULL_CONE)))"

section \<open>What the cryptographic library promises\<close>

definition crypto_ok :: "'p crypto \<Rightarrow> bool" where
  "crypto_ok cr \<longleftrightarrow>
     (\<forall>a b. x_exchange cr a (x_public cr b) = x_exchange cr b (x_public cr a) \<and> x_exchange cr a (x_public cr b) \<noteq> None)
     \<and> (\<forall>a. length (x_public cr a) = 32) \<and> (\<forall>s i. length (hkdf cr s i) = 32)
     \<and> (\<forall>k n p ad. length (gcm_encrypt cr k n p ad) = length p + 16
                   \<and> gcm_decrypt cr k n (gcm_encrypt cr k n p ad) ad = Some p)"

lemma same_session_key:
  "crypto_ok cr \<Longrightarrow>
     derive_session_key_from_bytes cr a (x_public cr b) = derive_session_key_from_bytes cr b (x_public cr a)"
  by (simp add: crypto_ok_def derive_session_key_from_bytes_def ecdh_public_from_bytes_def derive_session_key_def)

lemma session_key_usable:
  "crypto_ok cr \<Longrightarrow> \<exists>k. derive_session_key_from_bytes cr a (x_public cr b) = Inr k \<and> cipher_context k = Inr k"
  by (force simp: crypto_ok_def derive_session_key_from_bytes_def ecdh_public_from_bytes_def derive_session_key_def
      cipher_context_def SESSION_KEY_LENGTH_def split: option.splits)

lemma decrypt_encrypt:
  assumes "crypto_ok cr" "length nonce = 12" "cipher_encrypt cr k nonce p ad = (c, t)"
  shows "cipher_decrypt cr k c t ad = Inr p \<and> length c = 12 + length p \<and> length t = 16"
  using assms
  by (auto simp: crypto_ok_def cipher_encrypt_def cipher_decrypt_def Let_def NONCE_LENGTH_def TAG_LENGTH_def)

lemma unpack_packed:
  assumes "pack_frame type payload seq v tag = Inr wire"
  shows "unpack_frame wire = Inr (\<lparr>fh_version = 1, fh_type = type, fh_payload_length = length payload,
      fh_seq_num = nat (seq mod 4294967296)\<rparr>, payload, case tag of Some t \<Rightarrow> t | None \<Rightarrow> replicate 16 0)"
  using pack_frame_Inr [OF assms] unpack_frame_wire [of "nat type" payload "nat (seq mod 4294967296)" _ "[]"] by auto

lemma punch_frame_ok: "length key \<le> 65535 \<Longrightarrow> \<exists>f. make_punch_frame s key = Inr f \<and> is_frame_type f FRAME_PUNCH
    \<and> \<not> is_frame_type f FRAME_PUNCH_ACK \<and> try_extract_payload f = key"
proof -
  assume "length key \<le> 65535"
  then obtain f where f: "pack_frame FRAME_PUNCH key s FRAME_VERSION None = Inr f"
    using pack_frame_ok [of key FRAME_PUNCH None s] by (auto simp: model_defs)
  show ?thesis
    by (rule exI [of _ f])
      (simp add: make_punch_frame_def f is_frame_type_def try_extract_payload_def unpack_packed [OF f],
       simp add: model_defs)
qed

lemma ack_frame_ok: "length key \<le> 65535 \<Longrightarrow> \<exists>f. make_punch_ack_frame s key = Inr f \<and> is_frame_type f FRAME_PUNCH_ACK
    \<and> \<not> is_frame_type f FRAME_PUNCH \<and> try_extract_payload f = key"
proof -
  assume "length key \<le> 65535"
  then obtain f where f: "pack_frame FRAME_PUNCH_ACK key s FRAME_VERSION None = Inr f"
    using pack_frame_ok [of key FRAME_PUNCH_ACK None s] by (auto simp: model_defs)
  show ?thesis
    by (rule exI [of _ f])
      (simp add: make_punch_ack_frame_def f is_frame_type_def try_extract_payload_def unpack_packed [OF f],
       simp add: model_defs)
qed

lemma punch_loop_timeouts:
  "\<forall>p \<in> set evs. snd p = RecvTimeout \<Longrightarrow> fst (punch_loop punch eps d evs) = (False, None, [])"
proof (induction evs)
  case (Cons p evs)
  then show ?case by (cases p) (auto split: prod.splits)
qed simp

section \<open>Reading a STUN response\<close>

text \<open>The encoder of RFC 5389 that the parser is compared with: attributes padded to four bytes,
  and the XOR of port and address with the magic cookie.\<close>

definition stun_attr :: "nat \<Rightarrow> bytes \<Rightarrow> bytes" where
  "stun_attr t v = be_bytes 2 t @ be_bytes 2 (length v) @ v @ replicate ((4 - length v mod 4) mod 4) 0"

definition mapped_value :: "bytes \<Rightarrow> nat \<Rightarrow> bytes" where
  "mapped_value ip port =
     [0, 1] @ be_bytes 2 (unat ((word_of_nat port :: 16 word) XOR word_of_nat (STUN_MAGIC_COOKIE div 2 ^ 16)))
     @ map2 (\<lambda>b m. b XOR m) ip (be_bytes 4 STUN_MAGIC_COOKIE)"

definition stun_response :: "bytes \<Rightarrow> (nat \<times> bytes) list \<Rightarrow> bytes \<Rightarrow> nat \<Rightarrow> bytes" where
  "stun_response tx attrs ip port =
     (let body = concat (map (\<lambda>(t, v). stun_attr t v) attrs)
                 @ stun_attr ATTR_XOR_MAPPED_ADDRESS (mapped_value ip port)
      in be_bytes 2 0x101 @ be_bytes 2 (length body) @ be_bytes 4 STUN_MAGIC_COOKIE @ tx @ body)"

lemma map2_xor_twice: "length a = length b \<Longrightarrow> map2 (\<lambda>x m. x XOR m) (map2 (\<lambda>x m. x XOR m) a b) b = (a :: bytes)"
  by (induction a b rule: list_induct2) (auto simp: xor.assoc)

lemma length_mapped_value: "length ip = 4 \<Longrightarrow> length (mapped_value ip port) = 8"
  by (simp add: mapped_value_def)

lemma unat_lt2p_16: "unat (x :: 16 word) < 65536"
  using unsigned_less [of x] by simp

lemma xor_mapped_value:
  assumes "length ip = 4" "port < 65536"
  shows "xor_mapped (mapped_value ip port) = map_sum id (\<lambda>s. (s, int port)) (inet_ntoa ip)"
proof -
  let ?c = "word_of_nat (STUN_MAGIC_COOKIE div 2 ^ 16) :: 16 word"
  let ?x = "(word_of_nat port :: 16 word) XOR ?c"
  have x: "be_val (be_bytes 2 (unat ?x)) = unat ?x"
    using unat_lt2p_16 [of ?x] by (simp add: be_val_be_bytes del: be_bytes.simps)
  have p: "unat (word_of_nat (unat ?x) XOR ?c) = port"
    using assms(2) by (simp add: xor.assoc unat_of_nat)
  have drop: "drop 2 (mapped_value ip port)
      = be_bytes 2 (unat ?x) @ map2 (\<lambda>b m. b XOR m) ip (be_bytes 4 STUN_MAGIC_COOKIE)"
    unfolding mapped_value_def by (simp del: be_bytes.simps)
  have port: "take 2 (drop 2 (mapped_value ip port)) = be_bytes 2 (unat ?x)"
    unfolding drop by (simp del: be_bytes.simps)
  have "drop 4 (mapped_value ip port) = drop 2 (drop 2 (mapped_value ip port))"
    by simp
  then have ip: "take 4 (drop 4 (mapped_value ip port)) = map2 (\<lambda>b m. b XOR m) ip (be_bytes 4 STUN_MAGIC_COOKIE)"
    unfolding drop using assms(1) by (simp del: be_bytes.simps)
  have fam: "mapped_value ip port ! 1 = 1"
    unfolding mapped_value_def by (simp del: be_bytes.simps)
  show ?thesis
    unfolding xor_mapped_def Let_def port ip fam x p
    using map2_xor_twice [of ip "be_bytes 4 STUN_MAGIC_COOKIE"] assms(1)
    by (simp add: length_mapped_value split: sum.splits del: be_bytes.simps)
qed

lemma stun_attrs_at:
  assumes "data = pre @ stun_attr t v @ rest" "t < 65536" "length v < 65536"
    and "length pre + 4 + length v \<le> end"
  shows "stun_attrs data (length pre) end =
     (if t = ATTR_XOR_MAPPED_ADDRESS then xor_mapped v else stun_attrs data (length (pre @ stun_attr t v)) end)"
proof -
  have d: "drop (length pre) data = be_bytes 2 t @ be_bytes 2 (length v) @ v
      @ replicate ((4 - length v mod 4) mod 4) 0 @ rest"
    by (simp add: assms(1) stun_attr_def del: be_bytes.simps)
  have d2: "drop (length pre + 2) data = be_bytes 2 (length v) @ v @ replicate ((4 - length v mod 4) mod 4) 0 @ rest"
    using arg_cong [OF d, of "drop 2"] by (simp add: add.commute del: be_bytes.simps)
  have d4: "drop (length pre + 4) data = v @ replicate ((4 - length v mod 4) mod 4) 0 @ rest"
  proof -
    have "drop (length pre + 4) data = drop 2 (drop (length pre + 2) data)"
      unfolding drop_drop by (rule arg_cong [of _ _ "\<lambda>k. drop k data"]) simp
    then show ?thesis unfolding d2 by (simp del: be_bytes.simps)
  qed
  have t: "take 2 (drop (length pre) data) = be_bytes 2 t"
    unfolding d by (simp del: be_bytes.simps)
  have n: "take 2 (drop (length pre + 2) data) = be_bytes 2 (length v)"
    unfolding d2 by (simp del: be_bytes.simps)
  have v: "take (length v) (drop (length pre + 4) data) = v"
    unfolding d4 by simp
  have vals: "be_val (be_bytes 2 t) = t" "be_val (be_bytes 2 (length v)) = length v"
    using assms(2,3) by (simp_all add: be_val_be_bytes)
  have next_pos: "length (pre @ stun_attr t v) = length pre + 4 + length v + (4 - length v mod 4) mod 4"
    by (simp add: stun_attr_def del: be_bytes.simps)
  have step: "length pre + 4 \<le> end" "\<not> length pre + 4 + length v > end"
    using assms(4) by simp_all
  show ?thesis
    by (subst stun_attrs.simps) (simp only: t n v vals Let_def next_pos step if_True if_False refl split: if_split)
qed

lemma stun_attrs_skip:
  assumes "data = pre @ concat (map (\<lambda>(t, v). stun_attr t v) attrs) @ stun_attr ATTR_XOR_MAPPED_ADDRESS w @ rest"
    and "\<forall>(t, v) \<in> set attrs. t < 65536 \<and> t \<noteq> ATTR_XOR_MAPPED_ADDRESS \<and> length v < 65536"
    and "length w < 65536" "length data - length rest \<le> end"
  shows "stun_attrs data (length pre) end = xor_mapped w"
  using assms
proof (induction attrs arbitrary: pre)
  case Nil
  then show ?case using stun_attrs_at [of data pre ATTR_XOR_MAPPED_ADDRESS w rest "end"]
    by (simp add: stun_attr_def ATTR_XOR_MAPPED_ADDRESS_def)
next
  case (Cons tv attrs)
  obtain t v where tv: "tv = (t, v)" by (cases tv)
  have "stun_attrs data (length pre) end = stun_attrs data (length (pre @ stun_attr t v)) end"
    using Cons.prems stun_attrs_at [of data pre t v "concat (map (\<lambda>(t, v). stun_attr t v) attrs) @ stun_attr ATTR_XOR_MAPPED_ADDRESS w @ rest" "end"]
    by (simp add: tv stun_attr_def del: be_bytes.simps)
  also have "\<dots> = xor_mapped w"
    using Cons.prems by (intro Cons.IH) (simp_all add: tv)
  finally show ?case .
qed



end
