(* ===== verification/Tunnel.thy ===== *)
theory Tunnel
  imports Punch
begin

text \<open>
  The tunnel manager (\<^verbatim>\<open>client/tunnel_manager.py\<close>) and the keep-alive task
  (\<^verbatim>\<open>client/keepalive.py\<close>).  A tunnel object is a record; the manager owns the dictionary
  of tunnels, an operation on a tunnel object returns the updated object, and the operations that
  the client performs through the manager write it back.  A socket is the port it is bound to.
  Datagrams sent, relay requests and closed sockets are the effects an operation returns; that
  \<^verbatim>\<open>sendto\<close> fails in the operating system is not modelled.  \<^verbatim>\<open>create_tunnel\<close> and
  \<^verbatim>\<open>accept_tunnel\<close> run to completion with the outcomes of their waits as arguments.
\<close>

section \<open>State\<close>

record 'p peer_tunnel =
  peer_id :: string
  peer_ip :: "string option"
  t_state :: punch_state
  t_socket :: "int option"
  t_cipher :: "bytes option"
  last_rx :: time
  tx_seq :: int
  rx_seq :: int
  remote_addr :: "addr option"
  fallback_relay :: bool
  ecdh_private :: "'p option"

definition new_tunnel :: "string \<Rightarrow> string option \<Rightarrow> 'p peer_tunnel" where
  "new_tunnel p ip = \<lparr>peer_id = p, peer_ip = ip, t_state = IDLE, t_socket = None, t_cipher = None, last_rx = 0,
     tx_seq = 0, rx_seq = 0, remote_addr = None, fallback_relay = False, ecdh_private = None\<rparr>"

definition alive :: "'p peer_tunnel \<Rightarrow> bool" where
  "alive t \<longleftrightarrow> t_state t \<in> {PUNCHING, CONNECTED}"

datatype effect = SendTo int bytes addr | RelayRequestTo string | CloseSocket int

record 'p tunnel_manager =
  tunnels :: "(string, 'p peer_tunnel) dict"
  stale_timeout :: time
  running :: bool
  has_control :: bool

definition TUNNEL_STALE_TIMEOUT :: time where "TUNNEL_STALE_TIMEOUT = 60"

definition tm_init :: "time \<Rightarrow> 'p tunnel_manager" where
  "tm_init stale = \<lparr>tunnels = [], stale_timeout = stale, running = False, has_control = False\<rparr>"

definition inject_control :: "'p tunnel_manager \<Rightarrow> 'p tunnel_manager" where
  "inject_control m = m\<lparr>has_control := True\<rparr>"

definition get_tunnel :: "'p tunnel_manager \<Rightarrow> string \<Rightarrow> 'p peer_tunnel option" where
  "get_tunnel m p = dict_get (tunnels m) p"

definition list_tunnels :: "'p tunnel_manager \<Rightarrow> 'p peer_tunnel list" where
  "list_tunnels m = dict_values (tunnels m)"

text \<open>The exceptions that leave a tunnel operation.\<close>

datatype tunnel_error = TunnelOS py_exc | TunnelCrypto crypto_error | TunnelFrame frame_error | TunnelControl py_exc

section \<open>Establishing a tunnel\<close>

text \<open>\<^verbatim>\<open>if peer_pubkey: ... CipherContext(session_key)\<close>.\<close>

definition agree :: "'p crypto \<Rightarrow> 'p \<Rightarrow> bytes \<Rightarrow> crypto_error + bytes option" where
  "agree cr ecdh peer_pubkey =
     (if peer_pubkey = [] then Inr None
      else
        (case derive_session_key_from_bytes cr ecdh peer_pubkey of
           Inl e \<Rightarrow> Inl e
         | Inr session_key \<Rightarrow> (case cipher_context session_key of Inl e \<Rightarrow> Inl e | Inr k \<Rightarrow> Inr (Some k))))"

definition put_tunnel :: "'p tunnel_manager \<Rightarrow> 'p peer_tunnel \<Rightarrow> 'p tunnel_manager" where
  "put_tunnel m t = m\<lparr>tunnels := dict_set (peer_id t) t (tunnels m)\<rparr>"

definition sends :: "int \<Rightarrow> (bytes \<times> addr) list \<Rightarrow> effect list" where
  "sends sock ds = map (\<lambda>(d, a). SendTo sock d a) ds"

text \<open>After the punch: the session key, the relay fallback or the failure.  \<open>relay\<close> is the
  exception that \<^verbatim>\<open>request_relay\<close> raises, if any.\<close>

definition create_finish :: "'p crypto \<Rightarrow> 'p tunnel_manager \<Rightarrow> 'p peer_tunnel \<Rightarrow> 'p \<Rightarrow> bool \<times> addr option \<times> bytes
    \<Rightarrow> py_exc option \<Rightarrow> time \<Rightarrow> (tunnel_error + 'p peer_tunnel) \<times> 'p tunnel_manager \<times> effect list" where
  "create_finish cr m t ecdh outcome relay now =
     (case outcome of (success, transport_addr, peer_pubkey) \<Rightarrow>
        if success \<and> transport_addr \<noteq> None then
          (case agree cr ecdh peer_pubkey of
             Inl e \<Rightarrow> (Inl (TunnelCrypto e), m, [])
           | Inr c \<Rightarrow>
               (let t' = t\<lparr>t_cipher := c, t_state := CONNECTED, remote_addr := transport_addr, last_rx := now\<rparr>
                in (Inr t', put_tunnel m t', [])))
        else if has_control m \<and> \<not> success then
          (case relay of
             Some e \<Rightarrow> (Inl (TunnelControl e), m, [RelayRequestTo (peer_id t)])
           | None \<Rightarrow>
               (let t' = t\<lparr>fallback_relay := True, t_state := CONNECTED, last_rx := now\<rparr>
                in (Inr t', put_tunnel m t', [RelayRequestTo (peer_id t)])))
        else (let t' = t\<lparr>t_state := FAILED\<rparr> in (Inr t', put_tunnel m t', [])))"

text \<open>\<open>bound\<close> is the result of \<^verbatim>\<open>bind_udp_socket\<close>, \<open>evs\<close> what arrives during the
  punch.\<close>

definition create_tunnel :: "'p crypto \<Rightarrow> 'p tunnel_manager \<Rightarrow> string \<Rightarrow> string option \<Rightarrow> addr list \<Rightarrow> 'p \<Rightarrow> int result
    \<Rightarrow> time \<Rightarrow> time \<Rightarrow> (time \<times> recv_outcome) list \<Rightarrow> py_exc option \<Rightarrow> time
    \<Rightarrow> (tunnel_error + 'p peer_tunnel) \<times> 'p tunnel_manager \<times> effect list" where
  "create_tunnel cr m p ip peer_endpoints ecdh bound start timeout evs relay now =
     (let m1 = m\<lparr>tunnels := dict_del p (tunnels m)\<rparr> in
      case bound of
        Inl e \<Rightarrow> (Inl (TunnelOS e), m1, [])
      | Inr sock \<Rightarrow>
          (let t = (new_tunnel p ip)\<lparr>ecdh_private := Some ecdh, t_socket := Some sock, t_state := PUNCHING\<rparr>;
               m2 = put_tunnel m1 t
           in case punch_peer peer_endpoints (x_public cr ecdh) start timeout evs of
                Inl e \<Rightarrow> (Inl (TunnelFrame e), m2, [])
              | Inr (outcome, ss) \<Rightarrow>
                  (case create_finish cr m2 t ecdh outcome relay now of
                     (r, m3, es) \<Rightarrow> (r, m3, sends sock ss @ es))))"

definition accept_tunnel :: "'p crypto \<Rightarrow> 'p tunnel_manager \<Rightarrow> string \<Rightarrow> string option \<Rightarrow> int \<Rightarrow> 'p \<Rightarrow> time
    \<Rightarrow> (time \<times> recv_outcome) list \<Rightarrow> time
    \<Rightarrow> (tunnel_error + 'p peer_tunnel option) \<times> 'p tunnel_manager \<times> effect list" where
  "accept_tunnel cr m p ip sock ecdh deadline evs now =
     (let t = (new_tunnel p ip)\<lparr>t_socket := Some sock, t_state := PUNCHING, ecdh_private := Some ecdh\<rparr>;
          m1 = put_tunnel m t
      in case accept_punch (x_public cr ecdh) deadline evs of
           (None, ss) \<Rightarrow> (Inr None, put_tunnel m1 (t\<lparr>t_state := FAILED\<rparr>), sends sock ss)
         | (Some (peer_addr, peer_pubkey), ss) \<Rightarrow>
             (case agree cr ecdh peer_pubkey of
                Inl e \<Rightarrow> (Inl (TunnelCrypto e), m1, sends sock ss)
              | Inr c \<Rightarrow>
                  (let t' = t\<lparr>t_cipher := c, t_state := CONNECTED, remote_addr := Some peer_addr, last_rx := now\<rparr>
                   in (Inr (Some t'), put_tunnel m1 t', sends sock ss))))"

section \<open>Data plane\<close>

text \<open>The new tunnel object and the effects; the value of \<^verbatim>\<open>send_data\<close> is the length of the
  datagram, 0 when nothing is sent.  An oversized packet raises out of \<^verbatim>\<open>pack_frame\<close> after
  the sequence number has been advanced.\<close>

definition send_data :: "'p crypto \<Rightarrow> bytes \<Rightarrow> 'p peer_tunnel \<Rightarrow> bytes
    \<Rightarrow> (frame_error + nat) \<times> 'p peer_tunnel \<times> effect list" where
  "send_data cr nonce t packet =
     (if t_state t \<noteq> CONNECTED then (Inr 0, t, [])
      else
        (case (t_socket t, remote_addr t) of
           (Some sock, Some a) \<Rightarrow>
             (let t' = t\<lparr>tx_seq := tx_seq t + 1\<rparr>;
                  frame = (case t_cipher t of
                      Some key \<Rightarrow>
                        (case cipher_encrypt cr key nonce packet [] of
                           (c, tag) \<Rightarrow> pack_frame FRAME_DATA c (tx_seq t') FRAME_VERSION (Some tag))
                    | None \<Rightarrow> pack_frame FRAME_DATA packet (tx_seq t') FRAME_VERSION None)
              in case frame of
                   Inl e \<Rightarrow> (Inl e, t', [])
                 | Inr f \<Rightarrow> (Inr (length f), t', [SendTo sock f a]))
         | _ \<Rightarrow> (Inr 0, t, [])))"

definition send_keepalive :: "'p peer_tunnel \<Rightarrow> bool \<times> effect list" where
  "send_keepalive t =
     (if t_state t \<noteq> CONNECTED then (False, [])
      else
        (case (t_socket t, remote_addr t) of
           (Some sock, Some a) \<Rightarrow>
             (case make_keepalive_frame (tx_seq t) of Inl _ \<Rightarrow> (False, []) | Inr f \<Rightarrow> (True, [SendTo sock f a]))
         | _ \<Rightarrow> (False, [])))"

definition handle_frame :: "'p crypto \<Rightarrow> 'p peer_tunnel \<Rightarrow> bytes \<Rightarrow> addr \<Rightarrow> time
    \<Rightarrow> bytes option \<times> 'p peer_tunnel \<times> effect list" where
  "handle_frame cr t data a now =
     (case unpack_frame data of
        Inl _ \<Rightarrow> (None, t, [])
      | Inr (header, payload, tag) \<Rightarrow>
          if fh_type header = FRAME_DATA then
            (case (case t_cipher t of Some key \<Rightarrow> cipher_decrypt cr key payload tag [] | None \<Rightarrow> Inr payload) of
               Inl _ \<Rightarrow> (None, t, [])
             | Inr plaintext \<Rightarrow>
                 (Some plaintext,
                  t\<lparr>rx_seq := int (fh_seq_num header), last_rx := now, remote_addr := Some a\<rparr>, []))
          else if fh_type header = FRAME_KEEPALIVE then (None, t\<lparr>last_rx := now\<rparr>, [])
          else if fh_type header = FRAME_CLOSE then (None, t\<lparr>t_state := CLOSED\<rparr>, [])
          else if fh_type header = FRAME_PUNCH then
            (None, t, case t_socket t of Some sock \<Rightarrow> sends sock (ack_sends [] a) | None \<Rightarrow> [])
          else if fh_type header = FRAME_PUNCH_ACK then (None, t\<lparr>last_rx := now\<rparr>, [])
          else (None, t, []))"

definition recv_data :: "'p crypto \<Rightarrow> 'p peer_tunnel \<Rightarrow> recv_outcome \<Rightarrow> time
    \<Rightarrow> bytes option \<times> 'p peer_tunnel \<times> effect list" where
  "recv_data cr t r now =
     (if t_socket t = None \<or> t_state t \<noteq> CONNECTED then (None, t, [])
      else (case r of Datagram data a \<Rightarrow> handle_frame cr t data a now | _ \<Rightarrow> (None, t, [])))"

text \<open>One pass of \<^verbatim>\<open>recv_loop\<close> over a snapshot of the tunnels; \<open>poll\<close> is what each
  socket has to read.  A tunnel that left the dictionary during the pass is not written back.\<close>

fun recv_pass :: "'p crypto \<Rightarrow> (string \<Rightarrow> recv_outcome) \<Rightarrow> time \<Rightarrow> 'p peer_tunnel list \<Rightarrow> 'p tunnel_manager
    \<Rightarrow> (string \<times> bytes) list \<times> 'p tunnel_manager \<times> effect list" where
  "recv_pass cr poll now [] m = ([], m, [])"
| "recv_pass cr poll now (t # ts) m =
     (case recv_data cr t (poll (peer_id t)) now of
        (frame, t', es) \<Rightarrow>
          (case recv_pass cr poll now ts (m\<lparr>tunnels := dict_upd (peer_id t) (\<lambda>_. t') (tunnels m)\<rparr>) of
             (out, m', es') \<Rightarrow>
               ((case frame of Some f \<Rightarrow> [(peer_id t, f)] | None \<Rightarrow> []) @ out, m', es @ es')))"

section \<open>Closing\<close>

definition close_effects :: "'p peer_tunnel \<Rightarrow> effect list" where
  "close_effects t =
     (case t_socket t of
        None \<Rightarrow> []
      | Some sock \<Rightarrow>
          (case remote_addr t of
             None \<Rightarrow> []
           | Some a \<Rightarrow> (case make_close_frame (tx_seq t) of Inl _ \<Rightarrow> [] | Inr f \<Rightarrow> [SendTo sock f a]))
          @ [CloseSocket sock])"

definition close_tunnel :: "'p tunnel_manager \<Rightarrow> 'p peer_tunnel \<Rightarrow> 'p tunnel_manager \<times> 'p peer_tunnel \<times> effect list" where
  "close_tunnel m t =
     (m\<lparr>tunnels := dict_del (peer_id t) (tunnels m)\<rparr>, t\<lparr>t_state := CLOSED, t_socket := None\<rparr>, close_effects t)"

fun close_all :: "'p peer_tunnel list \<Rightarrow> 'p tunnel_manager \<Rightarrow> 'p tunnel_manager \<times> 'p peer_tunnel list \<times> effect list" where
  "close_all [] m = (m, [], [])"
| "close_all (t # ts) m =
     (case close_tunnel m t of (m1, t', es) \<Rightarrow>
        (case close_all ts m1 of (m2, gone, es') \<Rightarrow> (m2, t' # gone, es @ es')))"

text \<open>\<^verbatim>\<open>timeout or self._stale_timeout\<close>: a timeout of 0 means the default.\<close>

definition prune_stale :: "'p tunnel_manager \<Rightarrow> time option \<Rightarrow> time \<Rightarrow> 'p tunnel_manager \<times> 'p peer_tunnel list \<times> effect list" where
  "prune_stale m timeout now =
     (let limit = (case timeout of Some t \<Rightarrow> if t = 0 then stale_timeout m else t | None \<Rightarrow> stale_timeout m)
      in close_all (filter (\<lambda>t. t_state t = CONNECTED \<and> last_rx t > 0 \<and> now - last_rx t > limit) (list_tunnels m)) m)"

definition shutdown :: "'p tunnel_manager \<Rightarrow> 'p tunnel_manager \<times> effect list" where
  "shutdown m = (case close_all (list_tunnels m) (m\<lparr>running := False\<rparr>) of (m', _, es) \<Rightarrow> (m'\<lparr>tunnels := []\<rparr>, es))"

section \<open>Keep-alive\<close>

definition KEEPALIVE_SUSPECT_TIMEOUT :: time where "KEEPALIVE_SUSPECT_TIMEOUT = 30"

record keepalive =
  suspect_timeout :: time
  ka_stale_timeout :: time
  suspect_peers :: "string list"

fun tick_loop :: "time \<Rightarrow> 'p peer_tunnel list \<Rightarrow> keepalive \<Rightarrow> 'p tunnel_manager \<Rightarrow> keepalive \<times> 'p tunnel_manager \<times> effect list" where
  "tick_loop now [] k m = (k, m, [])"
| "tick_loop now (t # ts) k m =
     (if t_state t \<noteq> CONNECTED then tick_loop now ts k m
      else
        (let es = snd (send_keepalive t);
             since_rx = now - last_rx t;
             (k', m', es') =
               (if last_rx t > 0 then
                  if since_rx > ka_stale_timeout k then
                    (case close_tunnel m t of (m1, _, ces) \<Rightarrow>
                       (k\<lparr>suspect_peers := set_discard (peer_id t) (suspect_peers k)\<rparr>, m1, ces))
                  else if since_rx > suspect_timeout k then
                    (k\<lparr>suspect_peers := set_add (peer_id t) (suspect_peers k)\<rparr>, m, [])
                  else (k\<lparr>suspect_peers := set_discard (peer_id t) (suspect_peers k)\<rparr>, m, [])
                else (k, m, []))
         in case tick_loop now ts k' m' of (k'', m'', es'') \<Rightarrow> (k'', m'', es @ es' @ es'')))"

definition tick :: "time \<Rightarrow> keepalive \<Rightarrow> 'p tunnel_manager \<Rightarrow> keepalive \<times> 'p tunnel_manager \<times> effect list" where
  "tick now k m = tick_loop now (list_tunnels m) k m"

end
