(* ===== verification/Tunnel_Properties.thy ===== *)
theory Tunnel_Properties
  imports Tunnel
begin

text \<open>
  Properties of the tunnels: well-formedness of every tunnel in every run of the manager, key
  agreement between the punching and the accepting side with delivery of packets end to end,
  authenticity of what an encrypted tunnel delivers, and the keep-alive life cycle.
\<close>

section \<open>Frames on the wire\<close>

lemma data_frame_delivers:
  assumes "pack_frame FRAME_DATA payload q FRAME_VERSION tag = Inr f"
  shows "handle_frame cr t f a now =
    (case (case t_cipher t of Some key \<Rightarrow> cipher_decrypt cr key payload (case tag of Some x \<Rightarrow> x | None \<Rightarrow> replicate 16 0) []
           | None \<Rightarrow> Inr payload) of
       Inl _ \<Rightarrow> (None, t, [])
     | Inr p \<Rightarrow> (Some p, t\<lparr>rx_seq := q mod 4294967296, last_rx := now, remote_addr := Some a\<rparr>, []))"
proof -
  have q: "int (nat (q mod 4294967296)) = q mod 4294967296" by simp
  show ?thesis unfolding handle_frame_def unpack_packed [OF assms] sum.case prod.case
    by (simp only: frame_header.simps q if_True simp_thms)
qed

lemma send_data_frame:
  assumes "t_state t = CONNECTED" "t_socket t = Some sock" "remote_addr t = Some a" "t_cipher t = Some key"
    and "crypto_ok cr" "length nonce = 12" "length packet \<le> 65523"
  obtains f c tag where
    "send_data cr nonce t packet = (Inr (length f), t\<lparr>tx_seq := tx_seq t + 1\<rparr>, [SendTo sock f a])"
    "pack_frame FRAME_DATA c (tx_seq t + 1) FRAME_VERSION (Some tag) = Inr f"
    "cipher_decrypt cr key c tag [] = Inr packet"
proof -
  obtain c tag where e: "cipher_encrypt cr key nonce packet [] = (c, tag)" by (cases "cipher_encrypt cr key nonce packet []")
  note d = decrypt_encrypt [OF assms(5,6) e]
  obtain f where f: "pack_frame FRAME_DATA c (tx_seq t + 1) FRAME_VERSION (Some tag) = Inr f"
    using pack_frame_ok [of c FRAME_DATA "Some tag" "tx_seq t + 1"] d assms(7) by (auto simp: model_defs)
  show ?thesis
    using d f e assms(1-4) by (intro that [of f c tag]) (simp_all add: send_data_def Let_def)
qed

lemma send_receive:
  assumes "t_state t = CONNECTED" "t_socket t = Some sock" "remote_addr t = Some a" "t_cipher t = Some key"
    and "t_cipher u = Some key" "t_state u = CONNECTED" "t_socket u = Some sock'"
    and "crypto_ok cr" "length nonce = 12" "length packet \<le> 65523"
  shows "\<exists>f t'. send_data cr nonce t packet = (Inr (length f), t', [SendTo sock f a])
    \<and> (\<forall>src now. \<exists>u'. recv_data cr u (Datagram f src) now = (Some packet, u', []) \<and> remote_addr u' = Some src)"
proof -
  obtain f c tag where f:
    "send_data cr nonce t packet = (Inr (length f), t\<lparr>tx_seq := tx_seq t + 1\<rparr>, [SendTo sock f a])"
    "pack_frame FRAME_DATA c (tx_seq t + 1) FRAME_VERSION (Some tag) = Inr f"
    "cipher_decrypt cr key c tag [] = Inr packet"
    using send_data_frame [OF assms(1-4,8-10)] by metis
  show ?thesis
    using f(1,3) assms(5-7) by (auto simp: recv_data_def data_frame_delivers [OF f(2)])
qed

section \<open>Well-formed tunnels\<close>

text \<open>A connected tunnel has a socket, and an address unless it fell back to the relay; a session
  key has 32 bytes; sequence numbers do not become negative.\<close>

definition tunnel_ok :: "'p peer_tunnel \<Rightarrow> bool" where
  "tunnel_ok t \<longleftrightarrow>
     (t_state t = CONNECTED \<longrightarrow> t_socket t \<noteq> None \<and> (remote_addr t \<noteq> None \<or> fallback_relay t))
     \<and> (\<forall>k. t_cipher t = Some k \<longrightarrow> length k = 32)
     \<and> (fallback_relay t \<longrightarrow> t_cipher t = None)
     \<and> 0 \<le> tx_seq t \<and> 0 \<le> rx_seq t \<and> rx_seq t < 4294967296 \<and> t_state t \<noteq> IDLE"

definition manager_ok :: "'p tunnel_manager \<Rightarrow> bool" where
  "manager_ok m \<longleftrightarrow> dict_wf (tunnels m) \<and> (\<forall>(p, t) \<in> set (tunnels m). peer_id t = p \<and> tunnel_ok t)"

datatype 'p tunnel_event =
    Create string "string option" "addr list" 'p "int result" time time "(time \<times> recv_outcome) list" "py_exc option" time
  | Accept string "string option" int 'p time "(time \<times> recv_outcome) list" time
  | SendOn string bytes bytes
  | RecvPass "string \<Rightarrow> recv_outcome" time
  | CloseOn string
  | Prune "time option" time
  | Tick keepalive time
  | Shutdown

fun tunnel_step :: "'p crypto \<Rightarrow> 'p tunnel_manager \<Rightarrow> 'p tunnel_event \<Rightarrow> 'p tunnel_manager" where
  "tunnel_step cr m (Create p ip eps ecdh bound start timeout evs relay now) =
     fst (snd (create_tunnel cr m p ip eps ecdh bound start timeout evs relay now))"
| "tunnel_step cr m (Accept p ip sock ecdh deadline evs now) = fst (snd (accept_tunnel cr m p ip sock ecdh deadline evs now))"
| "tunnel_step cr m (SendOn p nonce packet) =
     (case get_tunnel m p of None \<Rightarrow> m | Some t \<Rightarrow> put_tunnel m (fst (snd (send_data cr nonce t packet))))"
| "tunnel_step cr m (RecvPass poll now) = fst (snd (recv_pass cr poll now (list_tunnels m) m))"
| "tunnel_step cr m (CloseOn p) = (case get_tunnel m p of None \<Rightarrow> m | Some t \<Rightarrow> fst (close_tunnel m t))"
| "tunnel_step cr m (Prune timeout now) = fst (prune_stale m timeout now)"
| "tunnel_step cr m (Tick k now) = fst (snd (tick now k m))"
| "tunnel_step cr m Shutdown = fst (shutdown m)"

lemma manager_ok_put: "manager_ok m \<Longrightarrow> tunnel_ok t \<Longrightarrow> manager_ok (put_tunnel m t)"
  by (auto simp: manager_ok_def put_tunnel_def set_dict_set)

lemma manager_ok_del: "manager_ok m \<Longrightarrow> manager_ok (m\<lparr>tunnels := dict_del p (tunnels m)\<rparr>)"
  by (auto simp: manager_ok_def set_dict_del)

lemma manager_ok_upd:
  "manager_ok m \<Longrightarrow> tunnel_ok t \<Longrightarrow> peer_id t = p \<Longrightarrow> manager_ok (m\<lparr>tunnels := dict_upd p (\<lambda>_. t) (tunnels m)\<rparr>)"
  by (auto simp: manager_ok_def dict_upd_def o_def)

lemma manager_ok_get: "manager_ok m \<Longrightarrow> get_tunnel m p = Some t \<Longrightarrow> peer_id t = p \<and> tunnel_ok t"
  by (auto simp: manager_ok_def get_tunnel_def dest!: map_of_SomeD)

lemma agree_key: "agree cr e pk = Inr (Some k) \<Longrightarrow> length k = 32"
  by (auto simp: agree_def cipher_context_def SESSION_KEY_LENGTH_def split: if_splits sum.splits)

lemma tunnel_ok_connected:
  assumes "agree cr e pk = Inr c"
  shows "tunnel_ok ((new_tunnel p ip)\<lparr>ecdh_private := x, t_socket := Some s, t_state := CONNECTED, t_cipher := c,
            remote_addr := Some a, last_rx := now\<rparr>)"
  using agree_key [of cr e pk] assms by (auto simp: tunnel_ok_def new_tunnel_def)

lemma create_finish_ok:
  assumes "manager_ok m" "t = (new_tunnel p ip)\<lparr>ecdh_private := x, t_socket := Some s, t_state := PUNCHING\<rparr>"
    and "create_finish cr m t e outcome relay now = (r, m', es)"
  shows "manager_ok m'"
proof -
  obtain b a pk where o: "outcome = (b, a, pk)" by (cases outcome)
  have relayed: "tunnel_ok (t\<lparr>fallback_relay := True, t_state := CONNECTED, last_rx := now\<rparr>)"
    and failed: "tunnel_ok (t\<lparr>t_state := FAILED\<rparr>)"
    using assms(2) by (auto simp: tunnel_ok_def new_tunnel_def)
  have "tunnel_ok (t\<lparr>t_cipher := c, t_state := CONNECTED, remote_addr := a, last_rx := now\<rparr>)"
    if "agree cr e pk = Inr c" "a = Some d" for c d
    using agree_key [of cr e pk] that assms(2) by (auto simp: tunnel_ok_def new_tunnel_def)
  then show ?thesis
    using assms(1,3) relayed failed
    by (auto simp: create_finish_def o Let_def intro: manager_ok_put split: if_splits sum.splits option.splits)
qed

lemma create_tunnel_ok:
  assumes "manager_ok m"
  shows "manager_ok (fst (snd (create_tunnel cr m p ip eps ecdh bound start timeout evs relay now)))"
proof (cases bound)
  case Inl
  then show ?thesis using manager_ok_del [OF assms] by (simp add: create_tunnel_def)
next
  case (Inr sock)
  let ?t = "(new_tunnel p ip)\<lparr>ecdh_private := Some ecdh, t_socket := Some sock, t_state := PUNCHING\<rparr>"
  let ?m = "put_tunnel (m\<lparr>tunnels := dict_del p (tunnels m)\<rparr>) ?t"
  have ok: "manager_ok ?m"
    by (intro manager_ok_put manager_ok_del assms) (simp add: tunnel_ok_def new_tunnel_def)
  show ?thesis
  proof (cases "punch_peer eps (x_public cr ecdh) start timeout evs")
    case (Inr v)
    obtain outcome ss r m' es where v: "v = (outcome, ss)" "create_finish cr ?m ?t ecdh outcome relay now = (r, m', es)"
      by (metis surj_pair)
    show ?thesis
      using create_finish_ok [OF ok refl v(2)] \<open>bound = Inr sock\<close> Inr v by (simp add: create_tunnel_def Let_def)
  qed (use ok \<open>bound = Inr sock\<close> in \<open>simp add: create_tunnel_def Let_def\<close>)
qed

lemma accept_tunnel_ok:
  assumes "manager_ok m"
  shows "manager_ok (fst (snd (accept_tunnel cr m p ip sock ecdh deadline evs now)))"
proof -
  let ?t = "(new_tunnel p ip)\<lparr>t_socket := Some sock, t_state := PUNCHING, ecdh_private := Some ecdh\<rparr>"
  have ok: "manager_ok (put_tunnel m ?t)"
    by (intro manager_ok_put assms) (simp add: tunnel_ok_def new_tunnel_def)
  have failed: "tunnel_ok (?t\<lparr>t_state := FAILED\<rparr>)" by (simp add: tunnel_ok_def new_tunnel_def)
  have "tunnel_ok (?t\<lparr>t_cipher := c, t_state := CONNECTED, remote_addr := Some a, last_rx := now\<rparr>)"
    if "agree cr ecdh pk = Inr c" for c a pk
    using agree_key [of cr ecdh pk] that by (auto simp: tunnel_ok_def new_tunnel_def)
  then show ?thesis
    using ok failed
    by (auto simp: accept_tunnel_def Let_def intro: manager_ok_put split: prod.splits option.splits sum.splits)
qed

lemma send_data_ok: "tunnel_ok t \<Longrightarrow> tunnel_ok (fst (snd (send_data cr nonce t packet)))"
  by (auto simp: send_data_def Let_def tunnel_ok_def split: option.splits sum.splits prod.splits)

lemma handle_frame_ok:
  "tunnel_ok t \<Longrightarrow> tunnel_ok (fst (snd (handle_frame cr t data a now))) \<and> peer_id (fst (snd (handle_frame cr t data a now))) = peer_id t"
proof -
  assume ok: "tunnel_ok t"
  show ?thesis
  proof (cases "unpack_frame data")
    case (Inr v)
    obtain h payload tag where v: "v = (h, payload, tag)" by (cases v)
    have "fh_seq_num h < 4294967296"
      using Inr be_val_take_bound [of 4 "drop 4 data"]
      by (auto simp: v unpack_frame_def Let_def split: if_splits)
    then show ?thesis
      using ok by (auto simp: handle_frame_def Inr v tunnel_ok_def split: sum.splits)
  qed (simp add: handle_frame_def ok)
qed

lemma recv_data_ok:
  "tunnel_ok t \<Longrightarrow> tunnel_ok (fst (snd (recv_data cr t r now))) \<and> peer_id (fst (snd (recv_data cr t r now))) = peer_id t"
  using handle_frame_ok [of t cr _ _ now] by (auto simp: recv_data_def split: recv_outcome.splits)

lemma recv_pass_ok:
  "manager_ok m \<Longrightarrow> \<forall>t \<in> set ts. tunnel_ok t \<Longrightarrow> manager_ok (fst (snd (recv_pass cr poll now ts m)))"
proof (induction ts arbitrary: m)
  case (Cons t ts)
  obtain f t' es where r: "recv_data cr t (poll (peer_id t)) now = (f, t', es)"
    by (metis surj_pair)
  have "manager_ok (m\<lparr>tunnels := dict_upd (peer_id t) (\<lambda>_. t') (tunnels m)\<rparr>)"
    using recv_data_ok [of t cr "poll (peer_id t)" now] Cons.prems by (intro manager_ok_upd) (simp_all add: r)
  then have "manager_ok (fst (snd (recv_pass cr poll now ts (m\<lparr>tunnels := dict_upd (peer_id t) (\<lambda>_. t') (tunnels m)\<rparr>))))"
    using Cons.IH Cons.prems(2) by simp
  then show ?case by (simp add: r case_prod_beta)
qed simp

lemma close_all_tunnels: "tunnels (fst (close_all ts m)) = filter (\<lambda>(p, v). p \<notin> peer_id ` set ts) (tunnels m)"
proof (induction ts arbitrary: m)
  case (Cons t ts)
  show ?case
    by (simp add: close_tunnel_def case_prod_beta Cons.IH dict_del_def)
qed (simp add: case_prod_beta)

lemma tunnel_ok_list: "manager_ok m \<Longrightarrow> t \<in> set (list_tunnels m) \<Longrightarrow> tunnel_ok t"
  by (auto simp: manager_ok_def list_tunnels_def)

lemma manager_ok_filter: "manager_ok m \<Longrightarrow> tunnels m' = filter P (tunnels m) \<Longrightarrow> manager_ok m'"
  by (auto simp: manager_ok_def)

section \<open>The keep-alive cycle\<close>

definition examined :: "'p peer_tunnel \<Rightarrow> bool" where
  "examined t \<longleftrightarrow> t_state t = CONNECTED \<and> last_rx t > 0"

definition silent_for :: "time \<Rightarrow> time \<Rightarrow> 'p peer_tunnel \<Rightarrow> bool" where
  "silent_for now limit t \<longleftrightarrow> examined t \<and> now - last_rx t > limit"

lemma tick_loop_step:
  "tick_loop now (t # ts) k m =
     (let es = (if t_state t = CONNECTED then snd (send_keepalive t) else []);
          stale = silent_for now (ka_stale_timeout k) t;
          k' = (if examined t then
                  k\<lparr>suspect_peers := (if \<not> stale \<and> silent_for now (suspect_timeout k) t then set_add else set_discard)
                                       (peer_id t) (suspect_peers k)\<rparr>
                else k);
          m' = (if stale then fst (close_tunnel m t) else m);
          es' = (if stale then close_effects t else [])
      in case tick_loop now ts k' m' of (k'', m'', es'') \<Rightarrow> (k'', m'', es @ es' @ es''))"
  by (auto simp: examined_def silent_for_def close_tunnel_def Let_def split: prod.splits)

lemma tick_loop_exact:
  assumes "distinct (map peer_id ts)" "tick_loop now ts k m = (k', m', es)"
  shows "tunnels m' = filter (\<lambda>(p, v). p \<notin> peer_id ` {t \<in> set ts. silent_for now (ka_stale_timeout k) t}) (tunnels m)
    \<and> ka_stale_timeout k' = ka_stale_timeout k \<and> suspect_timeout k' = suspect_timeout k
    \<and> (\<forall>p. p \<in> set (suspect_peers k') \<longleftrightarrow>
          (if \<exists>t \<in> set ts. peer_id t = p \<and> examined t
           then \<exists>t \<in> set ts. peer_id t = p \<and> silent_for now (suspect_timeout k) t \<and> \<not> silent_for now (ka_stale_timeout k) t
           else p \<in> set (suspect_peers k)))"
  using assms
proof (induction ts arbitrary: k m k' m' es)
  case Nil
  then show ?case by (simp add: case_prod_beta)
next
  case (Cons t ts)
  let ?st = "silent_for now (ka_stale_timeout k) t"
  let ?k = "if examined t then
              k\<lparr>suspect_peers := (if \<not> ?st \<and> silent_for now (suspect_timeout k) t then set_add else set_discard)
                                   (peer_id t) (suspect_peers k)\<rparr>
            else k"
  let ?m = "if ?st then fst (close_tunnel m t) else m"
  obtain k1 m1 es1 where rec: "tick_loop now ts ?k ?m = (k1, m1, es1)" by (metis surj_pair)
  then have new: "k' = k1" "m' = m1"
    using Cons.prems(2) unfolding tick_loop_step Let_def by simp_all
  have cfg: "ka_stale_timeout ?k = ka_stale_timeout k" "suspect_timeout ?k = suspect_timeout k" by auto
  have fresh: "u \<in> set ts \<Longrightarrow> peer_id u \<noteq> peer_id t" for u using Cons.prems(1) by (auto simp: image_iff)
  have "distinct (map peer_id ts)" using Cons.prems(1) by simp
  note IH = Cons.IH [OF this rec, unfolded cfg]
  have "tunnels m1 = filter (\<lambda>(p, v). p \<notin> peer_id ` {t \<in> set ts. silent_for now (ka_stale_timeout k) t})
      (if ?st then dict_del (peer_id t) (tunnels m) else tunnels m)"
    using IH by (simp add: close_tunnel_def)
  also have "\<dots> = filter (\<lambda>(p, v). p \<notin> peer_id ` {u \<in> set (t # ts). silent_for now (ka_stale_timeout k) u}) (tunnels m)"
    unfolding dict_del_def by (auto intro!: filter_cong)
  finally have tun: "tunnels m1 = \<dots>" .
  have "p \<in> set (suspect_peers k1) \<longleftrightarrow>
          (if \<exists>t \<in> set (t # ts). peer_id t = p \<and> examined t
           then \<exists>t \<in> set (t # ts). peer_id t = p \<and> silent_for now (suspect_timeout k) t \<and> \<not> silent_for now (ka_stale_timeout k) t
           else p \<in> set (suspect_peers k))" for p
  proof (cases "peer_id t = p")
    case True
    then have "\<not> (\<exists>t \<in> set ts. peer_id t = p \<and> examined t)" using fresh by auto
    then have "p \<in> set (suspect_peers k1) \<longleftrightarrow> p \<in> set (suspect_peers ?k)" using IH by presburger
    then show ?thesis using True fresh by (auto simp: silent_for_def)
  next
    case False
    then have "p \<in> set (suspect_peers ?k) \<longleftrightarrow> p \<in> set (suspect_peers k)" by auto
    then show ?thesis using False IH by (auto simp: silent_for_def)
  qed
  then show ?case using IH tun new cfg by simp
qed

section \<open>Runs of the manager\<close>

lemma distinct_list_tunnels: "manager_ok m \<Longrightarrow> distinct (map peer_id (list_tunnels m))"
proof -
  assume "manager_ok m"
  then have "map peer_id (list_tunnels m) = map fst (tunnels m)"
    by (auto simp: manager_ok_def list_tunnels_def)
  then show ?thesis using \<open>manager_ok m\<close> by (simp add: manager_ok_def)
qed

lemma tunnel_step_ok: "manager_ok m \<Longrightarrow> manager_ok (tunnel_step cr m e)"
proof (cases e)
  case (SendOn p nonce packet)
  assume "manager_ok m"
  then show ?thesis
    using SendOn manager_ok_get [of m p] by (auto intro: manager_ok_put send_data_ok split: option.splits)
next
  case (RecvPass poll now)
  assume "manager_ok m"
  then show ?thesis using RecvPass tunnel_ok_list recv_pass_ok by fastforce
next
  case (CloseOn p)
  assume "manager_ok m"
  then show ?thesis using CloseOn by (auto simp: close_tunnel_def intro: manager_ok_del split: option.splits)
next
  case (Prune timeout now)
  assume "manager_ok m"
  then show ?thesis using Prune manager_ok_filter [OF _ close_all_tunnels] by (simp add: prune_stale_def Let_def)
next
  case (Tick k now)
  assume ok: "manager_ok m"
  obtain k' m' es where t: "tick_loop now (list_tunnels m) k m = (k', m', es)" by (metis surj_pair)
  have "tunnels m' = filter (\<lambda>(p, v). p \<notin> peer_id ` {t \<in> set (list_tunnels m). silent_for now (ka_stale_timeout k) t}) (tunnels m)"
    using tick_loop_exact [OF distinct_list_tunnels [OF ok] t] by blast
  then have "manager_ok m'" using ok manager_ok_filter by blast
  then show ?thesis by (simp add: Tick tick_def t)
next
  case Shutdown
  then show ?thesis by (simp add: shutdown_def manager_ok_def case_prod_beta)
qed (simp_all add: create_tunnel_ok accept_tunnel_ok)

interpretation tunnel_run: invariant_machine "tunnel_step cr" manager_ok
  by unfold_locales (rule tunnel_step_ok)

section \<open>Two ends of a tunnel\<close>

lemma accept_punch_noise:
  "\<forall>(t, ev) \<in> set noise. t < d \<and> (\<exists>b a. ev = Datagram b a \<and> \<not> is_frame_type b FRAME_PUNCH) \<Longrightarrow>
     accept_punch pk d (noise @ evs) = accept_punch pk d evs"
  by (induction noise) auto

lemma punch_loop_waits:
  "\<forall>(t, ev) \<in> set waits. t < d \<and> ev = RecvTimeout \<Longrightarrow> fst (punch_loop f eps d (waits @ evs)) = fst (punch_loop f eps d evs)"
  by (induction waits) (auto simp: case_prod_beta)

lemma accept_side:
  assumes "crypto_ok cr" "make_punch_frame 0 (x_public cr ka) = Inr punch" "t0 < deadline"
    and "\<forall>(t, ev) \<in> set noise. t < deadline \<and> (\<exists>b a. ev = Datagram b a \<and> \<not> is_frame_type b FRAME_PUNCH)"
    and "derive_session_key_from_bytes cr kb (x_public cr ka) = Inr k" "cipher_context k = Inr k"
  shows "accept_tunnel cr m p ip sock kb deadline (noise @ (t0, Datagram punch a) # rest) now =
     (let t = (new_tunnel p ip)\<lparr>t_socket := Some sock, t_state := CONNECTED, ecdh_private := Some kb,
                t_cipher := Some k, remote_addr := Some a, last_rx := now\<rparr>
      in (Inr (Some t), put_tunnel (put_tunnel m ((new_tunnel p ip)\<lparr>t_socket := Some sock, t_state := PUNCHING,
                ecdh_private := Some kb\<rparr>)) t, sends sock (ack_sends (x_public cr kb) a)))"
proof -
  have len: "length (x_public cr ka) = 32" using assms(1) by (simp add: crypto_ok_def)
  have f: "is_frame_type punch FRAME_PUNCH" "try_extract_payload punch = x_public cr ka"
    using punch_frame_ok [of "x_public cr ka" 0] len assms(2) by auto
  have "accept_punch (x_public cr kb) deadline (noise @ (t0, Datagram punch a) # rest)
      = (Some (a, x_public cr ka), ack_sends (x_public cr kb) a)"
    unfolding accept_punch_noise [OF assms(4)] using assms(3) f by simp
  moreover have "x_public cr ka \<noteq> []" using len by auto
  ultimately show ?thesis
    using assms(5,6) by (simp add: accept_tunnel_def agree_def Let_def new_tunnel_def)
qed

lemma create_side:
  assumes "crypto_ok cr" "make_punch_ack_frame 0 (x_public cr kb) = Inr ack" "t1 < start + timeout" "eps \<noteq> []"
    and "\<forall>(t, ev) \<in> set waits. t < start + timeout \<and> ev = RecvTimeout"
    and "derive_session_key_from_bytes cr ka (x_public cr kb) = Inr k" "cipher_context k = Inr k"
    and "create_tunnel cr m p ip eps ka (Inr sock) start timeout (waits @ (t1, Datagram ack a) # rest) relay now = (r, m', es)"
  shows "\<exists>t. r = Inr t \<and> get_tunnel m' p = Some t \<and> t_state t = CONNECTED \<and> t_socket t = Some sock
    \<and> remote_addr t = Some a \<and> t_cipher t = Some k"
proof -
  have len: "length (x_public cr kb) = 32" "length (x_public cr ka) = 32" using assms(1) by (simp_all add: crypto_ok_def)
  obtain punch where punch: "make_punch_frame 0 (x_public cr ka) = Inr punch"
    using punch_frame_ok [of "x_public cr ka" 0] len by auto
  have f: "is_frame_type ack FRAME_PUNCH_ACK" "try_extract_payload ack = x_public cr kb"
    using ack_frame_ok [of "x_public cr kb" 0] len assms(2) by auto
  have "fst (punch_loop punch eps (start + timeout) (waits @ (t1, Datagram ack a) # rest)) = (True, Some a, x_public cr kb)"
    unfolding punch_loop_waits [OF assms(5)] using assms(3) f by simp
  then obtain ss where pp: "punch_peer eps (x_public cr ka) start timeout (waits @ (t1, Datagram ack a) # rest)
      = Inr ((True, Some a, x_public cr kb), ss)"
    using assms(4) punch by (auto simp: punch_peer_def case_prod_beta)
  have "x_public cr kb \<noteq> []" using len by auto
  then show ?thesis
    using assms(6-8) unfolding create_tunnel_def pp
    by (auto simp: create_finish_def agree_def Let_def put_tunnel_def get_tunnel_def new_tunnel_def)
qed


text \<open>A toy library that satisfies the laws: keys are numbers, the shared secret is their sum.\<close>

definition demo_crypto :: "byte crypto" where
  "demo_crypto = \<lparr>x_public = (\<lambda>a. replicate 32 a), x_exchange = (\<lambda>a pk. Some [a + hd pk]),
     hkdf = (\<lambda>s i. replicate 32 (hd s)), gcm_encrypt = (\<lambda>k n p ad. p @ replicate 16 (hd k)),
     gcm_decrypt = (\<lambda>k n c ad. if length c \<ge> 16 \<and> drop (length c - 16) c = replicate 16 (hd k)
                               then Some (take (length c - 16) c) else None)\<rparr>"

lemma demo_crypto_ok: "crypto_ok demo_crypto"
  by (simp add: crypto_ok_def demo_crypto_def add.commute)


section \<open>What an encrypted tunnel accepts\<close>

lemma cipher_decrypt_Inr:
  "cipher_decrypt cr key payload tag ad = Inr p \<Longrightarrow> gcm_decrypt cr key (take 12 payload) (drop 12 payload @ tag) ad = Some p"
  by (auto simp: cipher_decrypt_def NONCE_LENGTH_def split: if_splits option.splits)

text \<open>C16: authenticity of encrypted tunnels.  If handling a datagram on a tunnel with a session key
  delivers something, moves the peer's address or the sequence number, then the AEAD accepted
  exactly the delivered plaintext under the session key, and it was taken from a DATA frame in the
  datagram; no datagram changes the session key, the socket or the identity of the tunnel.\<close>
theorem encrypted_tunnel_authentic:
  assumes "t_cipher t = Some key" "handle_frame cr t data a now = (delivered, t', es)"
  shows "(delivered \<noteq> None \<or> remote_addr t' \<noteq> remote_addr t \<or> rx_seq t' \<noteq> rx_seq t \<longrightarrow>
      (\<exists>header payload tag p. unpack_frame data = Inr (header, payload, tag) \<and> fh_type header = FRAME_DATA
         \<and> gcm_decrypt cr key (take 12 payload) (drop 12 payload @ tag) [] = Some p
         \<and> delivered = Some p \<and> remote_addr t' = Some a \<and> rx_seq t' = int (fh_seq_num header)))
    \<and> t_cipher t' = t_cipher t \<and> t_socket t' = t_socket t \<and> peer_id t' = peer_id t"
proof (cases "unpack_frame data")
  case (Inr v)
  obtain h payload tag where v: "v = (h, payload, tag)" by (cases v)
  show ?thesis
    using assms Inr v by (auto simp: handle_frame_def dest!: cipher_decrypt_Inr split: if_splits sum.splits)
qed (use assms in \<open>auto simp: handle_frame_def\<close>)

theorem encrypted_tunnel_authentic_witness:
  "let t = (new_tunnel ''b'' (Some ''25.0.0.2''))\<lparr>t_cipher := Some (replicate 32 9)\<rparr>;
       r = handle_frame demo_crypto t [1, 2] (''192.0.2.9'', 7) 3
   in fst r = None \<and> t_cipher (fst (snd r)) = Some (replicate 32 9)"
proof -
  let ?t = "(new_tunnel ''b'' (Some ''25.0.0.2''))\<lparr>t_cipher := Some (replicate 32 9)\<rparr> :: byte peer_tunnel"
  have "unpack_frame [1, 2] = Inl FrameError" by (simp add: unpack_frame_def model_defs)
  then have r: "handle_frame demo_crypto ?t [1, 2] (''192.0.2.9'', 7) 3 = (None, ?t, [])"
    by (simp add: handle_frame_def)
  from encrypted_tunnel_authentic [OF _ this] show ?thesis by (simp add: r Let_def)
qed

section \<open>Life cycle\<close>

text \<open>C17: every tunnel of every run of the manager is well formed, however creation, acceptance,
  traffic, keep-alive, pruning and shutdown interleave and whatever arrives on the sockets: it is
  filed under its peer, connected tunnels have a socket and a peer address (or fell back to the
  relay), session keys have 32 bytes, relayed tunnels have none and sequence numbers are in range.\<close>
theorem tunnels_well_formed:
  "manager_ok (foldl (tunnel_step cr) ((if control then inject_control else id) (tm_init stale)) es)"
  by (rule tunnel_run.run_keeps) (simp add: tm_init_def inject_control_def manager_ok_def)

text \<open>One keep-alive cycle in any reachable state closes exactly the connected tunnels that have
  been silent for longer than the stale timeout, leaves all others unchanged, and marks as suspect
  exactly the peers silent for longer than the suspect timeout but not stale (peers without an
  examined tunnel keep their mark).\<close>
theorem keepalive_lifecycle:
  assumes "m = foldl (tunnel_step cr) (tm_init stale) es" "tick now k m = (k', m', effs)"
  shows "get_tunnel m' p = (case get_tunnel m p of
           Some t \<Rightarrow> if silent_for now (ka_stale_timeout k) t then None else Some t | None \<Rightarrow> None)
    \<and> (p \<in> set (suspect_peers k') \<longleftrightarrow> (case get_tunnel m p of
           Some t \<Rightarrow> if examined t
             then silent_for now (suspect_timeout k) t \<and> \<not> silent_for now (ka_stale_timeout k) t
             else p \<in> set (suspect_peers k)
         | None \<Rightarrow> p \<in> set (suspect_peers k)))"
proof -
  have ok: "manager_ok m" unfolding assms(1) by (rule tunnel_run.run_keeps) (simp add: tm_init_def manager_ok_def)
  have wf: "dict_wf (tunnels m)" using ok by (simp add: manager_ok_def)
  note x = tick_loop_exact [OF distinct_list_tunnels [OF ok] assms(2) [unfolded tick_def]]
  have mem: "u \<in> set (list_tunnels m) \<and> peer_id u = p \<longleftrightarrow> get_tunnel m p = Some u" for u
    using ok wf by (force simp: manager_ok_def list_tunnels_def get_tunnel_def)
  have mem_ex: "(\<exists>t \<in> set (list_tunnels m). peer_id t = p \<and> Q t) \<longleftrightarrow> (\<exists>t. get_tunnel m p = Some t \<and> Q t)" for Q
    unfolding mem [symmetric] by auto
  let ?S = "peer_id ` {t \<in> set (list_tunnels m). silent_for now (ka_stale_timeout k) t}"
  have "tunnels m' = filter (\<lambda>q. fst q \<notin> ?S) (tunnels m)" using x by (simp add: case_prod_unfold)
  then have "get_tunnel m' p = (if p \<in> ?S then None else get_tunnel m p)"
    unfolding get_tunnel_def using map_of_filter_keys [of "\<lambda>p. p \<notin> ?S" "tunnels m" p] by (simp only: if_not_P if_P) auto
  moreover have "p \<in> peer_id ` {t \<in> set (list_tunnels m). silent_for now (ka_stale_timeout k) t}
      \<longleftrightarrow> (\<exists>u. get_tunnel m p = Some u \<and> silent_for now (ka_stale_timeout k) u)"
    unfolding mem [symmetric] by auto
  moreover have "p \<in> set (suspect_peers k') \<longleftrightarrow>
      (if \<exists>t. get_tunnel m p = Some t \<and> examined t
       then \<exists>t. get_tunnel m p = Some t \<and> silent_for now (suspect_timeout k) t \<and> \<not> silent_for now (ka_stale_timeout k) t
       else p \<in> set (suspect_peers k))"
    using x unfolding mem_ex [symmetric] by blast
  ultimately show ?thesis by (cases "get_tunnel m p") auto
qed

theorem keepalive_lifecycle_witness:
  "\<exists>m t. get_tunnel (m :: byte tunnel_manager) ''a'' = Some t
     \<and> get_tunnel (fst (snd (tick 100 \<lparr>suspect_timeout = 30, ka_stale_timeout = 60, suspect_peers = []\<rparr> m))) ''a'' = None"
proof -
  obtain punch where punch: "make_punch_frame 0 (x_public demo_crypto 3) = Inr punch"
    using punch_frame_ok [of "x_public demo_crypto 3" 0] demo_crypto_ok by (auto simp: crypto_ok_def)
  obtain k where k: "derive_session_key_from_bytes demo_crypto 5 (x_public demo_crypto 3) = Inr k" "cipher_context k = Inr k"
    using session_key_usable [OF demo_crypto_ok] by blast
  let ?e = "Accept ''a'' (Some ''25.0.0.1'') 50001 5 5 ([] @ [(0, Datagram punch (''192.0.2.1'', 50000))]) 1"
  define m where "m = foldl (tunnel_step demo_crypto) (tm_init 60) [?e]"
  obtain t where t: "get_tunnel m ''a'' = Some t" "t_state t = CONNECTED" "last_rx t = 1"
    using accept_side [OF demo_crypto_ok punch, of 0 5 "[]" 5 k "tm_init 60" "''a''" "Some ''25.0.0.1''" 50001 "(''192.0.2.1'', 50000)" "[]" 1] k
    by (simp add: m_def Let_def put_tunnel_def get_tunnel_def new_tunnel_def)
  obtain k' m' effs where tick: "tick 100 \<lparr>suspect_timeout = 30, ka_stale_timeout = 60, suspect_peers = []\<rparr> m = (k', m', effs)"
    by (metis surj_pair)
  have "get_tunnel m' ''a'' = None"
    using keepalive_lifecycle [OF m_def tick, of "''a''"] t by (simp add: silent_for_def examined_def)
  then show ?thesis using t(1) by (intro exI [of _ m] exI [of _ t]) (simp add: tick)
qed

section \<open>Weaknesses\<close>

text \<open>A tunnel that fell back to the relay has no peer address, so nothing is ever sent on it; but its
  socket stays open without a cipher: the first DATA frame from any address is delivered, and from
  then on every packet is sent in the clear to that address.\<close>

lemma relay_fallback_sends_nothing: "remote_addr t = None \<Longrightarrow> send_data cr nonce t packet = (Inr 0, t, [])"
  by (simp add: send_data_def split: option.splits)

lemma relay_fallback_hijacked:
  assumes "t_state t = CONNECTED" "t_socket t = Some sock" "t_cipher t = None"
    and "pack_frame FRAME_DATA forged q FRAME_VERSION None = Inr f" "length packet \<le> 65535"
  shows "\<exists>t' g. recv_data cr t (Datagram f attacker) now = (Some forged, t', [])
    \<and> snd (snd (send_data cr nonce t' packet)) = [SendTo sock g attacker]
    \<and> (\<exists>h tag. unpack_frame g = Inr (h, packet, tag))"
proof -
  obtain g where g: "pack_frame FRAME_DATA packet (tx_seq t + 1) FRAME_VERSION None = Inr g"
    using pack_frame_ok [of packet FRAME_DATA None "tx_seq t + 1"] assms(5) by (auto simp: model_defs)
  show ?thesis
    using assms(1-3) g unpack_packed [OF g]
    by (auto simp: recv_data_def data_frame_delivers [OF assms(4)] send_data_def Let_def)
qed

text \<open>A CLOSE frame is not authenticated, and a delivered datagram is delivered again when it is
  replayed: the received sequence number is stored and never compared.\<close>

lemma close_frame_unauthenticated:
  assumes "make_close_frame q = Inr f"
  shows "handle_frame cr t f a now = (None, t\<lparr>t_state := CLOSED\<rparr>, [])"
proof -
  have "unpack_frame f = Inr (\<lparr>fh_version = 1, fh_type = FRAME_CLOSE, fh_payload_length = 0,
      fh_seq_num = nat (q mod 4294967296)\<rparr>, [], replicate 16 0)"
    using unpack_packed [OF assms [unfolded make_close_frame_def]] by simp
  then show ?thesis by (simp add: handle_frame_def model_defs)
qed

lemma replay_delivered_again:
  assumes "handle_frame cr t data a now = (Some p, t', es)"
  shows "fst (handle_frame cr t' data a' later) = Some p"
proof (cases "unpack_frame data")
  case (Inr v)
  then show ?thesis
    using assms by (cases v) (auto simp: handle_frame_def split: if_splits sum.splits option.splits)
qed (use assms in \<open>simp add: handle_frame_def\<close>)

text \<open>When both clients punch at the same time, the one that sees the PUNCH first answers with an
  empty PUNCH\_ACK; the other takes the empty payload for "no key" and runs its end of the tunnel
  without encryption.\<close>

lemma simultaneous_punch_plaintext:
  assumes "make_punch_ack_frame 0 [] = Inr ack" "t1 < start + timeout" "eps \<noteq> []"
    and "make_punch_frame 0 (x_public cr ka) = Inr punch"
    and "create_tunnel cr m p ip eps ka (Inr sock) start timeout ((t1, Datagram ack a) # rest) relay now = (r, m', es)"
  shows "\<exists>t. r = Inr t \<and> t_state t = CONNECTED \<and> t_cipher t = None"
proof -
  have "is_frame_type ack FRAME_PUNCH_ACK" "try_extract_payload ack = []"
    using ack_frame_ok [of "[]" 0] assms(1) by auto
  then have "punch_peer eps (x_public cr ka) start timeout ((t1, Datagram ack a) # rest)
      = Inr ((True, Some a, []), send_to_all punch eps)"
    using assms(2-4) by (simp add: punch_peer_def)
  then show ?thesis
    using assms(5) by (auto simp: create_tunnel_def create_finish_def agree_def Let_def)
qed

end
