(* ===== verification/Services.thy ===== *)
theory Services
  imports Tunnel_Properties Messages
begin

text \<open>
  Service forwarding over tunnels: the exposing side (\<^verbatim>\<open>client/service_exposure.py\<close>), the
  consuming side (\<^verbatim>\<open>client/service_consumer.py\<close>) and the frames between them.  Random
  identifiers, the outcome of connecting to a local service, of binding a port and of starting a
  listener are arguments; a local connection or socket is a number.  The coroutines of a TCP stream
  are the steps between their \<^verbatim>\<open>await\<close>s: connecting, forwarding a chunk in either direction
  and finishing.  Messages to the mediation server are effects.
\<close>

section \<open>Stream frames\<close>

definition is_ascii :: "string \<Rightarrow> bool" where
  "is_ascii s \<longleftrightarrow> list_all (\<lambda>c. of_char c < (128 :: nat)) s"

definition encode_ascii :: "string \<Rightarrow> bytes result" where
  "encode_ascii s = (if is_ascii s then Inr (encode s) else Inl (OtherError ''UnicodeEncodeError'' s))"

text \<open>\<^verbatim>\<open>decode("ascii", errors="replace")\<close>: a byte outside ASCII becomes U+FFFD.\<close>

definition decode_ascii_replace :: "bytes \<Rightarrow> string" where
  "decode_ascii_replace bs = concat (map (\<lambda>b. if unat b < 128 then [char_of (unat b)]
     else [char_of (0xEF :: nat), char_of (0xBF :: nat), char_of (0xBD :: nat)]) bs)"

definition ljust36 :: "bytes \<Rightarrow> bytes" where
  "ljust36 bs = bs @ replicate (36 - length bs) 0"

definition rstrip_nul :: "bytes \<Rightarrow> bytes" where
  "rstrip_nul bs = rev (dropWhile (\<lambda>b. b = 0) (rev bs))"

text \<open>The payload of a stream frame: two padded identifiers and the data.\<close>

definition stream_payload :: "string \<Rightarrow> string \<Rightarrow> bytes \<Rightarrow> bytes result" where
  "stream_payload service_id stream_id data =
     (case encode_ascii service_id of Inl e \<Rightarrow> Inl e | Inr s \<Rightarrow>
     (case encode_ascii stream_id of Inl e \<Rightarrow> Inl e | Inr t \<Rightarrow>
        Inr (ljust36 (take 36 s) @ ljust36 (take 36 t) @ data)))"

definition send_stream_frame :: "'p crypto \<Rightarrow> bytes \<Rightarrow> 'p peer_tunnel \<Rightarrow> string \<Rightarrow> string \<Rightarrow> bytes
    \<Rightarrow> (py_exc + (frame_error + nat) \<times> 'p peer_tunnel \<times> effect list)" where
  "send_stream_frame cr nonce tunnel service_id stream_id data =
     (case stream_payload service_id stream_id data of
        Inl e \<Rightarrow> Inl e | Inr payload \<Rightarrow> Inr (send_data cr nonce tunnel payload))"

definition decode_stream_frame :: "bytes \<Rightarrow> string \<times> string \<times> bytes" where
  "decode_stream_frame data =
     (if length data < 72 then ([], [], data)
      else (decode_ascii_replace (rstrip_nul (take 36 data)),
            decode_ascii_replace (rstrip_nul (take 36 (drop 36 data))), drop 72 data))"

section \<open>Exposing services\<close>

record service_rec =
  sv_id :: string
  sv_name :: string
  sv_protocol :: string
  sv_host :: string
  sv_port :: int
  sv_created :: time

record active_stream =
  as_stream_id :: string
  as_service_id :: string
  as_peer_id :: string
  as_writer :: "nat option"
  as_udp :: "nat option"
  as_created :: time

record exposure =
  ex_control :: bool
  ex_services :: "(string, service_rec) dict"
  ex_streams :: "(string, active_stream) dict"
  ex_udp :: "(string, nat) dict"
  ex_queues :: "(string, bytes list) dict"

datatype svc_effect = Notify "message result" | CloseWriter nat | CloseUdp nat | WriteLocal nat bytes

definition ex_init :: "bool \<Rightarrow> exposure" where
  "ex_init control = \<lparr>ex_control = control, ex_services = [], ex_streams = [], ex_udp = [], ex_queues = []\<rparr>"

definition ex_inject_control :: "exposure \<Rightarrow> exposure" where
  "ex_inject_control x = x\<lparr>ex_control := True\<rparr>"

definition expose :: "exposure \<Rightarrow> string \<Rightarrow> string \<Rightarrow> string \<Rightarrow> string \<Rightarrow> int \<Rightarrow> time \<Rightarrow> string \<times> exposure \<times> svc_effect list" where
  "expose x service_id name protocol local_host local_port now =
     (service_id,
      x\<lparr>ex_services := dict_set service_id
          \<lparr>sv_id = service_id, sv_name = name, sv_protocol = protocol, sv_host = local_host, sv_port = local_port,
           sv_created = now\<rparr> (ex_services x)\<rparr>,
      if ex_control x
      then [Notify (make_message ExposeService [(''name'', JStr name), (''protocol'', JStr protocol),
              (''local_host'', JStr local_host), (''local_port'', JInt local_port)])]
      else [])"

definition close_stream :: "exposure \<Rightarrow> active_stream \<Rightarrow> exposure \<times> svc_effect list" where
  "close_stream x stream =
     (x\<lparr>ex_streams := dict_del (as_stream_id stream) (ex_streams x),
        ex_queues := dict_del (as_stream_id stream) (ex_queues x)\<rparr>,
      case as_writer stream of Some w \<Rightarrow> [CloseWriter w] | None \<Rightarrow> [])"

fun close_streams :: "exposure \<Rightarrow> active_stream list \<Rightarrow> exposure \<times> svc_effect list" where
  "close_streams x [] = (x, [])"
| "close_streams x (s # ss) =
     (case close_stream x s of (x1, es) \<Rightarrow> (case close_streams x1 ss of (x2, es') \<Rightarrow> (x2, es @ es')))"

definition unexpose :: "exposure \<Rightarrow> string \<Rightarrow> exposure \<times> svc_effect list" where
  "unexpose x service_id =
     (case dict_get (ex_services x) service_id of
        None \<Rightarrow> (x, [])
      | Some record \<Rightarrow>
          (let x1 = x\<lparr>ex_services := dict_del service_id (ex_services x)\<rparr>;
               (x2, es) = close_streams x1 (filter (\<lambda>s. as_service_id s = service_id) (dict_values (ex_streams x1)));
               sock = dict_get (ex_udp x2) service_id;
               x3 = x2\<lparr>ex_udp := dict_del service_id (ex_udp x2)\<rparr>
           in (x3, es @ (case sock of Some u \<Rightarrow> [CloseUdp u] | None \<Rightarrow> [])
                   @ (if ex_control x then [Notify (make_message UnexposeService [(''service_id'', JStr service_id)])]
                      else []))))"

text \<open>Accepting a stream; the handler task of its protocol is started afterwards.\<close>

definition handle_incoming_stream :: "exposure \<Rightarrow> string \<Rightarrow> string \<Rightarrow> string \<Rightarrow> time \<Rightarrow> exposure" where
  "handle_incoming_stream x service_id stream_id peer now =
     (case dict_get (ex_services x) service_id of
        None \<Rightarrow> x
      | Some record \<Rightarrow>
          x\<lparr>ex_streams := dict_set stream_id
              \<lparr>as_stream_id = stream_id, as_service_id = service_id, as_peer_id = peer, as_writer = None,
               as_udp = None, as_created = now\<rparr> (ex_streams x)\<rparr>)"

text \<open>The TCP task up to its \<^verbatim>\<open>gather\<close>: \<open>conn\<close> is the local connection, if it could be
  opened, \<open>tunnel\<close> whether a tunnel to the peer exists.\<close>

definition tcp_stream_start :: "exposure \<Rightarrow> active_stream \<Rightarrow> nat option \<Rightarrow> bool \<Rightarrow> exposure \<times> svc_effect list" where
  "tcp_stream_start x stream conn tunnel =
     (case conn of
        None \<Rightarrow> (x, [])
      | Some w \<Rightarrow>
          (let x1 = x\<lparr>ex_streams := dict_upd (as_stream_id stream) (\<lambda>s. s\<lparr>as_writer := Some w\<rparr>) (ex_streams x)\<rparr> in
           if \<not> tunnel then (x1, [CloseWriter w])
           else (x1\<lparr>ex_queues := dict_set (as_stream_id stream) [] (ex_queues x1)\<rparr>, [])))"

text \<open>\<^verbatim>\<open>forward_from_peer\<close> takes one chunk off the queue.\<close>

definition forward_from_peer :: "exposure \<Rightarrow> string \<Rightarrow> nat \<Rightarrow> exposure \<times> svc_effect list" where
  "forward_from_peer x stream_id w =
     (case dict_get (ex_queues x) stream_id of
        Some (d # ds) \<Rightarrow> (x\<lparr>ex_queues := dict_set stream_id ds (ex_queues x)\<rparr>, [WriteLocal w d])
      | _ \<Rightarrow> (x, []))"

definition udp_stream_start :: "exposure \<Rightarrow> active_stream \<Rightarrow> nat \<Rightarrow> exposure" where
  "udp_stream_start x stream fresh =
     (case dict_get (ex_udp x) (as_service_id stream) of
        Some u \<Rightarrow> x\<lparr>ex_streams := dict_upd (as_stream_id stream) (\<lambda>s. s\<lparr>as_udp := Some u\<rparr>) (ex_streams x)\<rparr>
      | None \<Rightarrow> x\<lparr>ex_udp := dict_set (as_service_id stream) fresh (ex_udp x),
                  ex_streams := dict_upd (as_stream_id stream) (\<lambda>s. s\<lparr>as_udp := Some fresh\<rparr>) (ex_streams x)\<rparr>)"

definition feed_stream_data :: "exposure \<Rightarrow> string \<Rightarrow> bytes \<Rightarrow> exposure" where
  "feed_stream_data x stream_id data =
     (case dict_get (ex_queues x) stream_id of
        Some q \<Rightarrow> x\<lparr>ex_queues := dict_set stream_id (q @ [data]) (ex_queues x)\<rparr>
      | None \<Rightarrow> x)"

definition list_exposed :: "exposure \<Rightarrow> service_rec list" where
  "list_exposed x = dict_values (ex_services x)"

definition ex_shutdown :: "exposure \<Rightarrow> exposure \<times> svc_effect list" where
  "ex_shutdown x =
     (case close_streams x (dict_values (ex_streams x)) of
        (x1, es) \<Rightarrow> (x1\<lparr>ex_services := [], ex_streams := [], ex_udp := []\<rparr>,
                      map CloseUdp (dict_values (ex_udp x)) @ es))"

section \<open>Consuming services\<close>

record mapped_service =
  mp_id :: string
  mp_service :: string
  mp_name :: string
  mp_protocol :: string
  mp_provider :: string
  mp_port :: int
  mp_strategy :: string
  mp_remote_port :: "int option"
  mp_created :: time

record consumer =
  co_control :: bool
  mapped :: "(string, mapped_service) dict"
  servers :: "string list"
  udp_transports :: "string list"

definition AUTO_PORT_START :: int where "AUTO_PORT_START = 50000"
definition AUTO_PORT_END :: int where "AUTO_PORT_END = 50999"

definition co_init :: "bool \<Rightarrow> consumer" where
  "co_init control = \<lparr>co_control = control, mapped = [], servers = [], udp_transports = []\<rparr>"

text \<open>\<open>free\<close> is \<^verbatim>\<open>_port_is_free\<close>.\<close>

definition find_auto_port :: "(int \<Rightarrow> bool) \<Rightarrow> consumer \<Rightarrow> int result" where
  "find_auto_port free c =
     (let used = map mp_port (dict_values (mapped c)) in
      case find (\<lambda>port. port \<notin> set used \<and> free port) [AUTO_PORT_START..AUTO_PORT_END] of
        Some port \<Rightarrow> Inr port
      | None \<Rightarrow> Inl (OSError ''no free ports in auto range''))"

definition find_same_port :: "(int \<Rightarrow> bool) \<Rightarrow> int option \<Rightarrow> int option" where
  "find_same_port free remote_port =
     (case remote_port of None \<Rightarrow> None | Some p \<Rightarrow> if free p then Some p else None)"

text \<open>The port of a new mapping; a remote port 0 is falsy.\<close>

definition choose_port :: "(int \<Rightarrow> bool) \<Rightarrow> consumer \<Rightarrow> string \<Rightarrow> int option \<Rightarrow> int option \<Rightarrow> int result" where
  "choose_port free c strategy local_port remote_port =
     (if strategy = ''manual'' then
        (case local_port of None \<Rightarrow> Inl (ValueError ''manual strategy requires local_port'') | Some p \<Rightarrow> Inr p)
      else if strategy = ''same'' then
        (case find_same_port free remote_port of
           Some p \<Rightarrow> if p \<noteq> 0 then Inr p else find_auto_port free c
         | None \<Rightarrow> find_auto_port free c)
      else if strategy = ''auto'' then find_auto_port free c
      else Inl (ValueError (''unknown port strategy: '' @ strategy)))"

text \<open>\<open>listen\<close> tells which listeners the operating system lets the client start.\<close>

definition map_service :: "(int \<Rightarrow> bool) \<Rightarrow> (string \<Rightarrow> int \<Rightarrow> bool) \<Rightarrow> consumer \<Rightarrow> string \<Rightarrow> string \<Rightarrow> string \<Rightarrow> string \<Rightarrow> string
    \<Rightarrow> int option \<Rightarrow> string \<Rightarrow> int option \<Rightarrow> time \<Rightarrow> int result \<times> consumer \<times> svc_effect list" where
  "map_service free listen c map_id service_id provider_id service_name protocol local_port strategy remote_port now =
     (case choose_port free c strategy local_port remote_port of
        Inl e \<Rightarrow> (Inl e, c, [])
      | Inr port \<Rightarrow>
          (let c1 = c\<lparr>mapped := dict_set map_id
                 \<lparr>mp_id = map_id, mp_service = service_id, mp_name = service_name, mp_protocol = protocol,
                  mp_provider = provider_id, mp_port = port, mp_strategy = strategy, mp_remote_port = remote_port,
                  mp_created = now\<rparr> (mapped c)\<rparr>
           in if protocol \<in> {''tcp'', ''udp''} \<and> \<not> listen protocol port
              then (Inl (OSError ''cannot listen''), c1, [])
              else
                (let c2 = (if protocol = ''tcp'' then c1\<lparr>servers := set_add map_id (servers c1)\<rparr>
                           else if protocol = ''udp'' then c1\<lparr>udp_transports := set_add map_id (udp_transports c1)\<rparr>
                           else c1)
                 in (Inr port, c2,
                     if co_control c
                     then [Notify (make_message MapService [(''service_id'', JStr service_id), (''local_port'', JInt port),
                             (''strategy'', JStr strategy)])]
                     else []))))"

definition unmap_service :: "consumer \<Rightarrow> string \<Rightarrow> consumer \<times> svc_effect list" where
  "unmap_service c map_id =
     (case dict_get (mapped c) map_id of
        None \<Rightarrow> (c, [])
      | Some mp \<Rightarrow>
          (c\<lparr>mapped := dict_del map_id (mapped c), servers := set_discard map_id (servers c),
             udp_transports := set_discard map_id (udp_transports c)\<rparr>,
           if co_control c then [Notify (make_message UnmapService [(''service_id'', JStr (mp_service mp))])] else []))"

definition list_mapped :: "consumer \<Rightarrow> mapped_service list" where
  "list_mapped c = dict_values (mapped c)"

fun unmap_all :: "consumer \<Rightarrow> string list \<Rightarrow> consumer \<times> svc_effect list" where
  "unmap_all c [] = (c, [])"
| "unmap_all c (i # is) =
     (case unmap_service c i of (c1, es) \<Rightarrow> (case unmap_all c1 is of (c2, es') \<Rightarrow> (c2, es @ es')))"

definition co_shutdown :: "consumer \<Rightarrow> consumer \<times> svc_effect list" where
  "co_shutdown c = unmap_all c (dict_keys (mapped c))"

text \<open>A chunk read by a listener of a mapping and forwarded through the tunnel to the provider; a
  datagram takes a fresh stream identifier, a connection keeps its own.\<close>

definition forward_to_provider :: "'p crypto \<Rightarrow> bytes \<Rightarrow> 'p tunnel_manager \<Rightarrow> mapped_service \<Rightarrow> string \<Rightarrow> bytes
    \<Rightarrow> py_exc + (frame_error + nat) \<times> 'p tunnel_manager \<times> effect list" where
  "forward_to_provider cr nonce tm mp stream_id data =
     (case get_tunnel tm (mp_provider mp) of
        None \<Rightarrow> Inr (Inr 0, tm, [])
      | Some tunnel \<Rightarrow>
          (case send_stream_frame cr nonce tunnel (mp_service mp) stream_id data of
             Inl e \<Rightarrow> Inl e
           | Inr (sent, tunnel', es) \<Rightarrow> Inr (sent, put_tunnel tm tunnel', es)))"

section \<open>Frames survive the tunnel\<close>

text \<open>Identifiers that fit: ASCII, at most 36 characters, not ending in a NUL.\<close>

definition fits :: "string \<Rightarrow> bool" where
  "fits s \<longleftrightarrow> is_ascii s \<and> length s \<le> 36 \<and> (s = [] \<or> last s \<noteq> CHR 0x00)"

lemma ascii_byte: "of_char c < (128 :: nat) \<Longrightarrow> unat (word_of_nat (of_char c) :: byte) = of_char c"
  by (simp add: unat_of_nat)

lemma decode_replace_encode: "is_ascii s \<Longrightarrow> decode_ascii_replace (encode s) = s"
  by (induction s) (simp_all add: is_ascii_def encode_def decode_ascii_replace_def ascii_byte)

lemma encode_last_nonzero:
  assumes "is_ascii s" "s \<noteq> []" "last s \<noteq> CHR 0x00"
  shows "last (encode s) \<noteq> 0"
proof -
  have "of_char (last s) < (128 :: nat)" using assms(1,2) by (simp add: is_ascii_def list_all_iff)
  moreover have "of_char (last s) \<noteq> (0 :: nat)"
  proof
    assume "of_char (last s) = (0 :: nat)"
    then have "last s = char_of (0 :: nat)" by (metis char_of_char)
    moreover have "char_of (0 :: nat) = CHR 0x00" by (simp add: char_of_def)
    ultimately show False using assms(3) by simp
  qed
  ultimately have "unat (last (encode s)) \<noteq> 0"
    using assms(2) by (simp add: encode_def last_map ascii_byte)
  then show ?thesis by auto
qed

lemma rstrip_ljust: "bs = [] \<or> last bs \<noteq> 0 \<Longrightarrow> rstrip_nul (ljust36 bs) = bs"
proof -
  assume a: "bs = [] \<or> last bs \<noteq> 0"
  have "dropWhile (\<lambda>b. b = 0) (replicate n 0 @ rev bs) = rev bs" for n
  proof (induction n)
    case 0
    show ?case using a by (cases bs rule: rev_cases) auto
  qed simp
  then show ?thesis by (simp add: rstrip_nul_def ljust36_def)
qed

lemma stream_field: "fits s \<Longrightarrow> length (ljust36 (take 36 (encode s))) = 36
    \<and> decode_ascii_replace (rstrip_nul (ljust36 (take 36 (encode s)))) = s"
proof -
  assume f: "fits s"
  then have t: "take 36 (encode s) = encode s" by (simp add: fits_def)
  have "encode s = [] \<or> last (encode s) \<noteq> 0"
    using f encode_last_nonzero [of s] by (cases "s = []") (auto simp: fits_def encode_def)
  then show ?thesis
    using f by (simp add: t rstrip_ljust fits_def decode_replace_encode) (simp add: ljust36_def)
qed

lemma stream_payload_decodes:
  assumes "fits service_id" "fits stream_id"
  obtains p where "stream_payload service_id stream_id data = Inr p" "length p = 72 + length data"
    "decode_stream_frame p = (service_id, stream_id, data)"
proof -
  let ?p = "ljust36 (take 36 (encode service_id)) @ ljust36 (take 36 (encode stream_id)) @ data"
  note f = stream_field [OF assms(1)] stream_field [OF assms(2)]
  have "stream_payload service_id stream_id data = Inr ?p"
    using assms by (simp add: stream_payload_def encode_ascii_def fits_def)
  moreover have "decode_stream_frame ?p = (service_id, stream_id, data)" "length ?p = 72 + length data"
    using f by (simp_all add: decode_stream_frame_def)
  ultimately show ?thesis using that by blast
qed

text \<open>C19: a chunk of a forwarded stream (the listeners read at most 8192 bytes at a time) sent through an
  encrypted tunnel reaches the provider of the service: the datagram is delivered there, and
  decoding it gives back the service, the stream and the data.\<close>
theorem stream_over_tunnel:
  assumes "crypto_ok cr" "length nonce = 12" "fits (mp_service mp)" "fits stream_id" "length data \<le> 65451"
    and "get_tunnel tm (mp_provider mp) = Some t" "t_state t = CONNECTED" "t_socket t = Some sock"
      "remote_addr t = Some a" "t_cipher t = Some key"
    and "t_state u = CONNECTED" "t_socket u = Some sock'" "t_cipher u = Some key"
  shows "\<exists>f n tm'. forward_to_provider cr nonce tm mp stream_id data = Inr (Inr n, tm', [SendTo sock f a])
    \<and> (\<forall>src now. \<exists>p. fst (recv_data cr u (Datagram f src) now) = Some p
         \<and> decode_stream_frame p = (mp_service mp, stream_id, data))"
proof -
  obtain p where p: "stream_payload (mp_service mp) stream_id data = Inr p" "length p = 72 + length data"
    "decode_stream_frame p = (mp_service mp, stream_id, data)"
    using stream_payload_decodes [OF assms(3,4)] by blast
  have "length p \<le> 65523" using p(2) assms(5) by simp
  then obtain f t' where "send_data cr nonce t p = (Inr (length f), t', [SendTo sock f a])"
    and f: "\<forall>src now. \<exists>u'. recv_data cr u (Datagram f src) now = (Some p, u', []) \<and> remote_addr u' = Some src"
    using send_receive [OF assms(7-10) assms(13,11,12) assms(1,2)] by blast
  then have "forward_to_provider cr nonce tm mp stream_id data = Inr (Inr (length f), put_tunnel tm t', [SendTo sock f a])"
    using assms(6) p(1) by (simp add: forward_to_provider_def send_stream_frame_def)
  then show ?thesis using f p(3) by (metis fst_conv)
qed

definition demo_mapping :: mapped_service where
  "demo_mapping = \<lparr>mp_id = ''m1'', mp_service = ''s1'', mp_name = ''web'', mp_protocol = ''tcp'', mp_provider = ''b'',
     mp_port = 50000, mp_strategy = ''auto'', mp_remote_port = None, mp_created = 0\<rparr>"

definition demo_end :: "string \<Rightarrow> int \<Rightarrow> byte peer_tunnel" where
  "demo_end p sock = (new_tunnel p None)\<lparr>t_state := CONNECTED, t_socket := Some sock, t_cipher := Some (replicate 32 7),
     remote_addr := Some (''192.0.2.2'', 50001)\<rparr>"

theorem stream_over_tunnel_witness:
  "\<exists>f n tm'. forward_to_provider demo_crypto (replicate 12 0) (put_tunnel (tm_init 60) (demo_end ''b'' 50000)) demo_mapping ''c1'' [1, 2]
      = Inr (Inr n, tm', [SendTo 50000 f (''192.0.2.2'', 50001)])"
proof -
  have "get_tunnel (put_tunnel (tm_init 60) (demo_end ''b'' 50000)) (mp_provider demo_mapping) = Some (demo_end ''b'' 50000)"
    by (simp add: get_tunnel_def put_tunnel_def demo_end_def new_tunnel_def demo_mapping_def)
  moreover have "fits (mp_service demo_mapping)" "fits ''c1''" by code_simp+
  ultimately show ?thesis
    using stream_over_tunnel [OF demo_crypto_ok, of "replicate 12 0" demo_mapping "''c1''" "[1, 2]" _ "demo_end ''b'' 50000" 50000
        "(''192.0.2.2'', 50001)" "replicate 32 7" "demo_end ''a'' 50001" 50001]
    by (simp add: demo_end_def) blast
qed

section \<open>Port assignment\<close>

lemma find_upto_None: "find P [a..b] = None \<Longrightarrow> \<forall>y :: int. a \<le> y \<and> y \<le> b \<longrightarrow> \<not> P y"
  by (auto simp: find_None_iff)

lemma find_upto_least:
  assumes "find P [a..b] = Some (x :: int)"
  shows "a \<le> x \<and> x \<le> b \<and> P x \<and> (\<forall>y. a \<le> y \<and> y < x \<longrightarrow> \<not> P y)"
proof -
  obtain i where i: "i < length [a..b]" "P ([a..b] ! i)" "x = [a..b] ! i" "\<forall>j<i. \<not> P ([a..b] ! j)"
    using assms by (auto simp: find_Some_iff)
  have x: "x = a + int i" "int i < b - a + 1" using i(1,3) by (simp_all add: nth_upto)
  have "\<not> P y" if "a \<le> y" "y < x" for y
  proof -
    have "nat (y - a) < i" using that x(1) by linarith
    moreover have "[a..b] ! nat (y - a) = y" using that x by (simp add: nth_upto)
    ultimately show ?thesis using i(4) by metis
  qed
  then show ?thesis using x i(2,3) by auto
qed



text \<open>The mapping is recorded before its listener is started: when that fails, the exception leaves a
  mapping without a listener, whose port stays reserved.\<close>

lemma failed_listener_leaks_mapping:
  "map_service free (\<lambda>_ _. False) c i sid prov nm ''tcp'' (Some p) ''manual'' rp now = (r, c', es) \<Longrightarrow>
     r = Inl (OSError ''cannot listen'') \<and> (\<exists>mp. dict_get (mapped c') i = Some mp \<and> mp_port mp = p) \<and> servers c' = servers c"
  by (auto simp: map_service_def choose_port_def Let_def)

section \<open>Withdrawing a service\<close>

lemma close_streams_exact:
  "close_streams x ss = (x', es) \<Longrightarrow>
     ex_streams x' = filter (\<lambda>p. fst p \<notin> as_stream_id ` set ss) (ex_streams x)
     \<and> ex_queues x' = filter (\<lambda>p. fst p \<notin> as_stream_id ` set ss) (ex_queues x)
     \<and> ex_services x' = ex_services x \<and> ex_udp x' = ex_udp x \<and> ex_control x' = ex_control x
     \<and> (\<forall>w. CloseWriter w \<in> set es \<longleftrightarrow> (\<exists>s \<in> set ss. as_writer s = Some w))"
proof (induction ss arbitrary: x x' es)
  case (Cons s ss)
  obtain x1 e1 where c: "close_stream x s = (x1, e1)" by (cases "close_stream x s")
  obtain x2 e2 where rec: "close_streams x1 ss = (x2, e2)" by (cases "close_streams x1 ss")
  have new: "x' = x2" "es = e1 @ e2" using Cons.prems by (simp_all add: c rec)
  have c': "ex_streams x1 = filter (\<lambda>p. fst p \<noteq> as_stream_id s) (ex_streams x)"
    "ex_queues x1 = filter (\<lambda>p. fst p \<noteq> as_stream_id s) (ex_queues x)"
    "ex_services x1 = ex_services x" "ex_udp x1 = ex_udp x" "ex_control x1 = ex_control x"
    "CloseWriter w \<in> set e1 \<longleftrightarrow> as_writer s = Some w" for w
    using c by (auto simp: close_stream_def dict_del_def split: option.splits)
  show ?case using Cons.IH [OF rec] c' new by auto
qed (auto simp: filter_id_conv)

definition exposure_ok :: "exposure \<Rightarrow> bool" where
  "exposure_ok x \<longleftrightarrow> dict_wf (ex_services x) \<and> dict_wf (ex_streams x) \<and> dict_wf (ex_queues x) \<and> dict_wf (ex_udp x)
     \<and> (\<forall>(i, s) \<in> set (ex_streams x). as_stream_id s = i \<and> dict_has (ex_services x) (as_service_id s))
     \<and> (\<forall>(i, r) \<in> set (ex_services x). sv_id r = i)"

text \<open>Withdrawing a service.  In every state where streams belong to exposed services, withdrawing a
  service removes it, closes the local connection of each of its streams, drops their queues and
  its UDP socket, leaves every other service, stream and queue as it was, and keeps the state well
  formed: no stream of a withdrawn service is left.\<close>
theorem unexpose_exact:
  assumes "exposure_ok x" "dict_has (ex_services x) sid" "unexpose x sid = (x', es)"
  shows "exposure_ok x' \<and> \<not> dict_has (ex_services x') sid
    \<and> (\<forall>i. i \<noteq> sid \<longrightarrow> dict_get (ex_services x') i = dict_get (ex_services x) i)
    \<and> (\<forall>i. dict_get (ex_streams x') i = (case dict_get (ex_streams x) i of
           Some s \<Rightarrow> if as_service_id s = sid then None else Some s | None \<Rightarrow> None))
    \<and> (\<forall>s \<in> set (dict_values (ex_streams x)). \<forall>w. as_service_id s = sid \<and> as_writer s = Some w \<longrightarrow> CloseWriter w \<in> set es)
    \<and> (\<forall>i. dict_get (ex_udp x') i = (if i = sid then None else dict_get (ex_udp x) i))"
proof -
  obtain r where r: "dict_get (ex_services x) sid = Some r" using assms(2) by (auto simp: dict_has_def)
  let ?ss = "filter (\<lambda>s. as_service_id s = sid) (dict_values (ex_streams x))"
  let ?x1 = "x\<lparr>ex_services := dict_del sid (ex_services x)\<rparr>"
  obtain x2 es2 where c: "close_streams ?x1 ?ss = (x2, es2)" by (cases "close_streams ?x1 ?ss")
  note cs = close_streams_exact [OF c]
  have new: "x' = x2\<lparr>ex_udp := dict_del sid (ex_udp x2)\<rparr>" "set es2 \<subseteq> set es"
    using assms(3) c by (auto simp: unexpose_def r Let_def)
  have wf: "dict_wf (ex_streams x)" "dict_wf (ex_services x)" "dict_wf (ex_queues x)" "dict_wf (ex_udp x)"
    and keyed: "(i, s) \<in> set (ex_streams x) \<Longrightarrow> as_stream_id s = i \<and> dict_has (ex_services x) (as_service_id s)" for i s
    using assms(1) by (auto simp: exposure_ok_def)
  have closed: "i \<in> as_stream_id ` set ?ss \<longleftrightarrow> (\<exists>s. dict_get (ex_streams x) i = Some s \<and> as_service_id s = sid)" for i
    using keyed wf(1) by (force simp: image_iff)
  have streams: "dict_get (ex_streams x') i = (case dict_get (ex_streams x) i of
           Some s \<Rightarrow> if as_service_id s = sid then None else Some s | None \<Rightarrow> None)" for i
    using cs map_of_filter_keys [of "\<lambda>i. i \<notin> as_stream_id ` set ?ss" "ex_streams x" i] closed [of i]
    by (cases "dict_get (ex_streams x) i") (auto simp: new(1))
  have ok: "exposure_ok x'"
  proof -
    have "dict_has (ex_services x') (as_service_id s) \<and> as_stream_id s = i" if "(i, s) \<in> set (ex_streams x')" for i s
    proof -
      have mem: "(i, s) \<in> set (ex_streams x)" "i \<notin> as_stream_id ` set ?ss" using that cs by (simp_all add: new(1))
      then have "as_service_id s \<noteq> sid" using closed [of i] wf(1) by auto
      then show ?thesis using keyed [OF mem(1)] cs by (simp add: new(1))
    qed
    moreover have "dict_wf (ex_services x')" "dict_wf (ex_streams x')" "dict_wf (ex_queues x')" "dict_wf (ex_udp x')"
      using wf cs by (simp_all add: new(1))
    moreover have "sv_id r = i" if "(i, r) \<in> set (ex_services x')" for i r
      using that assms(1) cs by (auto simp: new(1) set_dict_del exposure_ok_def)
    ultimately show ?thesis unfolding exposure_ok_def by blast
  qed
  have writers: "\<forall>s \<in> set (dict_values (ex_streams x)). \<forall>w. as_service_id s = sid \<and> as_writer s = Some w \<longrightarrow> CloseWriter w \<in> set es"
    using cs new(2) by auto
  have services: "dict_get (ex_services x') i = (if i = sid then None else dict_get (ex_services x) i)"
    "dict_get (ex_udp x') i = (if i = sid then None else dict_get (ex_udp x) i)" for i
    using cs by (simp_all add: new(1))
  then have "\<not> dict_has (ex_services x') sid" by (simp add: dict_has_def)
  with ok streams writers services show ?thesis by simp
qed

theorem unexpose_exact_witness:
  "\<not> dict_has (ex_services (fst (unexpose (fst (snd (expose (ex_init True) ''s1'' ''web'' ''tcp'' ''127.0.0.1'' 80 0))) ''s1''))) ''s1''"
proof -
  let ?x = "fst (snd (expose (ex_init True) ''s1'' ''web'' ''tcp'' ''127.0.0.1'' 80 0))"
  have "exposure_ok ?x" "dict_has (ex_services ?x) ''s1''"
    by (simp_all add: expose_def ex_init_def exposure_ok_def dict_has_def)
  from unexpose_exact [OF this, of "fst (unexpose ?x ''s1'')" "snd (unexpose ?x ''s1'')"] show ?thesis by simp
qed

text \<open>A connection to the local service that completes after the service was withdrawn is still put to
  work: the stream gets a queue although neither it nor its service is known any more.\<close>

lemma late_connect_survives_unexpose:
  "dict_get (ex_queues (fst (tcp_stream_start (fst (unexpose x sid)) stream (Some w) True))) (as_stream_id stream) = Some []"
  by (simp add: tcp_stream_start_def Let_def)

text \<open>A stream whose local connection cannot be opened stays in the table of streams.\<close>

lemma refused_stream_leaks: "tcp_stream_start x stream None tunnel = (x, [])"
  by (simp add: tcp_stream_start_def)

section \<open>Order of forwarded data\<close>

lemma feed_appends:
  "dict_get (ex_queues x) i = Some q \<Longrightarrow>
     dict_get (ex_queues (foldl (\<lambda>x d. feed_stream_data x i d) x ds)) i = Some (q @ ds)"
  by (induction ds arbitrary: x q) (simp_all add: feed_stream_data_def)

fun drain_stream :: "nat \<Rightarrow> exposure \<Rightarrow> string \<Rightarrow> nat \<Rightarrow> exposure \<times> svc_effect list" where
  "drain_stream 0 x i w = (x, [])"
| "drain_stream (Suc n) x i w =
     (case forward_from_peer x i w of (x1, es) \<Rightarrow> (case drain_stream n x1 i w of (x2, es') \<Rightarrow> (x2, es @ es')))"

lemma drain_in_order:
  "dict_get (ex_queues x) i = Some q \<Longrightarrow> snd (drain_stream (length q) x i w) = map (WriteLocal w) q"
proof (induction q arbitrary: x)
  case (Cons d ds)
  let ?x = "x\<lparr>ex_queues := dict_set i ds (ex_queues x)\<rparr>"
  have "snd (drain_stream (length ds) ?x i w) = map (WriteLocal w) ds"
    by (rule Cons.IH) simp
  then show ?case using Cons.prems by (simp add: forward_from_peer_def case_prod_beta)
qed simp

end
