(* ===== verification/Daemon.thy ===== *)
theory Daemon
  imports Topology Services Text
begin

text \<open>
  The client daemon (\<^verbatim>\<open>client/main.py\<close>): events pushed by the mediation server, routing between
  the TUN device and the tunnels, and the ARP helpers.  The daemon composes the topology managers,
  the tunnel manager and the control messages.  A coroutine is split at its waits: the outcome of
  asking the server for endpoints and of punching is an argument.  A field of an event is a text or
  null, as the server sends them.  The outer handler swallows every exception of an event, so an
  event handler here returns the state in which the exception left the daemon.
\<close>

section \<open>IP and ARP packets\<close>

definition extract_dst_ip :: "bytes \<Rightarrow> string option" where
  "extract_dst_ip packet =
     (if length packet < 20 then None
      else if unat (packet ! 0) div 16 \<noteq> 4 then None
      else (case inet_ntoa (take 4 (drop 16 packet)) of Inl _ \<Rightarrow> None | Inr ip \<Rightarrow> Some ip))"

definition extract_src_ip :: "bytes \<Rightarrow> string option" where
  "extract_src_ip packet =
     (if length packet < 20 then None
      else if unat (packet ! 0) div 16 \<noteq> 4 then None
      else (case inet_ntoa (take 4 (drop 12 packet)) of Inl _ \<Rightarrow> None | Inr ip \<Rightarrow> Some ip))"

type_synonym arp = "nat \<times> bytes \<times> bytes \<times> bytes \<times> bytes"

definition parse_arp :: "bytes \<Rightarrow> arp option" where
  "parse_arp packet =
     (if packet = [] then None
      else
        (case (if length packet \<ge> 14 \<and> take 2 (drop 12 packet) = [8, 6] then Some (drop 14 packet)
               else if length packet \<ge> 28 \<and> take 2 packet = [0, 1] \<and> take 2 (drop 2 packet) = [8, 0] then Some packet
               else None) of
           None \<Rightarrow> None
         | Some arp \<Rightarrow>
             if length arp < 28 then None
             else
               (let htype = be_val (take 2 arp); ptype = be_val (take 2 (drop 2 arp));
                    hlen = arp ! 4; plen = arp ! 5; opcode = be_val (take 2 (drop 6 arp))
                in if htype \<noteq> 1 \<or> ptype \<noteq> 0x0800 \<or> hlen \<noteq> 6 \<or> plen \<noteq> 4 then None
                   else Some (opcode, take 6 (drop 8 arp), take 4 (drop 14 arp), take 6 (drop 18 arp),
                              take 4 (drop 24 arp)))))"

text \<open>\<^verbatim>\<open>[int(p) for p in ip.split(".")]\<close>, and the bytes of a list of integers: an octet out of
  range makes \<^verbatim>\<open>bytes\<close> raise.\<close>

fun ints_of :: "string list \<Rightarrow> int list option" where
  "ints_of [] = Some []"
| "ints_of (p # ps) = (case py_int p of None \<Rightarrow> None | Some i \<Rightarrow> map_option (\<lambda>is. i # is) (ints_of ps))"

definition bytes_of_ints :: "int list \<Rightarrow> bytes result" where
  "bytes_of_ints is =
     (if list_all (\<lambda>i. 0 \<le> i \<and> i < 256) is then Inr (map (\<lambda>i. word_of_nat (nat i)) is)
      else Inl (ValueError ''bytes must be in range(0, 256)''))"

definition mac_for_ip :: "string \<Rightarrow> bytes result" where
  "mac_for_ip ip =
     (case ints_of (split_on ''.'' ip) of
        None \<Rightarrow> Inr [2, 0, 0, 0, 0, 0]
      | Some parts \<Rightarrow>
          if length parts \<noteq> 4 then Inr [2, 0, 0, 0, 0, 0]
          else bytes_of_ints [2, parts ! 1, parts ! 2, parts ! 3, parts ! 0, 0])"

definition is_arp_for_us :: "bytes \<Rightarrow> string list \<Rightarrow> bool" where
  "is_arp_for_us packet our_ips =
     (case parse_arp packet of
        None \<Rightarrow> False
      | Some (opcode, sha, spa, tha, tpa) \<Rightarrow>
          if opcode \<noteq> 1 then False
          else (case inet_ntoa tpa of Inl _ \<Rightarrow> False | Inr target_ip \<Rightarrow> target_ip \<in> set our_ips))"

definition build_arp_reply :: "bytes \<Rightarrow> (string, string) dict \<Rightarrow> bytes option result" where
  "build_arp_reply packet ip_to_peer =
     (case parse_arp packet of
        None \<Rightarrow> Inr None
      | Some (opcode, sha, spa, tha, tpa) \<Rightarrow>
          if opcode \<noteq> 1 then Inr None
          else
            (case inet_ntoa tpa of
               Inl _ \<Rightarrow> Inr None
             | Inr target_ip \<Rightarrow>
                 if \<not> dict_has ip_to_peer target_ip then Inr None
                 else
                   (case mac_for_ip target_ip of
                      Inl e \<Rightarrow> Inl e
                    | Inr our_mac \<Rightarrow>
                        Inr (Some (be_bytes 2 1 @ be_bytes 2 0x0800 @ [6, 4] @ be_bytes 2 2 @ our_mac @ tpa @ sha @ spa)))))"

section \<open>State\<close>

record 'p daemon =
  d_client_id :: string
  d_topologies :: "(string option, string option topology) dict"
  d_ip_to_peer :: "(string, string) dict"
  d_peer_to_ip :: "(string, string) dict"
  d_peer_networks :: "(string, string option) dict"
  d_tunnels :: "'p tunnel_manager option"
  d_tun :: bool
  d_channel :: bool

datatype daemon_effect = Wire effect | TunWrite bytes

definition daemon_init :: "string \<Rightarrow> time \<Rightarrow> 'p daemon" where
  "daemon_init client_id stale = \<lparr>d_client_id = client_id, d_topologies = [], d_ip_to_peer = [], d_peer_to_ip = [],
     d_peer_networks = [], d_tunnels = Some (inject_control (tm_init stale)), d_tun = False, d_channel = True\<rparr>"

text \<open>\<open>opened\<close> tells whether the device could be opened.\<close>

definition setup_tun :: "'p daemon \<Rightarrow> string option \<Rightarrow> bool \<Rightarrow> 'p daemon" where
  "setup_tun d virtual_ip opened =
     (let vip = (case virtual_ip of Some v \<Rightarrow> if v = [] then ''25.1.0.1'' else v | None \<Rightarrow> ''25.1.0.1'') in
      if opened
      then d\<lparr>d_tun := True, d_ip_to_peer := dict_set vip (d_client_id d) (d_ip_to_peer d),
             d_peer_to_ip := dict_set (d_client_id d) vip (d_peer_to_ip d)\<rparr>
      else d\<lparr>d_tun := False\<rparr>)"

section \<open>Events\<close>

text \<open>\<^verbatim>\<open>payload.get(key, "")\<close>; null is \<open>None\<close>.\<close>

definition text_field :: "payload \<Rightarrow> string \<Rightarrow> string option" where
  "text_field p key = (case dict_get p key of None \<Rightarrow> Some [] | Some (JStr s) \<Rightarrow> Some s | Some _ \<Rightarrow> None)"

text \<open>\<^verbatim>\<open>_on_peer_online\<close> up to the tunnel; the flag tells whether one is to be created.\<close>

definition daemon_peer_online :: "'p daemon \<Rightarrow> string option \<Rightarrow> string option \<Rightarrow> string option \<Rightarrow> 'p daemon \<times> bool" where
  "daemon_peer_online d pid network_id ip =
     (case pid of None \<Rightarrow> (d, False) | Some p \<Rightarrow>
      if p = [] \<or> p = d_client_id d then (d, False)
      else
        (let addr = (case ip of Some a \<Rightarrow> a | None \<Rightarrow> []);
             d1 = d\<lparr>d_peer_to_ip := dict_set p addr (d_peer_to_ip d),
                    d_ip_to_peer := (if addr = [] then d_ip_to_peer d else dict_set addr p (d_ip_to_peer d)),
                    d_peer_networks := dict_set p network_id (d_peer_networks d)\<rparr>;
             topo = (case dict_get (d_topologies d) network_id of
                       Some t \<Rightarrow> Inr t | None \<Rightarrow> create_topology_manager DEFAULT_TOPOLOGY [] [] False False)
         in case topo of
              Inl _ \<Rightarrow> (d1, False)
            | Inr t \<Rightarrow>
                (case on_peer_online t p ip network_id of
                   (create, t') \<Rightarrow> (d1\<lparr>d_topologies := dict_set network_id t' (d_topologies d)\<rparr>, create))))"

text \<open>What happens while a tunnel is created.\<close>

record 'p attempt =
  at_endpoints :: "addr list result"
  at_ecdh :: 'p
  at_bound :: "int result"
  at_start :: time
  at_timeout :: time
  at_received :: "(time \<times> recv_outcome) list"
  at_relay :: "py_exc option"
  at_now :: time

definition create_tunnel_to_peer :: "'p crypto \<Rightarrow> 'p daemon \<Rightarrow> string \<Rightarrow> string option \<Rightarrow> 'p attempt \<Rightarrow> 'p daemon \<times> daemon_effect list" where
  "create_tunnel_to_peer cr d p ip att =
     (case d_tunnels d of
        None \<Rightarrow> (d, [])
      | Some tm \<Rightarrow>
          if \<not> d_channel d then (d, [])
          else if get_tunnel tm p \<noteq> None then (d, [])
          else
            (case at_endpoints att of
               Inl _ \<Rightarrow> (d, [])
             | Inr endpoints \<Rightarrow>
                 if endpoints = [] then (d, [])
                 else
                   (case create_tunnel cr tm p ip endpoints (at_ecdh att) (at_bound att) (at_start att) (at_timeout att)
                           (at_received att) (at_relay att) (at_now att) of
                      (_, tm', es) \<Rightarrow> (d\<lparr>d_tunnels := Some tm'\<rparr>, map Wire es))))"

definition daemon_peer_offline :: "'p daemon \<Rightarrow> string option \<Rightarrow> string option \<Rightarrow> 'p daemon \<times> daemon_effect list" where
  "daemon_peer_offline d pid network_id =
     (case pid of None \<Rightarrow> (d, []) | Some p \<Rightarrow>
      if p = [] then (d, [])
      else
        (let ip = dict_get_or (d_peer_to_ip d) p [];
             d1 = d\<lparr>d_peer_to_ip := dict_del p (d_peer_to_ip d), d_ip_to_peer := dict_del ip (d_ip_to_peer d),
                    d_peer_networks := dict_del p (d_peer_networks d)\<rparr>;
             (d2, es) = (case d_tunnels d1 of
                 None \<Rightarrow> (d1, [])
               | Some tm \<Rightarrow>
                   (case get_tunnel tm p of
                      None \<Rightarrow> (d1, [])
                    | Some t \<Rightarrow> (case close_tunnel tm t of (tm', _, es) \<Rightarrow> (d1\<lparr>d_tunnels := Some tm'\<rparr>, map Wire es))))
         in (case dict_get (d_topologies d2) network_id of
               None \<Rightarrow> d2
             | Some t \<Rightarrow> d2\<lparr>d_topologies := dict_set network_id (snd (on_peer_offline t p network_id)) (d_topologies d2)\<rparr>,
             es)))"

definition daemon_relay_frame :: "'p daemon \<Rightarrow> string option \<Rightarrow> string option \<Rightarrow> daemon_effect list" where
  "daemon_relay_frame d src_id frame_b64 =
     (case d_tunnels d of
        None \<Rightarrow> []
      | Some tm \<Rightarrow>
          (case frame_b64 of
             None \<Rightarrow> []
           | Some f \<Rightarrow>
               if f = [] then []
               else
                 (case b64decode f of
                    Inl _ \<Rightarrow> []
                  | Inr raw \<Rightarrow>
                      (case src_id of
                         None \<Rightarrow> []
                       | Some s \<Rightarrow> if get_tunnel tm s \<noteq> None \<and> d_tun d then [TunWrite raw] else []))))"

definition dispatch_event :: "'p crypto \<Rightarrow> 'p daemon \<Rightarrow> message \<Rightarrow> 'p attempt \<Rightarrow> 'p daemon \<times> daemon_effect list" where
  "dispatch_event cr d event att =
     (let p = m_payload event in
      if m_type event = ''PEER_ONLINE'' then
        (case daemon_peer_online d (text_field p ''peer_id'') (text_field p ''network_id'') (text_field p ''peer_ip'') of
           (d', create) \<Rightarrow>
             if create
             then create_tunnel_to_peer cr d' (case text_field p ''peer_id'' of Some q \<Rightarrow> q | None \<Rightarrow> []) (text_field p ''peer_ip'') att
             else (d', []))
      else if m_type event = ''PEER_OFFLINE'' then
        daemon_peer_offline d (text_field p ''peer_id'') (text_field p ''network_id'')
      else if m_type event = ''RELAY_FRAME'' then
        (d, daemon_relay_frame d (text_field p ''src_id'') (text_field p ''frame_b64''))
      else (d, []))"

section \<open>Bridging the TUN device\<close>

definition tun_packet :: "'p crypto \<Rightarrow> bytes \<Rightarrow> 'p daemon \<Rightarrow> bytes \<Rightarrow> (py_exc + frame_error) option \<times> 'p daemon \<times> daemon_effect list" where
  "tun_packet cr nonce d packet =
     (if is_arp_for_us packet (dict_keys (d_ip_to_peer d)) then
        (case build_arp_reply packet (d_ip_to_peer d) of
           Inl e \<Rightarrow> (Some (Inl e), d, [])
         | Inr None \<Rightarrow> (None, d, [])
         | Inr (Some reply) \<Rightarrow> (None, d, [TunWrite reply]))
      else
        (case extract_dst_ip packet of
           None \<Rightarrow> (None, d, [])
         | Some dst_ip \<Rightarrow>
             (case dict_get (d_ip_to_peer d) dst_ip of
                None \<Rightarrow> (None, d, [])
              | Some p \<Rightarrow>
                  (case d_tunnels d of
                     None \<Rightarrow> (None, d, [])
                   | Some tm \<Rightarrow>
                       (case get_tunnel tm p of
                          None \<Rightarrow> (None, d, [])
                        | Some t \<Rightarrow>
                            (case send_data cr nonce t packet of
                               (r, t', es) \<Rightarrow>
                                 (case r of Inl e \<Rightarrow> Some (Inr e) | Inr _ \<Rightarrow> None,
                                  d\<lparr>d_tunnels := Some (put_tunnel tm t')\<rparr>, map Wire es)))))))"

definition tunnel_pass :: "'p crypto \<Rightarrow> (string \<Rightarrow> recv_outcome) \<Rightarrow> time \<Rightarrow> 'p daemon \<Rightarrow> 'p daemon \<times> daemon_effect list" where
  "tunnel_pass cr poll now d =
     (case d_tunnels d of
        None \<Rightarrow> (d, [])
      | Some tm \<Rightarrow>
          if \<not> d_tun d then (d, [])
          else
            (case recv_pass cr poll now (list_tunnels tm) tm of
               (packets, tm', es) \<Rightarrow>
                 (d\<lparr>d_tunnels := Some tm'\<rparr>, map Wire es @ map (\<lambda>(_, packet). TunWrite packet) packets)))"

definition shutdown_daemon :: "'p daemon \<Rightarrow> 'p daemon \<times> daemon_effect list" where
  "shutdown_daemon d =
     (case d_tunnels d of
        None \<Rightarrow> (d\<lparr>d_tun := False, d_channel := False\<rparr>, [])
      | Some tm \<Rightarrow>
          (case shutdown tm of (tm', es) \<Rightarrow> (d\<lparr>d_tunnels := Some tm', d_tun := False, d_channel := False\<rparr>, map Wire es)))"

section \<open>Routing\<close>

lemma create_tunnel_keeps_routes:
  "d_ip_to_peer (fst (create_tunnel_to_peer cr d p ip att)) = d_ip_to_peer d"
  "d_peer_to_ip (fst (create_tunnel_to_peer cr d p ip att)) = d_peer_to_ip d"
  "d_client_id (fst (create_tunnel_to_peer cr d p ip att)) = d_client_id d"
  by (auto simp: create_tunnel_to_peer_def case_prod_beta split: option.splits sum.splits)

lemma peer_online_routes:
  assumes "p \<noteq> []" "p \<noteq> d_client_id d" "daemon_peer_online d (Some p) n (Some a) = (d', c)" "a \<noteq> []"
  shows "d_ip_to_peer d' = dict_set a p (d_ip_to_peer d) \<and> d_peer_to_ip d' = dict_set p a (d_peer_to_ip d)
    \<and> d_client_id d' = d_client_id d"
  using assms by (auto simp: daemon_peer_online_def Let_def split: option.splits sum.splits prod.splits)

lemma peer_offline_routes:
  assumes "p \<noteq> []"
  shows "d_ip_to_peer (fst (daemon_peer_offline d (Some p) n)) = dict_del (dict_get_or (d_peer_to_ip d) p []) (d_ip_to_peer d)
    \<and> d_peer_to_ip (fst (daemon_peer_offline d (Some p) n)) = dict_del p (d_peer_to_ip d)
    \<and> d_client_id (fst (daemon_peer_offline d (Some p) n)) = d_client_id d"
  using assms by (auto simp: daemon_peer_offline_def Let_def split: option.splits prod.splits)

text \<open>The messages of a server that announces addresses.\<close>

definition online_message :: "string \<Rightarrow> string \<Rightarrow> string \<Rightarrow> message" where
  "online_message n p a = \<lparr>m_type = ''PEER_ONLINE'',
     m_payload = [(''network_id'', JStr n), (''peer_id'', JStr p), (''peer_ip'', JStr a)]\<rparr>"

definition offline_message :: "string \<Rightarrow> string \<Rightarrow> message" where
  "offline_message n p = \<lparr>m_type = ''PEER_OFFLINE'', m_payload = [(''network_id'', JStr n), (''peer_id'', JStr p)]\<rparr>"

datatype 'p announcement = Announce string string "'p attempt" | Withdraw string string

fun announced :: "'p crypto \<Rightarrow> (string \<Rightarrow> string) \<Rightarrow> 'p daemon \<Rightarrow> 'p announcement \<Rightarrow> 'p daemon" where
  "announced cr ipaddr d (Announce n p att) = fst (dispatch_event cr d (online_message n p (ipaddr p)) att)"
| "announced cr ipaddr d (Withdraw n p) = fst (daemon_peer_offline d (Some p) (Some n))"

fun online_after :: "string set \<Rightarrow> 'p announcement \<Rightarrow> string set" where
  "online_after P (Announce n p att) = insert p P"
| "online_after P (Withdraw n p) = P - {p}"

fun named_peer :: "'p announcement \<Rightarrow> string" where
  "named_peer (Announce n p att) = p"
| "named_peer (Withdraw n p) = p"

definition routes_ok :: "(string \<Rightarrow> string) \<Rightarrow> string set \<Rightarrow> 'p daemon \<Rightarrow> bool" where
  "routes_ok ipaddr P d \<longleftrightarrow>
     (\<forall>p. dict_get (d_peer_to_ip d) p = (if p \<in> P then Some (ipaddr p) else None))
     \<and> (\<forall>a p. dict_get (d_ip_to_peer d) a = Some p \<longleftrightarrow> p \<in> P \<and> ipaddr p = a)"

lemma announce_step:
  assumes "routes_ok ipaddr P d" "inj ipaddr" "named_peer e \<noteq> []" "named_peer e \<noteq> d_client_id d" "\<forall>p. ipaddr p \<noteq> []"
  shows "routes_ok ipaddr (online_after P e) (announced cr ipaddr d e) \<and> d_client_id (announced cr ipaddr d e) = d_client_id d"
proof (cases e)
  case (Announce n p att)
  let ?r = "daemon_peer_online d (Some p) (Some n) (Some (ipaddr p))"
  obtain d' c where r: "?r = (d', c)" by (cases ?r)
  have d': "d_ip_to_peer d' = dict_set (ipaddr p) p (d_ip_to_peer d)" "d_peer_to_ip d' = dict_set p (ipaddr p) (d_peer_to_ip d)"
    "d_client_id d' = d_client_id d"
    using peer_online_routes [OF _ _ r] assms(3-5) Announce by auto
  have "announced cr ipaddr d e = (if c then fst (create_tunnel_to_peer cr d' p (Some (ipaddr p)) att) else d')"
    using r by (simp add: Announce dispatch_event_def online_message_def text_field_def)
  then have new: "d_ip_to_peer (announced cr ipaddr d e) = dict_set (ipaddr p) p (d_ip_to_peer d)"
    "d_peer_to_ip (announced cr ipaddr d e) = dict_set p (ipaddr p) (d_peer_to_ip d)"
    "d_client_id (announced cr ipaddr d e) = d_client_id d"
    using d' by (simp_all add: create_tunnel_keeps_routes)
  have on: "online_after P e = insert p P" by (simp add: Announce)
  show ?thesis
    using assms(1,2) unfolding routes_ok_def new on by (auto simp: inj_eq)
next
  case (Withdraw n p)
  then have "p \<noteq> []" using assms(3) by simp
  note off = peer_offline_routes [OF this, of d "Some n"]
  have ip: "dict_get_or (d_peer_to_ip d) p [] = (if p \<in> P then ipaddr p else [])"
    using assms(1) by (auto simp: routes_ok_def dict_get_or_def)
  show ?thesis
    using assms(1,2,5) off unfolding routes_ok_def Withdraw announced.simps online_after.simps ip
    by (auto simp: inj_eq)
qed

lemma announce_run:
  assumes "routes_ok ipaddr P d" "inj ipaddr" "\<forall>p. ipaddr p \<noteq> []"
    and "\<forall>e \<in> set es. named_peer e \<noteq> [] \<and> named_peer e \<noteq> d_client_id d"
  shows "routes_ok ipaddr (foldl online_after P es) (foldl (announced cr ipaddr) d es)"
  using assms
proof (induction es arbitrary: P d)
  case (Cons e es)
  have step: "routes_ok ipaddr (online_after P e) (announced cr ipaddr d e)" "d_client_id (announced cr ipaddr d e) = d_client_id d"
    using announce_step [OF Cons.prems(1,2) _ _ Cons.prems(3), of e cr] Cons.prems(4) by auto
  then show ?case using Cons.IH [OF step(1) Cons.prems(2,3)] Cons.prems(4) by simp
qed simp


section \<open>Address resolution\<close>

lemma dotted_parts: "split_on ''.'' (dotted bs) = map (\<lambda>i. dec_digits (unat (bs ! i))) [0, 1, 2, 3]"
proof -
  have dot: "CHR ''.'' \<notin> set (dec_digits n)" for n
    using dec_digits_digits [of n] by (auto simp: list_all_iff is_digit_def)
  show ?thesis
    unfolding dotted_def by (simp add: str_int_def split_on_char split_on_absent dot)
qed

lemma uint_byte_less: "uint (b :: byte) < 256"
  using unsigned_less [of b] by simp

lemma mac_for_dotted: "mac_for_ip (dotted bs) = Inr [2, bs ! 1, bs ! 2, bs ! 3, bs ! 0, 0]"
  by (simp add: mac_for_ip_def dotted_parts bytes_of_ints_def uint_byte_less)

text \<open>Proxy ARP.  A request (raw or in an Ethernet frame) for an address the client answers for is
  answered with a well-formed ARP reply: it parses as an operation 2 from the MAC derived from that
  address and that address, directed to the hardware and protocol address of the requester.\<close>
theorem arp_reply_correct:
  assumes "parse_arp packet = Some (1, sha, spa, tha, tpa)" "dict_has routes (dotted tpa)"
  shows "\<exists>reply. build_arp_reply packet routes = Inr (Some reply) \<and> length reply = 28
    \<and> parse_arp reply = Some (2, [2, tpa ! 1, tpa ! 2, tpa ! 3, tpa ! 0, 0], tpa, sha, spa)"
proof -
  have len: "length sha = 6" "length spa = 4" "length tpa = 4"
    using assms(1) by (auto simp: parse_arp_def Let_def split: if_splits option.splits)
  let ?mac = "[2, tpa ! 1, tpa ! 2, tpa ! 3, tpa ! 0, 0]"
  let ?reply = "be_bytes 2 1 @ be_bytes 2 0x0800 @ [6, 4] @ be_bytes 2 2 @ ?mac @ tpa @ sha @ spa"
  have b: "build_arp_reply packet routes = Inr (Some ?reply)"
    using assms len by (simp add: build_arp_reply_def inet_ntoa_def mac_for_dotted)
  have be: "be_bytes 2 1 = [0, 1]" "be_bytes 2 0x0800 = [8, 0]" "be_bytes 2 2 = [0, 2]" by (simp_all add: numeral_2_eq_2)
  obtain a0 a1 a2 a3 where a: "tpa = [a0, a1, a2, a3]" using len(3) by (auto simp: length_Suc_conv numeral_eq_Suc)
  obtain s0 s1 s2 s3 s4 s5 where s: "sha = [s0, s1, s2, s3, s4, s5]" using len(1) by (auto simp: length_Suc_conv numeral_eq_Suc)
  obtain p0 p1 p2 p3 where p: "spa = [p0, p1, p2, p3]" using len(2) by (auto simp: length_Suc_conv numeral_eq_Suc)
  show ?thesis
    unfolding b be a s p by (simp add: parse_arp_def Let_def be_val_def)
qed

theorem arp_reply_correct_witness:
  "\<exists>reply. build_arp_reply ([0, 1, 8, 0, 6, 4, 0, 1] @ [10, 11, 12, 13, 14, 15] @ [25, 0, 0, 9] @ replicate 6 0 @ [25, 0, 0, 7])
       [(''25.0.0.7'', ''me'')] = Inr (Some reply) \<and> length reply = 28
     \<and> parse_arp reply = Some (2, [2, 0, 0, 7, 25, 0], [25, 0, 0, 7], [10, 11, 12, 13, 14, 15], [25, 0, 0, 9])"
proof -
  let ?p = "[0, 1, 8, 0, 6, 4, 0, 1] @ [10, 11, 12, 13, 14, 15] @ [25, 0, 0, 9] @ replicate 6 0 @ [25, 0, 0, 7] :: bytes"
  have "parse_arp ?p = Some (1, [10, 11, 12, 13, 14, 15], [25, 0, 0, 9], replicate 6 0, [25, 0, 0, 7])"
    by code_simp
  moreover have "dict_has [(''25.0.0.7'', ''me'')] (dotted [25, 0, 0, 7])" by code_simp
  ultimately show ?thesis
    using arp_reply_correct [of ?p "[10, 11, 12, 13, 14, 15]" "[25, 0, 0, 9]" "replicate 6 0" "[25, 0, 0, 7]"] by simp
qed


end
