(* ===== verification/Channel.thy ===== *)
theory Channel
  imports Protocol
begin

text \<open>
  The control channel of the client (\<^verbatim>\<open>client/control_channel.py\<close>): reading messages, routing
  them to a pending request or to the event queue, requests, registration and authentication, the
  commands, and reconnection with exponential backoff.  A request is split at its waits; what the
  stream delivers is an argument.  The RSA signature of \<^verbatim>\<open>client/identity.py\<close> is the argument
  \<open>sign\<close>.
\<close>

section \<open>State\<close>

datatype channel_error =
    ControlChannelError string
  | ChannelClosedError
  | IncompleteRead
  | BadMessage msg_error
  | BadHex
  | BadPayload py_exc

record channel =
  ch_client_id :: string
  ch_public_pem :: "string option"
  ch_has_key :: bool
  ch_connected :: bool
  ch_authenticated :: bool
  ch_stopped :: bool
  ch_reader_owned :: bool
  ch_writer :: bool
  ch_expected :: "string option"
  ch_responses :: "message option list"
  ch_events :: "message list"
  ch_challenge :: string
  ch_base_delay :: time
  ch_max_delay :: time
  ch_backoff :: time
  ch_reconnecting :: bool

definition channel_init :: "string \<Rightarrow> time \<Rightarrow> time \<Rightarrow> channel" where
  "channel_init client_id base max_delay =
     \<lparr>ch_client_id = client_id, ch_public_pem = None, ch_has_key = False, ch_connected = False,
      ch_authenticated = False, ch_stopped = False, ch_reader_owned = False, ch_writer = False, ch_expected = None,
      ch_responses = [], ch_events = [], ch_challenge = [], ch_base_delay = base, ch_max_delay = max_delay,
      ch_backoff = base, ch_reconnecting = False\<rparr>"

text \<open>After \<^verbatim>\<open>open_connection\<close> succeeded.\<close>

definition connected_to :: "channel \<Rightarrow> channel" where
  "connected_to c = c\<lparr>ch_writer := True, ch_connected := True, ch_backoff := ch_base_delay c\<rparr>"

section \<open>Reading\<close>

text \<open>\<open>data\<close> is everything the stream will deliver; the rest is returned.\<close>

definition recv_message :: "bytes \<Rightarrow> channel_error + message \<times> bytes" where
  "recv_message data =
     (if length data < 4 then Inl IncompleteRead
      else
        (let len = be_val (take 4 data) in
         if len > MAX_MESSAGE_SIZE then Inl (ControlChannelError ''server sent oversized message'')
         else if length data < 4 + len then Inl IncompleteRead
         else (case deserialize (take (4 + len) data) of
                 Inl e \<Rightarrow> Inl (BadMessage e) | Inr m \<Rightarrow> Inr (m, drop (4 + len) data))))"

definition on_connection_lost :: "channel \<Rightarrow> channel" where
  "on_connection_lost c =
     (if ch_stopped c \<or> \<not> ch_connected c then c
      else c\<lparr>ch_connected := False, ch_authenticated := False, ch_writer := False,
             ch_responses := ch_responses c @ [None], ch_reconnecting := True\<rparr>)"

definition classify :: "channel \<Rightarrow> message \<Rightarrow> channel" where
  "classify c msg =
     (case ch_expected c of
        Some t \<Rightarrow> if m_type msg = t \<or> m_type msg = ''ERROR'' then c\<lparr>ch_responses := ch_responses c @ [Some msg]\<rparr>
                  else c\<lparr>ch_events := ch_events c @ [msg]\<rparr>
      | None \<Rightarrow> c\<lparr>ch_events := ch_events c @ [msg]\<rparr>)"

text \<open>The background reader on the rest of the stream: any failure to read ends it.\<close>

function event_loop :: "channel \<Rightarrow> bytes \<Rightarrow> channel" where
  "event_loop c data =
     (if \<not> (ch_connected c \<and> \<not> ch_stopped c) then c\<lparr>ch_reader_owned := False\<rparr>
      else
        (case recv_message data of
           Inl _ \<Rightarrow> (on_connection_lost c)\<lparr>ch_reader_owned := False\<rparr>
         | Inr (msg, rest) \<Rightarrow> event_loop (classify c msg) rest))"
  by auto
termination
  by (relation "measure (\<lambda>(c, data). length data)") (auto simp: recv_message_def Let_def split: if_splits sum.splits)

declare event_loop.simps [simp del]

section \<open>Requests\<close>

definition error_text :: "payload \<Rightarrow> channel_error" where
  "error_text p = ControlChannelError (py_str (dict_get_or p ''code'' (JStr ''ERROR'')) @ '': '' @ py_str (dict_get_or p ''message'' (JStr [])))"

definition reply_outcome :: "string \<Rightarrow> message \<Rightarrow> (channel_error + message) option" where
  "reply_outcome expected m =
     (if m_type m = ''ERROR'' then Some (Inl (error_text (m_payload m)))
      else if m_type m = expected then Some (Inr m)
      else None)"

text \<open>The loop of \<^verbatim>\<open>request\<close> while the background reader owns the stream: \<open>None\<close> means that
  it keeps waiting.\<close>

fun await_response :: "string \<Rightarrow> message option list \<Rightarrow> (channel_error + message) option \<times> message option list" where
  "await_response expected [] = (None, [])"
| "await_response expected (None # q) = (Some (Inl ChannelClosedError), q)"
| "await_response expected (Some m # q) =
     (case reply_outcome expected m of Some r \<Rightarrow> (Some r, q) | None \<Rightarrow> await_response expected q)"

text \<open>The same loop reading the stream directly, before the reader is started: messages of other types
  are skipped.\<close>

fun await_direct :: "string \<Rightarrow> message list \<Rightarrow> (channel_error + message) option" where
  "await_direct expected [] = None"
| "await_direct expected (m # ms) =
     (case reply_outcome expected m of Some r \<Rightarrow> Some r | None \<Rightarrow> await_direct expected ms)"

definition request_start :: "channel \<Rightarrow> string \<Rightarrow> channel_error + channel" where
  "request_start c expected = (if \<not> ch_writer c then Inl ChannelClosedError else Inr (c\<lparr>ch_expected := Some expected\<rparr>))"

text \<open>A whole request on a channel with a background reader that receives \<open>arrivals\<close> meanwhile.\<close>

definition request_owned :: "channel \<Rightarrow> string \<Rightarrow> message list \<Rightarrow> (channel_error + message) option \<times> channel" where
  "request_owned c expected arrivals =
     (case request_start c expected of
        Inl e \<Rightarrow> (Some (Inl e), c)
      | Inr c1 \<Rightarrow>
          (let c2 = foldl classify c1 arrivals in
           case await_response expected (ch_responses c2) of
             (r, q) \<Rightarrow> (r, c2\<lparr>ch_responses := q, ch_expected := (if r = None then Some expected else None)\<rparr>)))"

section \<open>Registration and authentication\<close>

definition register_request :: "string \<Rightarrow> string \<Rightarrow> message result" where
  "register_request client_id pem =
     make_message RegisterMessage [(''client_id'', JStr client_id), (''public_key'', JStr pem), (''version'', JStr ''0.1.0'')]"

definition register_started :: "channel \<Rightarrow> string \<Rightarrow> string \<Rightarrow> channel" where
  "register_started c client_id pem = c\<lparr>ch_client_id := client_id, ch_public_pem := Some pem\<rparr>"

definition challenge_received :: "channel \<Rightarrow> message \<Rightarrow> channel" where
  "challenge_received c reply =
     c\<lparr>ch_challenge := (case dict_get (m_payload reply) ''challenge'' of Some (JStr s) \<Rightarrow> s | _ \<Rightarrow> [])\<rparr>"

definition auth_request :: "(bytes \<Rightarrow> bytes) \<Rightarrow> channel \<Rightarrow> channel_error + message result" where
  "auth_request sign c =
     (case unhexlify (ch_challenge c) of
        None \<Rightarrow> Inl BadHex
      | Some challenge \<Rightarrow>
          Inr (make_message AuthResponse [(''signature'', JStr (hexlify (sign challenge))), (''challenge'', JStr (ch_challenge c))]))"

definition authenticated_ok :: "channel \<Rightarrow> channel" where
  "authenticated_ok c = c\<lparr>ch_authenticated := True, ch_has_key := True, ch_reader_owned := True\<rparr>"

section \<open>Commands\<close>

definition create_network_request :: "string \<Rightarrow> string \<Rightarrow> string \<Rightarrow> message result" where
  "create_network_request name password topo =
     make_message CreateNetwork [(''name'', JStr name), (''password'', JStr password), (''topology'', JStr topo)]"

definition join_network_request :: "string \<Rightarrow> string \<Rightarrow> message result" where
  "join_network_request network_id password =
     make_message JoinNetwork [(''network_id'', JStr network_id), (''password'', JStr password)]"

definition leave_network_request :: "string \<Rightarrow> message result" where
  "leave_network_request network_id = make_message LeaveNetwork [(''network_id'', JStr network_id)]"

definition list_networks_request :: "message result" where
  "list_networks_request = make_message ListNetworks []"

definition peer_endpoints_request :: "string \<Rightarrow> message result" where
  "peer_endpoints_request peer_id = make_message RequestPeerConn [(''peer_id'', JStr peer_id)]"

definition relay_request :: "string \<Rightarrow> message result" where
  "relay_request peer_id = make_message RelayRequest [(''peer_id'', JStr peer_id)]"

text \<open>\<^verbatim>\<open>[(host, int(port)) for host, port in endpoints]\<close> for ports that are JSON integers.\<close>

fun endpoints_of :: "json list \<Rightarrow> (string \<times> int) list result" where
  "endpoints_of [] = Inr []"
| "endpoints_of (JArr [JStr host, JInt port] # es) =
     (case endpoints_of es of Inl e \<Rightarrow> Inl e | Inr xs \<Rightarrow> Inr ((host, port) # xs))"
| "endpoints_of (_ # es) = Inl (ValueError ''malformed endpoint'')"

definition peer_endpoints_reply :: "message \<Rightarrow> (string \<times> int) list result" where
  "peer_endpoints_reply reply =
     (case dict_get (m_payload reply) ''endpoints'' of
        None \<Rightarrow> Inr []
      | Some (JArr es) \<Rightarrow> endpoints_of es
      | Some _ \<Rightarrow> Inl (TypeError ''endpoints is not a list''))"

section \<open>Reconnection and closing\<close>

datatype attempt_outcome = ConnectFails | AuthFails | Reconnected

text \<open>One turn of \<^verbatim>\<open>_reconnect_loop\<close>: \<^verbatim>\<open>connect\<close> resets the backoff before the client
  authenticates again.\<close>

definition reconnect_turn :: "channel \<Rightarrow> attempt_outcome \<Rightarrow> channel" where
  "reconnect_turn c out =
     (case out of
        ConnectFails \<Rightarrow> c\<lparr>ch_backoff := min (ch_backoff c * 2) (ch_max_delay c)\<rparr>
      | AuthFails \<Rightarrow> (let c1 = connected_to c in c1\<lparr>ch_backoff := min (ch_backoff c1 * 2) (ch_max_delay c1)\<rparr>)
      | Reconnected \<Rightarrow>
          (let c1 = connected_to c;
               c2 = (if ch_public_pem c1 \<noteq> None \<and> ch_public_pem c1 \<noteq> Some [] \<and> ch_has_key c1 then authenticated_ok c1 else c1)
           in c2\<lparr>ch_backoff := ch_base_delay c2\<rparr>))"

text \<open>The delays slept before the successive attempts; the loop ends only when the channel is
  stopped, that is with the list.\<close>

fun reconnect_delays :: "channel \<Rightarrow> attempt_outcome list \<Rightarrow> time list" where
  "reconnect_delays c [] = []"
| "reconnect_delays c (out # outs) = ch_backoff c # reconnect_delays (reconnect_turn c out) outs"

definition close_channel :: "channel \<Rightarrow> channel" where
  "close_channel c = c\<lparr>ch_stopped := True, ch_reconnecting := False, ch_writer := False, ch_connected := False,
     ch_authenticated := False, ch_reader_owned := False\<rparr>"

section \<open>Backoff\<close>

lemma reconnect_turn_config:
  "ch_base_delay (reconnect_turn c out) = ch_base_delay c" "ch_max_delay (reconnect_turn c out) = ch_max_delay c"
  by (simp_all add: reconnect_turn_def connected_to_def authenticated_ok_def Let_def split: attempt_outcome.split)

definition backoff_ok :: "channel \<Rightarrow> bool" where
  "backoff_ok c \<longleftrightarrow> ch_base_delay c \<le> ch_backoff c \<and> ch_backoff c \<le> ch_max_delay c"

lemma reconnect_turn_ok: "0 < ch_base_delay c \<Longrightarrow> backoff_ok c \<Longrightarrow> backoff_ok (reconnect_turn c out)"
  by (auto simp: backoff_ok_def reconnect_turn_def connected_to_def authenticated_ok_def Let_def split: attempt_outcome.split)

lemma backoff_power:
  assumes "0 < ch_base_delay c" "ch_base_delay c \<le> ch_max_delay c"
    and "ch_backoff c = min (ch_base_delay c * 2 ^ k) (ch_max_delay c)"
  shows "ch_backoff (reconnect_turn c ConnectFails) = min (ch_base_delay c * 2 ^ Suc k) (ch_max_delay c)"
  using assms by (auto simp: reconnect_turn_def min_def)

lemma delays_append:
  "reconnect_delays c (xs @ ys) = reconnect_delays c xs @ reconnect_delays (foldl reconnect_turn c xs) ys"
  by (induction xs arbitrary: c) simp_all

lemma length_delays [simp]: "length (reconnect_delays c outs) = length outs"
  by (induction outs arbitrary: c) simp_all

lemma delays_bounded:
  "0 < ch_base_delay c \<Longrightarrow> backoff_ok c \<Longrightarrow> d \<in> set (reconnect_delays c outs) \<Longrightarrow> ch_base_delay c \<le> d \<and> d \<le> ch_max_delay c"
proof (induction outs arbitrary: c)
  case (Cons out outs)
  have IH: "d \<in> set (reconnect_delays (reconnect_turn c out) outs) \<Longrightarrow> ch_base_delay c \<le> d \<and> d \<le> ch_max_delay c"
    using Cons.IH [of "reconnect_turn c out"] reconnect_turn_ok [OF Cons.prems(1,2), of out] Cons.prems(1)
    unfolding reconnect_turn_config by blast
  have "d = ch_backoff c \<or> d \<in> set (reconnect_delays (reconnect_turn c out) outs)" using Cons.prems(3) by simp
  then show ?case using IH Cons.prems(2) unfolding backoff_ok_def by blast
qed simp

lemma delays_double:
  assumes "0 < ch_base_delay c" "ch_base_delay c \<le> ch_max_delay c"
    and "ch_backoff c = min (ch_base_delay c * 2 ^ k) (ch_max_delay c)"
  shows "reconnect_delays c (replicate n ConnectFails) = map (\<lambda>i. min (ch_base_delay c * 2 ^ (k + i)) (ch_max_delay c)) [0..<n]"
  using assms
proof (induction n arbitrary: c k)
  case (Suc n)
  let ?c = "reconnect_turn c ConnectFails"
  have "reconnect_delays ?c (replicate n ConnectFails)
      = map (\<lambda>i. min (ch_base_delay ?c * 2 ^ (Suc k + i)) (ch_max_delay ?c)) [0..<n]"
    using Suc.prems backoff_power [OF Suc.prems] by (intro Suc.IH) (simp_all only: reconnect_turn_config)
  then have "reconnect_delays ?c (replicate n ConnectFails)
      = map (\<lambda>i. min (ch_base_delay c * 2 ^ (k + Suc i)) (ch_max_delay c)) [0..<n]"
    by (simp add: reconnect_turn_config)
  then show ?case
    using Suc.prems(3) by (simp add: upt_conv_Cons map_Suc_upt [symmetric] del: upt_Suc)
qed simp

lemma turns_config:
  "ch_base_delay (foldl reconnect_turn c outs) = ch_base_delay c" "ch_max_delay (foldl reconnect_turn c outs) = ch_max_delay c"
  by (induction outs arbitrary: c) (simp_all add: reconnect_turn_config)

text \<open>Reconnection backs off exponentially between its bounds.  Whatever the attempts lead to, the
  client sleeps at least the base delay and at most the maximal delay before each; before the
  attempts of an unbroken series of failed connections it sleeps the base delay doubled each time
  up to the maximum, and a successful reconnection starts a series afresh.\<close>
theorem reconnect_backoff:
  assumes "0 < base" "base \<le> max_delay"
  shows "(\<forall>d \<in> set (reconnect_delays (channel_init i base max_delay) outs). base \<le> d \<and> d \<le> max_delay)
    \<and> reconnect_delays (channel_init i base max_delay) (replicate n ConnectFails)
        = map (\<lambda>k. min (base * 2 ^ k) max_delay) [0..<n]
    \<and> drop (Suc (length outs)) (reconnect_delays (channel_init i base max_delay) (outs @ Reconnected # replicate n ConnectFails))
        = map (\<lambda>k. min (base * 2 ^ k) max_delay) [0..<n]"
proof -
  let ?c = "channel_init i base max_delay"
  let ?d = "reconnect_turn (foldl reconnect_turn ?c outs) Reconnected"
  have c: "ch_base_delay ?c = base" "ch_max_delay ?c = max_delay" "ch_backoff ?c = base" by (simp_all add: channel_init_def)
  have "backoff_ok ?c" using assms(2) by (simp add: backoff_ok_def c)
  then have bound: "\<forall>d \<in> set (reconnect_delays ?c outs). base \<le> d \<and> d \<le> max_delay"
    using delays_bounded [of ?c] assms(1) by (simp add: c)
  have d: "ch_base_delay ?d = base" "ch_max_delay ?d = max_delay"
    by (simp_all add: reconnect_turn_config turns_config c)
  have b: "ch_backoff ?d = base"
    using turns_config [of ?c outs] by (simp add: reconnect_turn_def connected_to_def authenticated_ok_def Let_def c)
  have series: "reconnect_delays x (replicate n ConnectFails) = map (\<lambda>k. min (base * 2 ^ k) max_delay) [0..<n]"
    if "ch_base_delay x = base" "ch_max_delay x = max_delay" "ch_backoff x = base" for x
    using delays_double [of x 0 n] assms that by simp
  show ?thesis
    using bound series [OF c] series [OF d b] by (simp add: delays_append)
qed

theorem reconnect_backoff_witness:
  "reconnect_delays (channel_init ''c'' 1 60) (replicate 8 ConnectFails) = [1, 2, 4, 8, 16, 32, 60, 60]"
  using reconnect_backoff [of 1 60 "''c''" "[]" 8] by (simp add: upt_rec)

text \<open>The loop has no exit on success: after a successful reconnection the client sleeps the base delay
  and connects again, although the channel is up.\<close>

lemma reconnects_although_connected:
  "reconnect_delays c (Reconnected # outs) = ch_backoff c # reconnect_delays (reconnect_turn c Reconnected) outs
   \<and> ch_connected (reconnect_turn c Reconnected)"
  by (simp add: reconnect_turn_def connected_to_def authenticated_ok_def Let_def)

section \<open>Pairing of requests and replies\<close>

definition answers :: "string \<Rightarrow> message \<Rightarrow> bool" where
  "answers t m \<longleftrightarrow> m_type m = t \<or> m_type m = ''ERROR''"

lemma classify_run:
  assumes "ch_expected c = Some t"
  shows "ch_responses (foldl classify c ms) = ch_responses c @ map Some (filter (answers t) ms)
    \<and> ch_events (foldl classify c ms) = ch_events c @ filter (\<lambda>m. \<not> answers t m) ms
    \<and> ch_expected (foldl classify c ms) = Some t"
  using assms by (induction ms arbitrary: c) (auto simp: classify_def answers_def)

lemma await_answers:
  "list_all (answers t) ms \<Longrightarrow>
     await_response t (map Some ms) = (case ms of [] \<Rightarrow> (None, []) | m # _ \<Rightarrow> (reply_outcome t m, map Some (tl ms)))"
  by (cases ms) (auto simp: answers_def reply_outcome_def)

text \<open>Requests and pushed events are kept apart.  Whatever arrives while a request waits on an idle
  channel, the request ends with the first message of the expected type or the first error, every
  message of another type is delivered as an event, in order and none lost, and only further
  messages of the expected type stay queued.\<close>
theorem request_pairing:
  assumes "ch_writer c" "ch_responses c = []" "request_owned c t arrivals = (r, c')"
  shows "ch_events c' = ch_events c @ filter (\<lambda>m. \<not> answers t m) arrivals
    \<and> r = (case filter (answers t) arrivals of
             [] \<Rightarrow> None
           | m # _ \<Rightarrow> Some (if m_type m = ''ERROR'' then Inl (error_text (m_payload m)) else Inr m))
    \<and> ch_responses c' = map Some (tl (filter (answers t) arrivals))"
proof -
  let ?c = "c\<lparr>ch_expected := Some t\<rparr>"
  note run = classify_run [of ?c t arrivals]
  have all: "list_all (answers t) (filter (answers t) arrivals)" by (simp add: list_all_iff)
  have m: "reply_outcome t m = Some (if m_type m = ''ERROR'' then Inl (error_text (m_payload m)) else Inr m)"
    if "answers t m" for m using that by (auto simp: reply_outcome_def answers_def)
  show ?thesis
  proof (cases "filter (answers t) arrivals")
    case Nil
    then show ?thesis using run assms by (auto simp: request_owned_def request_start_def Let_def)
  next
    case (Cons x xs)
    then have "answers t x" by (metis filter_eq_ConsD)
    then show ?thesis
      using run assms await_answers [OF all] Cons m
      by (auto simp: request_owned_def request_start_def Let_def simp del: await_response.simps)
  qed
qed

theorem request_pairing_witness:
  "fst (request_owned (connected_to (channel_init ''c'' 1 60)) ''NETWORK_LIST''
      [\<lparr>m_type = ''PEER_ONLINE'', m_payload = []\<rparr>, \<lparr>m_type = ''NETWORK_LIST'', m_payload = []\<rparr>])
    = Some (Inr \<lparr>m_type = ''NETWORK_LIST'', m_payload = []\<rparr>)"
proof -
  let ?c = "connected_to (channel_init ''c'' 1 60)"
  let ?ms = "[\<lparr>m_type = ''PEER_ONLINE'', m_payload = []\<rparr>, \<lparr>m_type = ''NETWORK_LIST'', m_payload = []\<rparr>]"
  obtain r c' where q: "request_owned ?c ''NETWORK_LIST'' ?ms = (r, c')" by (metis surj_pair)
  have "ch_writer ?c" "ch_responses ?c = []" by (simp_all add: connected_to_def channel_init_def)
  from request_pairing [OF this q] show ?thesis by (simp add: q answers_def)
qed

section \<open>Reading the server's stream\<close>

lemma recv_serialized:
  assumes "serialize m = Inr w" "deserialize w = Inr m"
  shows "recv_message (w @ rest) = Inr (m, rest)"
proof -
  obtain body where b: "w = be_bytes 4 (length body) @ body" "length body \<le> MAX_MESSAGE_SIZE"
    using assms(1) by (auto simp: serialize_def serialize_body_def Let_def split: if_splits)
  then have "be_val (take 4 (w @ rest)) = length body" by (simp add: be_val_be_bytes MAX_MESSAGE_SIZE_def del: be_bytes.simps)
  then show ?thesis using b assms(2) by (simp add: recv_message_def Let_def del: be_bytes.simps)
qed

end
