(* ===== verification/Handshake.thy ===== *)
theory Handshake
  imports Channel Server_Properties
begin

text \<open>
  The composition of the client's control channel with the mediation server: registration, the
  challenge, its signature and the server's acceptance, over the bytes on the connection.
\<close>

section \<open>The messages of the handshake\<close>

lemma register_message: "register_request cid pem = Inr \<lparr>m_type = ''REGISTER'',
    m_payload = [(''type'', JStr ''REGISTER''), (''client_id'', JStr cid), (''public_key'', JStr pem), (''version'', JStr ''0.1.0'')]\<rparr>"
  by (simp add: register_request_def make_message_def construct_def RegisterMessage_def dict_has_def
      payload_from_dataclass_def type_of_instance_def)

definition challenge_message :: "string \<Rightarrow> bytes \<Rightarrow> message" where
  "challenge_message cid nonce = \<lparr>m_type = ''AUTH_CHALLENGE'',
     m_payload = [(''type'', JStr ''AUTH_CHALLENGE''), (''challenge'', JStr (hexlify nonce)), (''client_id'', JStr cid)]\<rparr>"

lemma challenge_made:
  "make_message AuthChallenge (filter (\<lambda>kv. fst kv \<in> {''challenge'', ''client_id''}) (create_auth_challenge cid nonce))
     = Inr (challenge_message cid nonce)"
  by (simp add: create_auth_challenge_def make_message_def construct_def AuthChallenge_def dict_has_def
      payload_from_dataclass_def type_of_instance_def challenge_message_def)

definition response_message :: "bytes \<Rightarrow> string \<Rightarrow> message" where
  "response_message sig ch = \<lparr>m_type = ''AUTH_RESPONSE'',
     m_payload = [(''type'', JStr ''AUTH_RESPONSE''), (''signature'', JStr (hexlify sig)), (''challenge'', JStr ch)]\<rparr>"

lemma response_made:
  "make_message AuthResponse [(''signature'', JStr (hexlify sig)), (''challenge'', JStr ch)] = Inr (response_message sig ch)"
  by (simp add: make_message_def construct_def AuthResponse_def dict_has_def payload_from_dataclass_def
      type_of_instance_def response_message_def)

definition accepted_message :: message where
  "accepted_message = \<lparr>m_type = ''AUTH_OK'', m_payload = [(''type'', JStr ''AUTH_OK''), (''ok'', JBool True),
     (''message'', JStr ''authenticated'')]\<rparr>"

lemma accepted_made:
  "make_message AuthResult [(''ok'', JBool True), (''message'', JStr ''authenticated'')] = Inr accepted_message"
  by (simp add: make_message_def construct_def AuthResult_def dict_has_def payload_from_dataclass_def
      type_of_instance_def accepted_message_def)

section \<open>Sizes\<close>

lemma length_escape: "length (escape_char c) \<le> 6"
  by (simp add: escape_char_def hex2_def)

lemma length_dump_str: "length (dump_str s) \<le> 6 * length s + 2"
proof -
  have "length (concat (map escape_char s)) \<le> 6 * length s"
    using length_escape by (induction s) (simp_all add: add_mono)
  then show ?thesis by (simp add: dump_str_def)
qed

definition deliverable :: "message result \<Rightarrow> bool" where
  "deliverable r \<longleftrightarrow> (\<exists>m b. r = Inr m \<and> serialize m = Inr b)"

lemma serialize_small: "length (dumps (message_body m)) \<le> MAX_MESSAGE_SIZE \<Longrightarrow> \<exists>b. serialize m = Inr b"
  by (simp add: serialize_def serialize_body_def message_body_def del: be_bytes.simps dumps.simps)

lemma flush_deliverable:
  "\<forall>(w, r) \<in> set ss. deliverable r \<Longrightarrow> flush ss None = (map (\<lambda>(w, r). (w, projr r)) ss, None)"
  by (induction ss "None :: failure option" rule: flush.induct) (auto simp: deliverable_def)

lemma hexlify_ascii: "list_all (\<lambda>c. (of_char c :: nat) < 128) (hexlify bs)"
proof -
  have h: "of_char (hex_digit n) < (128 :: nat)" if "n < 16" for n
    using that by (auto simp: hex_digit_def of_char_of)
  have "unat b div 16 < 16" "unat b mod 16 < 16" for b :: byte
    by (simp_all add: less_mult_imp_div_less)
  then show ?thesis by (induction bs) (simp_all add: hexlify_def hex2_def h)
qed

lemma hexlify_Nil_iff: "hexlify bs = [] \<longleftrightarrow> bs = []"
  by (cases bs) (simp_all add: hexlify_def hex2_def)

lemma challenge_small: "length cid \<le> 65 \<Longrightarrow> length nonce = 32 \<Longrightarrow> \<exists>b. serialize (challenge_message cid nonce) = Inr b"
  using length_dump_str [of cid] length_dump_str [of "hexlify nonce"]
  by (intro serialize_small) (simp add: challenge_message_def message_body_def dump_str_def escape_char_def MAX_MESSAGE_SIZE_def)

lemma accepted_small: "\<exists>b. serialize accepted_message = Inr b"
  by (intro serialize_small) (simp add: accepted_message_def message_body_def dump_str_def escape_char_def MAX_MESSAGE_SIZE_def)

lemma response_ok: "length sig \<le> 1024 \<Longrightarrow> length nonce = 32 \<Longrightarrow> message_ok (response_message sig (hexlify nonce))"
  using length_dump_str [of "hexlify sig"] length_dump_str [of "hexlify nonce"]
  by (simp add: message_ok_def response_message_def message_body_def text_ok_ascii hexlify_ascii MAX_MESSAGE_SIZE_def)
    (simp add: dump_str_def escape_char_def)

section \<open>The two steps\<close>

text \<open>What the code relies on: the private key that signs belongs to the public key in \<open>pem\<close>, and a
  signature has the length of the modulus.\<close>

definition signs :: "'k rsa_lib \<Rightarrow> string \<Rightarrow> (bytes \<Rightarrow> bytes) \<Rightarrow> bool" where
  "signs lib pem sign \<longleftrightarrow> (\<exists>key. load_pem_public_key lib (encode pem) = Inr key \<and> is_rsa_key lib key
     \<and> (\<forall>m. length m = 32 \<longrightarrow> rsa_verify lib key (sign m) m = Inr () \<and> sign m \<noteq> [] \<and> length (sign m) \<le> 1024))"

lemma id_length: "ID_RE cid \<Longrightarrow> cid \<noteq> [] \<and> length cid \<le> 65"
  by (auto simp: ID_RE_def chomp_def Let_def split: if_splits)

lemma validates:
  assumes "ID_RE cid" "PEM_RE (strip pem)"
  shows "validate_register [(''type'', JStr ''REGISTER''), (''client_id'', JStr cid), (''public_key'', JStr pem),
    (''version'', JStr ''0.1.0'')] = Inr (cid, pem)"
proof -
  have "pem \<noteq> []" using assms(2) by (auto simp: PEM_RE_def starts_with_def strip_def lstrip_def rstrip_def)
  then show ?thesis using assms id_length [OF assms(1)] by (simp add: validate_register_def require_def py_str_def)
qed

lemma register_step:
  assumes "ID_RE cid" "PEM_RE (strip pem)" "register_request cid pem = Inr m1" "message_ok m1"
    and "dict_get (sv_conns s) w = Some cn" "\<not> cn_registered cn" "\<not> cn_authenticated cn"
    and "int (length (sv_writers s)) < sv_max_clients s" "\<not> is_banned (sv_registry s) cid" "length (ev_nonce ev) = 32"
    and "server_step s (Receive ev w (wire_of m1)) = (os, s')"
  shows "os = [(w, challenge_message cid (ev_nonce ev))]
    \<and> dict_get (sv_conns s') w = Some (cn\<lparr>cn_client_id := Some cid, cn_registered := True\<rparr>)
    \<and> dict_get (auth_pending (sv_auth s')) cid
        = Some \<lparr>pa_client_id = cid, pa_challenge = ev_nonce ev, pa_created_at = ev_now ev, pa_attempts = 0\<rparr>
    \<and> auth_ttl (sv_auth s') = auth_ttl (sv_auth s)
    \<and> (\<exists>r. registry_get (sv_registry s') cid = Some r \<and> public_key_pem r = pem)
    \<and> sv_writers s' = dict_set cid w (sv_writers s)"
proof -
  have m1: "m_type m1 = ''REGISTER''" "validate_register (m_payload m1) = Inr (cid, pem)"
    using assms(3) validates [OF assms(1,2)] by (auto simp: register_message)
  obtain s2 where reg: "on_register ev w (cn_peer cn) m1 s = ([(w, Inr (challenge_message cid (ev_nonce ev)))], s2, Some cid)"
    and s2: "sv_conns s2 = sv_conns s"
      "dict_get (auth_pending (sv_auth s2)) cid
        = Some \<lparr>pa_client_id = cid, pa_challenge = ev_nonce ev, pa_created_at = ev_now ev, pa_attempts = 0\<rparr>"
      "auth_ttl (sv_auth s2) = auth_ttl (sv_auth s)"
      "\<exists>r. registry_get (sv_registry s2) cid = Some r \<and> public_key_pem r = pem"
      "sv_writers s2 = dict_set cid w (sv_writers s)"
    using assms(8,9) challenge_made [of cid "ev_nonce ev"] m1(2)
    by (auto simp: on_register_def issue_def Let_def registry_get_def register_def update_endpoint_def set_online_def
        new_client_record_def split: option.splits)
  have "flush [(w, Inr (challenge_message cid (ev_nonce ev)))] None = ([(w, challenge_message cid (ev_nonce ev))], None)"
    using challenge_small [of cid "ev_nonce ev"] id_length [OF assms(1)] assms(10) by auto
  then have "server_step s (Receive ev w (wire_of m1))
      = ([(w, challenge_message cid (ev_nonce ev))], set_conn w (cn\<lparr>cn_client_id := Some cid, cn_registered := True\<rparr>) s2)"
    using assms(5,6) m1(1) reg by (simp add: handle_data_wire [OF assms(4)] handle_message_def conn_register_def)
  then show ?thesis using assms(11) s2 by (auto simp: set_conn_def)
qed

lemma answer_step:
  assumes "signs (ev_rsa ev) pem sign" "length nonce = 32"
    and "dict_get (sv_conns s) w = Some cn" "cn_registered cn" "cn_client_id cn = Some cid" "\<not> cn_authenticated cn"
    and "dict_get (auth_pending (sv_auth s)) cid = Some p" "pa_challenge p = nonce"
    and "ev_now ev - pa_created_at p \<le> auth_ttl (sv_auth s)"
    and "registry_get (sv_registry s) cid = Some r" "public_key_pem r = pem"
    and "\<forall>(v, m) \<in> set (announce_peer_online cid s). deliverable m"
    and "server_step s (Receive ev w (wire_of (response_message (sign nonce) (hexlify nonce)))) = (os, s')"
  shows "(w, accepted_message) \<in> set os \<and> dict_get (sv_conns s') w = Some (cn\<lparr>cn_authenticated := True\<rparr>)
    \<and> dict_get (sv_authenticated s') cid = Some True"
proof -
  let ?m = "response_message (sign nonce) (hexlify nonce)"
  obtain key where key: "load_pem_public_key (ev_rsa ev) (encode pem) = Inr key" "is_rsa_key (ev_rsa ev) key"
    "rsa_verify (ev_rsa ev) key (sign nonce) nonce = Inr ()" "sign nonce \<noteq> []" "length (sign nonce) \<le> 1024"
    using assms(1,2) by (auto simp: signs_def)
  have ok: "message_ok ?m" by (rule response_ok [OF key(5) assms(2)])
  have ne: "hexlify (sign nonce) \<noteq> []" "hexlify nonce \<noteq> []"
    using key(4) assms(2) by (auto simp: hexlify_Nil_iff)
  have va: "validate_auth_response (m_payload ?m) = Inr (hexlify nonce, hexlify (sign nonce))"
    using ne by (simp add: validate_auth_response_def require_def response_message_def py_str_def)
  obtain a where v: "verify (ev_rsa ev) (sv_registry s) (ev_now ev) cid (hexlify nonce) (hexlify (sign nonce)) (sv_auth s)
      = (Inr (True, ''authenticated''), a)"
    using assms(7-11) key(1-3)
    by (auto simp: verify_def consume_def Let_def verify_auth_response_def)
  let ?s2 = "s\<lparr>sv_auth := a, sv_authenticated := dict_set cid True (sv_authenticated s)\<rparr>"
  have ann: "announce_peer_online cid ?s2 = announce_peer_online cid s"
    by (simp add: announce_peer_online_def member_writers_def)
  have auth: "on_auth ev w cid ?m s = ((w, Inr accepted_message) # announce_peer_online cid s, ?s2, Inr (True, ''authenticated''))"
    unfolding on_auth_def va by (simp add: v Let_def accepted_made ann [simplified])
  have "deliverable (Inr accepted_message)" using accepted_small by (simp add: deliverable_def)
  then have fl: "flush ((w, Inr accepted_message) # announce_peer_online cid s) None
      = ((w, accepted_message) # map (\<lambda>(w, r). (w, projr r)) (announce_peer_online cid s), None)"
    using flush_deliverable [of "(w, Inr accepted_message) # announce_peer_online cid s"] assms(12) by auto
  have ty: "m_type ?m = ''AUTH_RESPONSE''" by (simp add: response_message_def)
  have "server_step s (Receive ev w (wire_of ?m))
      = ((w, accepted_message) # map (\<lambda>(w, r). (w, projr r)) (announce_peer_online cid s),
         set_conn w (cn\<lparr>cn_authenticated := True\<rparr>) ?s2)"
    using assms(3-6) ty
    by (simp add: handle_data_wire [OF ok] handle_message_def conn_auth_def auth fl [simplified])
  then show ?thesis using assms(13) by (auto simp: set_conn_def)
qed

text \<open>The handshake of client and server succeeds end to end.  A client with a valid identifier and
  a key pair registers on a fresh connection of a server with room for it; the bytes it sends make
  the server answer with a challenge; the response the client computes from that message, sent
  within the lifetime of the challenge and whatever else the server did meanwhile for other clients,
  makes the server reply with AUTH\_OK, which ends the client's request, and mark the connection and
  the client as authenticated.\<close>
theorem handshake_authenticates:
  assumes "signs (ev_rsa ev2) pem sign" "ID_RE cid" "PEM_RE (strip pem)"
    and "register_request cid pem = Inr m1" "message_ok m1"
    and "dict_get (sv_conns s) w = Some cn" "\<not> cn_registered cn" "\<not> cn_authenticated cn"
    and "int (length (sv_writers s)) < sv_max_clients s" "\<not> is_banned (sv_registry s) cid" "length (ev_nonce ev1) = 32"
    and "server_step s (Receive ev1 w (wire_of m1)) = (os1, s1)"
    and "dict_get (sv_conns t) w = dict_get (sv_conns s1) w"
      "dict_get (auth_pending (sv_auth t)) cid = dict_get (auth_pending (sv_auth s1)) cid"
      "auth_ttl (sv_auth t) = auth_ttl (sv_auth s1)" "registry_get (sv_registry t) cid = registry_get (sv_registry s1) cid"
    and "ev_now ev2 - ev_now ev1 \<le> auth_ttl (sv_auth s)"
    and "\<forall>(v, m) \<in> set (announce_peer_online cid t). deliverable m"
  shows "\<exists>challenge m2 os2 t' cn'. os1 = [(w, challenge)]
    \<and> auth_request sign (challenge_received (register_started c cid pem) challenge) = Inr (Inr m2)
    \<and> server_step t (Receive ev2 w (wire_of m2)) = (os2, t')
    \<and> (w, accepted_message) \<in> set os2 \<and> reply_outcome ''AUTH_OK'' accepted_message = Some (Inr accepted_message)
    \<and> dict_get (sv_conns t') w = Some cn' \<and> cn_authenticated cn' \<and> cn_client_id cn' = Some cid
    \<and> dict_get (sv_authenticated t') cid = Some True"
proof -
  note reg = register_step [OF assms(2-12)]
  let ?m2 = "response_message (sign (ev_nonce ev1)) (hexlify (ev_nonce ev1))"
  obtain os2 t' where st: "server_step t (Receive ev2 w (wire_of ?m2)) = (os2, t')"
    by (cases "server_step t (Receive ev2 w (wire_of ?m2))")
  have req: "auth_request sign (challenge_received (register_started c cid pem) (challenge_message cid (ev_nonce ev1))) = Inr (Inr ?m2)"
    by (simp add: auth_request_def challenge_received_def challenge_message_def response_made del: unhexlify.simps)
  obtain r where r: "registry_get (sv_registry t) cid = Some r" "public_key_pem r = pem" using reg assms(16) by auto
  have conn: "dict_get (sv_conns t) w = Some (cn\<lparr>cn_client_id := Some cid, cn_registered := True\<rparr>)"
    using reg assms(13) by simp
  have pend: "dict_get (auth_pending (sv_auth t)) cid
      = Some \<lparr>pa_client_id = cid, pa_challenge = ev_nonce ev1, pa_created_at = ev_now ev1, pa_attempts = 0\<rparr>"
    using reg assms(14) by simp
  have "(w, accepted_message) \<in> set os2
      \<and> dict_get (sv_conns t') w = Some (cn\<lparr>cn_client_id := Some cid, cn_registered := True\<rparr>\<lparr>cn_authenticated := True\<rparr>)
      \<and> dict_get (sv_authenticated t') cid = Some True"
    by (rule answer_step [OF assms(1,11) conn _ _ _ pend _ _ r assms(18) st]) (use reg assms(8,15,17) in simp_all)
  moreover have "reply_outcome ''AUTH_OK'' accepted_message = Some (Inr accepted_message)"
    by (simp add: reply_outcome_def accepted_message_def)
  ultimately show ?thesis using reg req st by auto
qed

section \<open>Witness\<close>

definition demo_pem :: string where "demo_pem = ''-----BEGIN PUBLIC KEY-----''"

definition fresh_server :: server where
  "fresh_server = (server_init 10 90 60 5)\<lparr>sv_conns := [(1, \<lparr>cn_peer = (''10.0.0.1'', 4000), cn_client_id = None,
     cn_registered = False, cn_authenticated = False\<rparr>)]\<rparr>"

lemma demo_signs: "signs echo_rsa demo_pem (take 1)"
  by (auto simp: signs_def echo_rsa_def)

lemma demo_register_ok:
  "\<exists>m. register_request ''client-01'' demo_pem = Inr m \<and> message_ok m"
  by (simp add: register_message message_ok_def demo_pem_def text_ok_ascii message_body_def model_defs dump_str_def escape_char_def)

theorem handshake_authenticates_witness:
  "\<exists>m1 m2 cn. register_request ''client-01'' demo_pem = Inr m1
     \<and> dict_get (sv_conns (snd (server_step (snd (server_step fresh_server (Receive demo_env 1 (wire_of m1))))
         (Receive demo_env 1 (wire_of m2))))) 1 = Some cn \<and> cn_authenticated cn"
proof -
  obtain m where m: "register_request ''client-01'' demo_pem = Inr m" "message_ok m" using demo_register_ok by blast
  obtain os1 s1 where st: "server_step fresh_server (Receive demo_env 1 (wire_of m)) = (os1, s1)"
    by (cases "server_step fresh_server (Receive demo_env 1 (wire_of m))")
  have env: "ev_rsa demo_env = echo_rsa" "ev_now demo_env = 20" "ev_nonce demo_env = auth_demo_nonce"
    by (simp_all add: demo_env_def)
  have srv: "dict_get (sv_conns fresh_server) 1 = Some \<lparr>cn_peer = (''10.0.0.1'', 4000), cn_client_id = None,
      cn_registered = False, cn_authenticated = False\<rparr>" "sv_writers fresh_server = []" "sv_max_clients fresh_server = 10"
    "auth_ttl (sv_auth fresh_server) = 60" "sv_registry fresh_server = []"
    by (simp_all add: fresh_server_def server_init_def auth_init_def nm_init_def registry_init_def)
  have ids: "ID_RE ''client-01''" "PEM_RE (strip demo_pem)" by (code_simp, code_simp)
  have w1: "sv_writers s1 = dict_set ''client-01'' 1 (sv_writers fresh_server)"
    using register_step [OF ids m srv(1) _ _ _ _ _ st] by (simp add: srv env is_banned_def registry_get_def auth_demo_nonce_def)
  have ann: "announce_peer_online ''client-01'' s1 = []"
    using w1 by (auto simp: announce_peer_online_def member_writers_def List.map_filter_def srv(2))
  have "\<exists>challenge m2 os2 t' cn'. os1 = [(1, challenge)]
    \<and> auth_request (take 1) (challenge_received (register_started undefined ''client-01'' demo_pem) challenge) = Inr (Inr m2)
    \<and> server_step s1 (Receive demo_env 1 (wire_of m2)) = (os2, t')
    \<and> (1, accepted_message) \<in> set os2 \<and> reply_outcome ''AUTH_OK'' accepted_message = Some (Inr accepted_message)
    \<and> dict_get (sv_conns t') 1 = Some cn' \<and> cn_authenticated cn' \<and> cn_client_id cn' = Some ''client-01''
    \<and> dict_get (sv_authenticated t') ''client-01'' = Some True"
    by (rule handshake_authenticates [OF demo_signs [folded env(1)] ids m srv(1) _ _ _ _ _ st refl refl refl refl])
      (simp_all add: srv env is_banned_def registry_get_def auth_demo_nonce_def ann)
  then show ?thesis using m(1) st by (metis snd_conv)
qed

end
