(* ===== verification/Http.thy ===== *)
theory Http
  imports Text Balancer
begin

text \<open>
  The HTTP engine of the reverse proxy (\<^verbatim>\<open>proxy/connection.py\<close>): the incremental request
  parser, chunked transfer encoding, routing by longest prefix, the headers sent upstream, the
  response of the upstream and what is written to the client, with the gzip decision of
  \<^verbatim>\<open>proxy/compression.py\<close>.  A stream reader is the list of bytes still to come before the end of
  the stream; expired timeouts are the caller's.  \<^verbatim>\<open>zlib\<close> is an argument.  Case conversion and
  stripping act on ASCII characters only.  The request parser does not end on every input, so its
  chunk loop is a partial function: \<^verbatim>\<open>None\<close> is a call that never returns.
\<close>

section \<open>Requests and responses\<close>

record http_request =
  rq_method :: string
  rq_path :: string
  rq_version :: string
  rq_headers :: "(string, string) dict"
  rq_body :: bytes
  rq_client_ip :: string

record http_response =
  rs_status :: int
  rs_reason :: string
  rs_headers :: "(string, string) dict"
  rs_body :: bytes

definition rq_host :: "http_request \<Rightarrow> string" where
  "rq_host r = dict_get_or (rq_headers r) ''host'' []"

definition content_length :: "http_request \<Rightarrow> int" where
  "content_length r = (case py_int (dict_get_or (rq_headers r) ''content-length'' ''0'') of Some n \<Rightarrow> n | None \<Rightarrow> 0)"

definition is_chunked :: "http_request \<Rightarrow> bool" where
  "is_chunked r \<longleftrightarrow> lower (dict_get_or (rq_headers r) ''transfer-encoding'' []) = ''chunked''"

definition is_keepalive :: "http_request \<Rightarrow> bool" where
  "is_keepalive r =
     (let conn = lower (dict_get_or (rq_headers r) ''connection'' []) in
      if rq_version r = ''HTTP/1.0'' then conn = ''keep-alive'' else conn \<noteq> ''close'')"

definition HOP_BY_HOP :: "string list" where
  "HOP_BY_HOP = [''connection'', ''keep-alive'', ''proxy-authenticate'', ''proxy-authorization'', ''te'',
     ''trailer'', ''transfer-encoding'', ''upgrade'']"

definition MAX_HEADER_SIZE :: nat where "MAX_HEADER_SIZE = 16384"

definition crlf :: string where "crlf = [CHR 0x0D, CHR 0x0A]"
definition CRLF :: bytes where "CRLF = [13, 10]"
definition CRLF2 :: bytes where "CRLF2 = [13, 10, 13, 10]"

section \<open>Hexadecimal numbers\<close>

text \<open>\<^verbatim>\<open>int(data, 16)\<close> on bytes: white space around, a sign, an optional \<^verbatim>\<open>0x\<close> prefix and single
  underscores between digits.\<close>

definition is_cspace :: "char \<Rightarrow> bool" where
  "is_cspace c \<longleftrightarrow> (let n = of_char c :: nat in n = 32 \<or> (9 \<le> n \<and> n \<le> 13))"

definition cstrip :: "string \<Rightarrow> string" where
  "cstrip s = rev (dropWhile is_cspace (rev (dropWhile is_cspace s)))"

fun hex_value :: "nat \<Rightarrow> string \<Rightarrow> nat option" where
  "hex_value acc [] = Some acc"
| "hex_value acc (c # s) =
     (case hex_val c of
        Some d \<Rightarrow> hex_value (16 * acc + d) s
      | None \<Rightarrow>
          if c = CHR ''_'' then
            (case s of [] \<Rightarrow> None
             | e # t \<Rightarrow> (case hex_val e of Some d \<Rightarrow> hex_value (16 * acc + d) t | None \<Rightarrow> None))
          else None)"

definition hex_unsigned :: "string \<Rightarrow> nat option" where
  "hex_unsigned s =
     (let t = (if take 2 s = ''0x'' \<or> take 2 s = ''0X''
               then (if take 1 (drop 2 s) = ''_'' then drop 3 s else drop 2 s) else s)
      in if t = [] \<or> hd t = CHR ''_'' then None else hex_value 0 t)"

definition py_int16 :: "bytes \<Rightarrow> int option" where
  "py_int16 bs =
     (case cstrip (decode_raw bs) of
        [] \<Rightarrow> None
      | c # s \<Rightarrow>
          if c = CHR ''-'' then map_option (\<lambda>n. - int n) (hex_unsigned s)
          else if c = CHR ''+'' then map_option int (hex_unsigned s)
          else map_option int (hex_unsigned (c # s)))"

section \<open>The request parser\<close>

definition parse_header_lines :: "string list \<Rightarrow> (string, string) dict" where
  "parse_header_lines lines =
     foldl (\<lambda>h line.
        if CHR '':'' \<notin> set line then h
        else (case partition '':'' line of (k, _, v) \<Rightarrow> dict_set (lower (strip k)) (strip v) h)) [] lines"

text \<open>One iteration of the chunk loop: it returns, or goes on at another position.\<close>

datatype chunk_outcome =
    ChunkReturn "(bytes option \<times> int) result"
  | ChunkNext int bytes

definition chunk_step :: "bytes \<Rightarrow> int \<Rightarrow> bytes \<Rightarrow> chunk_outcome" where
  "chunk_step data pos acc =
     (if \<not> pos < int (length data) then ChunkReturn (Inr (None, 0))
      else
        (let eol = py_find data CRLF pos in
         if eol = -1 then ChunkReturn (Inr (None, 0))
         else
           (case py_int16 (py_slice data pos eol) of
              None \<Rightarrow> ChunkReturn (Inl (ValueError ''invalid chunk size''))
            | Some chunk_size \<Rightarrow>
                (let pos = eol + 2 in
                 if chunk_size = 0 then
                   (let e = py_find data CRLF2 pos in
                    if e = -1 then ChunkReturn (Inr (None, 0)) else ChunkReturn (Inr (Some acc, e + 4)))
                 else if pos + chunk_size + 2 > int (length data) then ChunkReturn (Inr (None, 0))
                 else ChunkNext (pos + chunk_size + 2) (acc @ py_slice data pos (pos + chunk_size))))))"

partial_function (option) chunk_loop :: "bytes \<Rightarrow> int \<Rightarrow> bytes \<Rightarrow> (bytes option \<times> int) result option" where
  "chunk_loop data pos acc =
     (case chunk_step data pos acc of ChunkReturn r \<Rightarrow> Some r | ChunkNext p a \<Rightarrow> chunk_loop data p a)"

definition parse_chunked :: "bytes \<Rightarrow> (bytes option \<times> int) result option" where
  "parse_chunked data = chunk_loop data 0 []"

text \<open>\<open>Some (Inr (None, buffer))\<close> is an incomplete request.\<close>

definition try_parse :: "bytes \<Rightarrow> (http_request option \<times> bytes) result option" where
  "try_parse buffer =
     (case find_sub CRLF2 buffer of
        None \<Rightarrow>
          if length buffer > MAX_HEADER_SIZE then Some (Inl (ValueError ''request headers too large''))
          else Some (Inr (None, buffer))
      | Some idx \<Rightarrow>
          (let lines = split_on crlf (utf8_replace (take idx buffer));
               parts = split_max '' '' 2 (hd lines)
           in if length parts < 2 then Some (Inl (ValueError (''invalid request line: '' @ hd lines)))
              else
                (let request = \<lparr>rq_method = upper (parts ! 0), rq_path = parts ! 1,
                       rq_version = (if length parts > 2 then parts ! 2 else ''HTTP/1.1''),
                       rq_headers = parse_header_lines (tl lines), rq_body = [], rq_client_ip = ''127.0.0.1''\<rparr>;
                     rest = drop (idx + 4) buffer
                 in if is_chunked request then
                      (case parse_chunked rest of
                         None \<Rightarrow> None
                       | Some (Inl e) \<Rightarrow> Some (Inl e)
                       | Some (Inr (None, _)) \<Rightarrow> Some (Inr (None, buffer))
                       | Some (Inr (Some body, consumed)) \<Rightarrow>
                           Some (Inr (Some (request\<lparr>rq_body := body\<rparr>), drop (nat consumed) rest)))
                    else if content_length request > 0 then
                      (if int (length rest) < content_length request then Some (Inr (None, buffer))
                       else Some (Inr (Some (request\<lparr>rq_body := take (nat (content_length request)) rest\<rparr>),
                                       drop (nat (content_length request)) rest)))
                    else Some (Inr (Some request, [])))))"

definition feed :: "bytes \<Rightarrow> bytes \<Rightarrow> (http_request option \<times> bytes) result option" where
  "feed buffer data = try_parse (buffer @ data)"

text \<open>The data of the successive reads; an empty read is the end of the stream, and no further read
  an expired timeout.\<close>

fun read_request :: "string \<Rightarrow> bytes \<Rightarrow> bytes list \<Rightarrow> (http_request option \<times> bytes \<times> bytes list) result option" where
  "read_request client_ip buffer [] = Some (Inr (None, buffer, []))"
| "read_request client_ip buffer (data # reads) =
     (if data = [] then Some (Inr (None, buffer, reads))
      else
        (case feed buffer data of
           None \<Rightarrow> None
         | Some (Inl e) \<Rightarrow> Some (Inl e)
         | Some (Inr (None, buffer')) \<Rightarrow> read_request client_ip buffer' reads
         | Some (Inr (Some request, buffer')) \<Rightarrow>
             Some (Inr (Some (request\<lparr>rq_client_ip := client_ip\<rparr>), buffer', reads))))"

section \<open>Routing\<close>

record location_block =
  loc_path :: string
  loc_upstream :: string
  loc_root :: string
  loc_ssl :: bool
  loc_cache :: bool
  loc_cache_ttl :: int
  loc_compress :: bool
  loc_rate_limit :: int
  loc_basic_auth :: string
  loc_ws_enabled :: bool
  loc_ws_timeout :: real
  loc_ws_max_message_size :: int
  loc_ws_ping_interval :: real

fun route_step :: "string \<Rightarrow> location_block option \<times> int \<Rightarrow> location_block \<Rightarrow> location_block option \<times> int" where
  "route_step path (best_match, best_len) loc =
     (if starts_with (loc_path loc) path \<and> int (py_len (loc_path loc)) > best_len
      then (Some loc, int (py_len (loc_path loc))) else (best_match, best_len))"

definition match_route :: "location_block list \<Rightarrow> string \<Rightarrow> location_block option" where
  "match_route locations path = fst (foldl (route_step path) (None, -1) locations)"

section \<open>Forwarding to the upstream\<close>

definition forward_headers :: "http_request \<Rightarrow> upstream_server \<Rightarrow> (string, string) dict" where
  "forward_headers request server =
     (let h1 = dict_set ''host'' (us_host server @ '':'' @ str_int (us_port server)) (rq_headers request);
          h2 = dict_set ''x-real-ip'' (rq_client_ip request) h1;
          existing = dict_get_or h2 ''x-forwarded-for'' [];
          h3 = dict_set ''x-forwarded-for''
                 (if existing \<noteq> [] then existing @ '', '' @ rq_client_ip request else rq_client_ip request) h2
      in foldl (\<lambda>h k. dict_del k h) h3 HOP_BY_HOP)"

definition header_block :: "(string, string) dict \<Rightarrow> string" where
  "header_block headers = concat (map (\<lambda>kv. fst kv @ '': '' @ snd kv @ crlf) headers) @ crlf"

definition request_head :: "string \<Rightarrow> string \<Rightarrow> (string, string) dict \<Rightarrow> bytes" where
  "request_head meth path headers = encode (meth @ '' '' @ path @ '' HTTP/1.1'' @ crlf) @ encode (header_block headers)"

definition upstream_request :: "http_request \<Rightarrow> upstream_server \<Rightarrow> bytes" where
  "upstream_request request server =
     request_head (rq_method request) (rq_path request) (forward_headers request server) @ rq_body request"

section \<open>Reading the upstream response\<close>

definition STREAM_LIMIT :: nat where "STREAM_LIMIT = 65536"

definition read_exactly :: "int \<Rightarrow> bytes \<Rightarrow> (bytes \<times> bytes) result" where
  "read_exactly n s =
     (if n < 0 then Inl (ValueError ''readexactly size can not be less than zero'')
      else if int (length s) < n then Inl (OtherError ''IncompleteReadError'' [])
      else Inr (take (nat n) s, drop (nat n) s))"

definition read_until :: "bytes \<Rightarrow> bytes \<Rightarrow> (bytes \<times> bytes) result" where
  "read_until sep s =
     (case find_sub sep s of
        Some k \<Rightarrow> if k > STREAM_LIMIT then Inl (OtherError ''LimitOverrunError'' [])
                  else Inr (take (k + length sep) s, drop (k + length sep) s)
      | None \<Rightarrow> Inl (if length s + 1 > STREAM_LIMIT + length sep then OtherError ''LimitOverrunError'' []
                     else OtherError ''IncompleteReadError'' []))"

text \<open>\<^verbatim>\<open>readline\<close> returns what there is when the stream ends.\<close>

definition read_line :: "bytes \<Rightarrow> (bytes \<times> bytes) result" where
  "read_line s =
     (case read_until [10] s of
        Inr r \<Rightarrow> Inr r
      | Inl (OtherError x _) \<Rightarrow>
          if x = ''IncompleteReadError'' then Inr (s, []) else Inl (ValueError ''line longer than the limit'')
      | Inl e \<Rightarrow> Inl e)"

lemma py_int16_Nil [simp]: "py_int16 [] = None"
  by (simp add: py_int16_def cstrip_def decode_raw_def)

lemma read_exactly_shorter: "read_exactly n s = Inr (a, r) \<Longrightarrow> length r \<le> length s"
  by (auto simp: read_exactly_def split: if_splits)

lemma read_line_shorter: "read_line s = Inr (a, r) \<Longrightarrow> a \<noteq> [] \<Longrightarrow> length r < length s"
  by (auto simp: read_line_def read_until_def split: option.splits if_splits dest!: find_sub_bound)

function read_chunked_body :: "bytes \<Rightarrow> bytes \<Rightarrow> (bytes \<times> bytes) result" where
  "read_chunked_body acc s =
     (case read_line s of
        Inl e \<Rightarrow> Inl e
      | Inr (line, s1) \<Rightarrow>
          (case py_int16 line of
             None \<Rightarrow> Inr (acc, s1)
           | Some chunk_size \<Rightarrow>
               if chunk_size = 0 then (case read_line s1 of Inl e \<Rightarrow> Inl e | Inr (_, s2) \<Rightarrow> Inr (acc, s2))
               else
                 (case read_exactly (chunk_size + 2) s1 of
                    Inl e \<Rightarrow> Inl e
                  | Inr (chunk, s2) \<Rightarrow> read_chunked_body (acc @ py_slice chunk 0 (-2)) s2)))"
  by pat_completeness auto
termination
proof (relation "measure (\<lambda>(acc, s). length s)")
  fix acc s r line s1 chunk_size q chunk s2
  assume "read_line s = Inr r" "(line, s1) = r" "py_int16 line = Some chunk_size" "chunk_size \<noteq> 0"
    "read_exactly (chunk_size + 2) s1 = Inr q" "(chunk, s2) = q"
  then have "length s1 < length s" "length s2 \<le> length s1"
    by (auto dest: read_line_shorter read_exactly_shorter)
  then show "((acc @ py_slice chunk 0 (-2), s2), acc, s) \<in> measure (\<lambda>(acc, s). length s)" by simp
qed simp

declare read_chunked_body.simps [simp del]

definition read_upstream_response :: "bytes \<Rightarrow> (http_response \<times> bytes) result" where
  "read_upstream_response s =
     (case read_until CRLF2 s of
        Inl e \<Rightarrow> Inl e
      | Inr (data, s1) \<Rightarrow>
          (let lines = split_on crlf (utf8_replace data);
               parts = split_max '' '' 2 (hd lines);
               reason = (if length parts > 2 then parts ! 2 else ''OK'');
               headers = parse_header_lines (tl lines)
           in case (if length parts > 1 then py_int (parts ! 1) else Some 200) of
                None \<Rightarrow> Inl (ValueError ''invalid literal for int()'')
              | Some status \<Rightarrow>
                  (case py_int (dict_get_or headers ''content-length'' ''0'') of
                     None \<Rightarrow> Inl (ValueError ''invalid literal for int()'')
                   | Some cl \<Rightarrow>
                       (let body =
                          (if cl > 0 then read_exactly cl s1
                           else if lower (dict_get_or headers ''transfer-encoding'' []) = ''chunked''
                           then read_chunked_body [] s1
                           else Inr ([], s1))
                        in case body of
                             Inl e \<Rightarrow> Inl e
                           | Inr (b, s2) \<Rightarrow>
                               Inr (\<lparr>rs_status = status, rs_reason = reason, rs_headers = headers, rs_body = b\<rparr>, s2)))))"

section \<open>Compression\<close>

record gzip_compressor =
  gz_level :: int
  gz_min_length :: int

definition COMPRESSIBLE_TYPES :: "string list" where
  "COMPRESSIBLE_TYPES = [''text/html'', ''text/css'', ''text/plain'', ''text/xml'', ''text/javascript'',
     ''application/javascript'', ''application/json'', ''application/xml'', ''application/xhtml+xml'', ''image/svg+xml'']"

definition should_compress :: "string \<Rightarrow> string \<Rightarrow> bool" where
  "should_compress content_type accept_encoding =
     (if accept_encoding = [] \<or> \<not> contains ''gzip'' (lower accept_encoding) then False
      else if content_type \<noteq> [] \<and> strip (hd (split_on '';'' content_type)) \<notin> set COMPRESSIBLE_TYPES then False
      else True)"

definition compress :: "(int \<Rightarrow> bytes \<Rightarrow> bytes) \<Rightarrow> gzip_compressor \<Rightarrow> bytes \<Rightarrow> bytes" where
  "compress gzip c data = (if int (length data) < gz_min_length c then data else gzip (gz_level c) data)"

definition compress_response :: "(int \<Rightarrow> bytes \<Rightarrow> bytes) \<Rightarrow> gzip_compressor option \<Rightarrow> location_block \<Rightarrow> http_request
    \<Rightarrow> http_response \<Rightarrow> http_response" where
  "compress_response gzip compressor location request response =
     (case compressor of
        None \<Rightarrow> response
      | Some c \<Rightarrow>
          if loc_compress location
             \<and> should_compress (dict_get_or (rs_headers response) ''content-type'' [])
                 (dict_get_or (rq_headers request) ''accept-encoding'' [])
          then
            (let compressed = compress gzip c (rs_body response) in
             if length compressed < length (rs_body response)
             then response\<lparr>rs_body := compressed,
                           rs_headers := dict_set ''content-length'' (str_int (int (length compressed)))
                             (dict_set ''content-encoding'' ''gzip'' (rs_headers response))\<rparr>
             else response)
          else response)"

section \<open>Answering the client\<close>

definition default_header :: "string \<Rightarrow> string \<Rightarrow> (string, string) dict \<Rightarrow> (string, string) dict" where
  "default_header k v h = (if dict_has h k then h else dict_set k v h)"

definition response_headers :: "http_response \<Rightarrow> (string, string) dict" where
  "response_headers r =
     default_header ''connection'' ''keep-alive''
       (default_header ''server'' ''LocalNetworkProxy/0.1.0''
         (default_header ''content-length'' (str_int (int (length (rs_body r)))) (rs_headers r)))"

definition send_response :: "http_response \<Rightarrow> bytes" where
  "send_response r =
     encode (''HTTP/1.1 '' @ str_int (rs_status r) @ '' '' @ rs_reason r @ crlf)
       @ encode (header_block (response_headers r)) @ rs_body r"

definition error_response :: "int \<Rightarrow> string \<Rightarrow> http_response" where
  "error_response status text =
     \<lparr>rs_status = status, rs_reason = text,
      rs_headers = [(''content-type'', ''text/html''), (''connection'', ''close'')],
      rs_body = encode (''<html><body><h1>'' @ str_int status @ '' '' @ text
        @ ''</h1><hr><em>LocalNetwork Proxy</em></body></html>'')\<rparr>"

section \<open>The chunk loop\<close>

text \<open>The positions at which the loop looks for a size line, and the size it reads there.\<close>

inductive chunk_reaches :: "bytes \<Rightarrow> int \<Rightarrow> bool" for data where
  reach_start: "chunk_reaches data 0"
| reach_next: "chunk_reaches data pos \<Longrightarrow> chunk_step data pos acc = ChunkNext p a \<Longrightarrow> chunk_reaches data p"

definition chunk_size_at :: "bytes \<Rightarrow> int \<Rightarrow> int option" where
  "chunk_size_at data pos =
     (let eol = py_find data CRLF pos in
      if pos < int (length data) \<and> eol \<noteq> -1 then py_int16 (py_slice data pos eol) else None)"

lemma chunk_next_size:
  assumes "chunk_step data pos acc = ChunkNext p a"
  shows "\<exists>n. chunk_size_at data pos = Some n
    \<and> (0 \<le> pos \<longrightarrow> 0 \<le> n \<longrightarrow> pos < p \<and> p \<le> int (length data))"
proof -
  obtain n where n: "pos < int (length data)" "py_find data CRLF pos \<noteq> -1"
      "py_int16 (py_slice data pos (py_find data CRLF pos)) = Some n"
      "p = py_find data CRLF pos + 2 + n + 2" "p \<le> int (length data)"
    using assms by (auto simp: chunk_step_def Let_def split: if_splits option.splits)
  have "pos \<le> py_find data CRLF pos" if "0 \<le> pos"
    using py_find_bound [OF n(2)] n(1) that by (simp add: py_index_nonneg)
  then show ?thesis using n by (auto simp: chunk_size_at_def Let_def)
qed

lemma chunk_loop_returns:
  assumes "\<forall>pos n. chunk_reaches data pos \<longrightarrow> chunk_size_at data pos = Some n \<longrightarrow> 0 \<le> n"
    and "chunk_reaches data pos" and "0 \<le> pos"
  shows "\<exists>r. chunk_loop data pos acc = Some r"
  using assms(2,3)
proof (induction "nat (int (length data) - pos)" arbitrary: pos acc rule: less_induct)
  case less
  show ?case
  proof (cases "chunk_step data pos acc")
    case (ChunkReturn r)
    then show ?thesis by (simp add: chunk_loop.simps [of data pos acc])
  next
    case (ChunkNext p a)
    then have p: "pos < p" "p \<le> int (length data)" using chunk_next_size assms(1) less.prems by blast+
    then have "\<exists>r. chunk_loop data p a = Some r"
      using less.hyps [of p a] less.prems reach_next [OF less.prems(1) ChunkNext] by auto
    then show ?thesis using ChunkNext by (simp add: chunk_loop.simps [of data pos acc])
  qed
qed

text \<open>The body of a negative size steps the position back, and the loop can go round forever.\<close>

lemma negative_chunk_size_hangs: "parse_chunked (encode ''-6'' @ CRLF) = None"
proof -
  have e: "encode ''-6'' @ CRLF = [45, 54, 13, 10]" by (simp add: encode_def CRLF_def)
  have "py_int16 [45, 54] = Some (-6)" by code_simp
  then have step: "chunk_step [45, 54, 13, 10] 0 acc = ChunkNext 0 acc" for acc
    by (simp add: chunk_step_def py_find_def py_index_def py_slice_def CRLF_def)
  have "d = [45, 54, 13, 10] \<longrightarrow> pos \<noteq> 0" if "chunk_loop d pos acc = Some r" for d pos acc r
    by (rule chunk_loop.raw_induct [OF _ that, where P = "\<lambda>d pos acc r. d = [45, 54, 13, 10] \<longrightarrow> pos \<noteq> 0"])
      (auto simp: step, blast)
  then show ?thesis by (metis e not_None_eq parse_chunked_def)
qed

end
