(* ===== verification/Http_Properties.thy ===== *)
theory Http_Properties
  imports Http
begin

text \<open>
  Properties of the HTTP engine: the chunk parser returns unless a negative size steps it back,
  chunked bodies are read back, a forwarded request parses to what was sent, the headers the
  upstream sees, and routing as longest-prefix matching.
\<close>

section \<open>Hexadecimal sizes\<close>

fun hex_digits :: "nat \<Rightarrow> string" where
  "hex_digits n = (if n < 16 then [hex_digit n] else hex_digits (n div 16) @ [hex_digit (n mod 16)])"

declare hex_digits.simps [simp del]

lemma hex_value_app:
  "hex_value acc s = Some n \<Longrightarrow> list_all (\<lambda>c. hex_val c \<noteq> None) s \<Longrightarrow> hex_value acc (s @ t) = hex_value n t"
  by (induction acc s rule: hex_value.induct) (auto split: option.splits)

lemma hex_digits_all: "list_all (\<lambda>c. hex_val c \<noteq> None) (hex_digits n)"
  by (induction n rule: hex_digits.induct) (subst hex_digits.simps, auto simp: hex_val_hex_digit)

lemma hex_value_digits: "hex_value 0 (hex_digits n) = Some n"
proof (induction n rule: hex_digits.induct)
  case (1 n)
  show ?case
  proof (cases "n < 16")
    case False
    then show ?thesis using 1 hex_value_app [OF _ hex_digits_all, of 0 "n div 16" "n div 16" "[hex_digit (n mod 16)]"]
      by (simp add: hex_digits.simps [of n] hex_val_hex_digit)
  qed (simp add: hex_digits.simps [of n] hex_val_hex_digit)
qed

lemma hex_digit_plain:
  assumes "hex_val c \<noteq> None"
  shows "\<not> is_cspace c" "c \<noteq> CHR ''_''" "c \<noteq> CHR ''-''" "c \<noteq> CHR ''+''" "c \<noteq> CHR ''x''" "c \<noteq> CHR ''X''"
    "c \<noteq> CHR 0x0D" "c \<noteq> CHR 0x0A"
  using assms by (auto simp: hex_val_def is_cspace_def Let_def split: if_splits)

lemmas hex_digits_chars = hex_digit_plain [OF hex_digits_all [unfolded list_all_iff, THEN bspec]]

lemma hex_digits_not_Nil [simp]: "hex_digits n \<noteq> []"
  by (subst hex_digits.simps) simp

lemma cstrip_plain: "list_all (\<lambda>c. \<not> is_cspace c) s \<Longrightarrow> cstrip s = s"
proof -
  assume a: "list_all (\<lambda>c. \<not> is_cspace c) s"
  then have "dropWhile is_cspace s = s" by (cases s) auto
  moreover have "dropWhile is_cspace (rev s) = rev s" using a by (cases s rule: rev_cases) auto
  ultimately show ?thesis by (simp add: cstrip_def)
qed

lemma py_int16_hex: "py_int16 (encode (hex_digits n)) = Some (int n)"
proof -
  have all: "list_all (\<lambda>c. hex_val c \<noteq> None) (hex_digits n)" by (rule hex_digits_all)
  then have "cstrip (hex_digits n) = hex_digits n"
    by (intro cstrip_plain) (auto simp: list_all_iff hex_digit_plain)
  moreover have "take 2 (hex_digits n) \<noteq> ''0x''"
    using in_set_takeD [of "CHR ''x''" 2 "hex_digits n"] hex_digits_chars(5) [of "CHR ''x''" n] by auto
  moreover have "take 2 (hex_digits n) \<noteq> ''0X''"
    using in_set_takeD [of "CHR ''X''" 2 "hex_digits n"] hex_digits_chars(6) [of "CHR ''X''" n] by auto
  moreover obtain c t where "hex_digits n = c # t" "hex_val c \<noteq> None" using all by (cases "hex_digits n") auto
  ultimately show ?thesis
    using hex_value_digits [of n] hex_digit_plain by (auto simp: py_int16_def hex_unsigned_def)
qed

section \<open>Chunked bodies\<close>

text \<open>The wire format of RFC 9112: chunks, then the last chunk, the trailer section and an empty line.\<close>

definition chunk_wire :: "bytes \<Rightarrow> bytes" where
  "chunk_wire c = encode (hex_digits (length c)) @ CRLF @ c @ CRLF"

lemma find_at:
  assumes "clean sub xs" "sub \<noteq> []"
  shows "py_find (pre @ xs @ sub @ ys) sub (int (length pre)) = int (length pre) + int (length xs)"
  using find_sub_clean [OF assms, of ys] by (simp add: py_find_def py_index_def Let_def)

lemma slice_at: "py_slice (pre @ xs @ ys) (int (length pre)) (int (length pre) + int (length xs)) = xs"
  by (rule py_slice_mid)

lemma mem_encode: "b \<in> set (encode s) \<longleftrightarrow> char_of (unat b) \<in> set s"
proof
  assume "b \<in> set (encode s)"
  then show "char_of (unat b) \<in> set s" by (auto simp: encode_def)
next
  assume "char_of (unat b) \<in> set s"
  moreover have "b = word_of_nat (of_char (char_of (unat b) :: char))" by (simp add: of_char_of)
  ultimately show "b \<in> set (encode s)" unfolding encode_def set_map by blast
qed

lemma char_13: "char_of (13 :: nat) = CHR 0x0D"
  by code_simp

lemma char_10: "char_of (10 :: nat) = CHR 0x0A"
  by code_simp

lemma clean_hex: "clean CRLF (encode (hex_digits n))"
proof (rule clean_no_first)
  show "13 \<notin> set (encode (hex_digits n))"
    using hex_digits_chars(7) [of "CHR 0x0D" n] char_13 by (auto simp: mem_encode)
qed (simp add: CRLF_def)

lemma chunk_step_wire:
  assumes "c \<noteq> []"
  shows "chunk_step (pre @ chunk_wire c @ ys) (int (length pre)) acc
    = ChunkNext (int (length (pre @ chunk_wire c))) (acc @ c)"
proof -
  let ?h = "encode (hex_digits (length c))" and ?d = "pre @ chunk_wire c @ ys"
  have eol: "py_find ?d CRLF (int (length pre)) = int (length pre) + int (length ?h)"
    using find_at [OF clean_hex, of pre "length c" "c @ CRLF @ ys"] by (simp add: chunk_wire_def CRLF_def)
  have size: "py_int16 (py_slice ?d (int (length pre)) (int (length pre) + int (length ?h))) = Some (int (length c))"
    using slice_at [of pre ?h "CRLF @ c @ CRLF @ ys"] by (simp add: chunk_wire_def py_int16_hex)
  have body: "py_slice ?d (int (length (pre @ ?h @ CRLF))) (int (length (pre @ ?h @ CRLF)) + int (length c)) = c"
    using slice_at [of "pre @ ?h @ CRLF" c "CRLF @ ys"] by (simp add: chunk_wire_def)
  show ?thesis using assms eol size body
    by (simp add: chunk_step_def chunk_wire_def CRLF_def Let_def algebra_simps)
qed

lemma chunk_loop_wire:
  "list_all (\<lambda>c. c \<noteq> []) cs \<Longrightarrow>
   chunk_loop (pre @ concat (map chunk_wire cs) @ ys) (int (length pre)) acc
    = chunk_loop (pre @ concat (map chunk_wire cs) @ ys) (int (length (pre @ concat (map chunk_wire cs)))) (acc @ concat cs)"
proof (induction cs arbitrary: pre acc)
  case (Cons c cs)
  have "chunk_loop (pre @ concat (map chunk_wire (c # cs)) @ ys) (int (length pre)) acc
      = chunk_loop ((pre @ chunk_wire c) @ concat (map chunk_wire cs) @ ys) (int (length (pre @ chunk_wire c))) (acc @ c)"
    using Cons.prems chunk_step_wire [of c pre "concat (map chunk_wire cs) @ ys" acc]
    by (subst chunk_loop.simps) simp
  then show ?case using Cons.IH [of "pre @ chunk_wire c" "acc @ c"] Cons.prems by simp
qed simp

lemma chunk_step_last:
  "chunk_step (pre @ encode ''0'' @ CRLF @ ys) (int (length pre)) acc
    = (case find_sub CRLF2 ys of None \<Rightarrow> ChunkReturn (Inr (None, 0))
       | Some k \<Rightarrow> ChunkReturn (Inr (Some acc, int (length (pre @ encode ''0'' @ CRLF)) + int k + 4)))"
proof -
  let ?d = "pre @ encode ''0'' @ CRLF @ ys"
  have h: "hex_digits 0 = ''0''" by code_simp
  have eol: "py_find ?d CRLF (int (length pre)) = int (length pre) + 1"
    using find_at [OF clean_hex, of pre 0 ys] by (simp add: h CRLF_def)
  have size: "py_int16 (py_slice ?d (int (length pre)) (int (length pre) + 1)) = Some 0"
    using slice_at [of pre "encode ''0''" "CRLF @ ys"] py_int16_hex [of 0] by (simp add: h)
  have e: "py_find ?d CRLF2 (int (length pre) + 1 + 2) = (case find_sub CRLF2 ys of None \<Rightarrow> -1
      | Some k \<Rightarrow> int (length pre) + 3 + int k)"
    by (simp add: py_find_def py_index_def Let_def CRLF_def nat_add_distrib split: option.splits)
  show ?thesis using eol size e
    by (simp add: chunk_step_def Let_def CRLF_def split: option.splits)
qed

text \<open>C26: the chunk parser of requests returns (a result, an error or "incomplete") on all data in
  which it meets no negative chunk size.  Without this condition it need not: see
  \<open>negative_chunk_size_hangs\<close>.\<close>

theorem chunk_parser_returns:
  assumes "\<forall>pos n. chunk_reaches data pos \<longrightarrow> chunk_size_at data pos = Some n \<longrightarrow> 0 \<le> n"
  shows "\<exists>r. parse_chunked data = Some r"
  unfolding parse_chunked_def by (rule chunk_loop_returns [OF assms reach_start]) simp

text \<open>A chunked request body with a trailer section is read back: the parser returns the
  concatenation of the chunks and consumes exactly the bytes of the body, whatever follows.\<close>

lemma chunked_request_body:
  assumes "list_all (\<lambda>c. c \<noteq> []) cs" and "clean CRLF2 trailer"
  shows "parse_chunked (concat (map chunk_wire cs) @ encode ''0'' @ CRLF @ trailer @ CRLF2 @ rest)
    = Some (Inr (Some (concat cs), int (length (concat (map chunk_wire cs) @ encode ''0'' @ CRLF @ trailer @ CRLF2))))"
proof -
  let ?pre = "concat (map chunk_wire cs)" and ?ys = "trailer @ CRLF2 @ rest"
  have "find_sub CRLF2 ?ys = Some (length trailer)"
    by (rule find_sub_clean [OF assms(2)]) (simp add: CRLF2_def)
  then have "chunk_loop (?pre @ encode ''0'' @ CRLF @ ?ys) (int (length ?pre)) (concat cs)
      = Some (Inr (Some (concat cs), int (length (?pre @ encode ''0'' @ CRLF @ trailer @ CRLF2))))"
    by (subst chunk_loop.simps) (simp add: chunk_step_last CRLF2_def)
  then show ?thesis
    using chunk_loop_wire [OF assms(1), of "[]" "encode ''0'' @ CRLF @ ?ys" "[]"] by (simp add: parse_chunked_def)
qed

text \<open>The usual end of a chunked body, without trailer fields, is taken for incomplete data.\<close>

lemma chunked_without_trailer_incomplete:
  assumes "list_all (\<lambda>c. c \<noteq> []) cs"
  shows "parse_chunked (concat (map chunk_wire cs) @ encode ''0'' @ CRLF @ CRLF) = Some (Inr (None, 0))"
proof -
  let ?pre = "concat (map chunk_wire cs)"
  have "find_sub CRLF2 CRLF = None" by code_simp
  then have "chunk_loop (?pre @ encode ''0'' @ CRLF @ CRLF) (int (length ?pre)) (concat cs) = Some (Inr (None, 0))"
    by (subst chunk_loop.simps) (simp add: chunk_step_last)
  then show ?thesis
    using chunk_loop_wire [OF assms, of "[]" "encode ''0'' @ CRLF @ CRLF" "[]"] by (simp add: parse_chunked_def)
qed

lemma read_line_wire:
  assumes "10 \<notin> set xs" "length xs < STREAM_LIMIT"
  shows "read_line (xs @ CRLF @ ys) = Inr (xs @ CRLF, ys)"
proof -
  have "find_sub [10] ((xs @ [13]) @ [10] @ ys) = Some (length (xs @ [13]))"
    by (rule find_sub_clean [OF clean_no_first]) (use assms in auto)
  then show ?thesis using assms(2) by (simp add: read_line_def read_until_def CRLF_def)
qed

lemma length_hex_digits: "n < 16 ^ Suc k \<Longrightarrow> length (hex_digits n) \<le> Suc k"
proof (induction k arbitrary: n)
  case 0
  then show ?case by (simp add: hex_digits.simps)
next
  case (Suc k)
  have "n div 16 < 16 ^ Suc k" using Suc.prems by (simp add: less_mult_imp_div_less mult.commute)
  then show ?case using Suc.IH [of "n div 16"] by (subst hex_digits.simps) auto
qed

lemma py_int16_line: "py_int16 (encode (hex_digits n) @ CRLF) = Some (int n)"
proof -
  have "decode_raw (encode (hex_digits n) @ CRLF) = hex_digits n @ crlf"
    by (simp add: decode_raw_def CRLF_def crlf_def char_13 encode_def comp_def unat_of_nat map_idI) code_simp
  moreover have "dropWhile is_cspace (hex_digits n @ crlf) = hex_digits n @ crlf"
    using hex_digits_chars(1) [of "hd (hex_digits n)" n] by (cases "hex_digits n") auto
  moreover have "is_cspace (CHR 0x0D)" "is_cspace (CHR 0x0A)" by code_simp+
  then have "dropWhile is_cspace (rev (hex_digits n @ crlf)) = dropWhile is_cspace (rev (hex_digits n))"
    by (simp add: crlf_def)
  ultimately have "cstrip (decode_raw (encode (hex_digits n) @ CRLF)) = cstrip (hex_digits n)"
    using hex_digits_chars(1) [of "hd (hex_digits n)" n] by (cases "hex_digits n") (auto simp: cstrip_def)
  then show ?thesis using py_int16_hex [of n] by (simp add: py_int16_def)
qed

lemma read_chunk:
  assumes "c \<noteq> []" and "length c < 16 ^ 16"
  shows "read_chunked_body acc (chunk_wire c @ ys) = read_chunked_body (acc @ c) ys"
proof -
  let ?h = "encode (hex_digits (length c))"
  have lf: "10 \<notin> set ?h"
    using hex_digits_chars(8) [of "CHR 0x0A" "length c"] char_10 by (auto simp: mem_encode)
  have "length ?h < STREAM_LIMIT"
    using length_hex_digits [of "length c" 15] assms(2) by (simp add: STREAM_LIMIT_def)
  then have line: "read_line (chunk_wire c @ ys) = Inr (?h @ CRLF, c @ CRLF @ ys)"
    using read_line_wire [OF lf, of "c @ CRLF @ ys"] by (simp add: chunk_wire_def)
  have "read_exactly (int (length c) + 2) (c @ CRLF @ ys) = Inr (c @ CRLF, ys)"
    by (simp add: read_exactly_def CRLF_def nat_add_distrib)
  moreover have "py_slice (c @ CRLF) 0 (-2) = c" by (simp add: py_slice_def py_index_def CRLF_def)
  ultimately show ?thesis
    using line assms(1) by (subst read_chunked_body.simps) (simp add: py_int16_line)
qed

text \<open>A chunked response body is read back: for every sequence of non-empty chunks the reader
  returns their concatenation and leaves exactly what follows the body on the stream.\<close>

lemma chunked_response_body:
  assumes "list_all (\<lambda>c. c \<noteq> [] \<and> length c < 16 ^ 16) cs"
  shows "read_chunked_body acc (concat (map chunk_wire cs) @ encode ''0'' @ CRLF @ CRLF @ rest)
    = Inr (acc @ concat cs, rest)"
  using assms
proof (induction cs arbitrary: acc)
  case Nil
  have h: "encode ''0'' = encode (hex_digits 0)" by code_simp
  have "read_line (encode ''0'' @ CRLF @ CRLF @ rest) = Inr (encode ''0'' @ CRLF, CRLF @ rest)"
    by (rule read_line_wire) (simp_all add: STREAM_LIMIT_def mem_encode char_10)
  moreover have "read_line (CRLF @ rest) = Inr (CRLF, rest)"
    using read_line_wire [of "[]" rest] by (simp add: STREAM_LIMIT_def)
  ultimately show ?case by (subst read_chunked_body.simps) (simp add: h py_int16_line)
qed (simp add: read_chunk)

section \<open>What the upstream sees\<close>

lemma dict_get_dels: "dict_get (foldl (\<lambda>h k. dict_del k h) d ks) k = (if k \<in> set ks then None else dict_get d k)"
  by (induction ks arbitrary: d) auto


text \<open>A chunked request is forwarded with its body and without any header that delimits it.\<close>

lemma chunked_forwarded_unframed:
  assumes "is_chunked r" and "dict_get (rq_headers r) ''content-length'' = None" and "rq_body r \<noteq> []"
  shows "\<exists>head. upstream_request r s = head @ rq_body r
    \<and> dict_get (forward_headers r s) ''transfer-encoding'' = None
    \<and> dict_get (forward_headers r s) ''content-length'' = None"
proof -
  have h: "''transfer-encoding'' \<in> set HOP_BY_HOP" by code_simp
  then have "dict_get (forward_headers r s) ''transfer-encoding'' = None"
    by (simp add: forward_headers_def Let_def dict_get_dels)
  moreover have "dict_get (forward_headers r s) ''content-length'' = None"
    using assms(2) by (simp add: forward_headers_def Let_def dict_get_dels)
  ultimately show ?thesis by (auto simp: upstream_request_def)
qed

text \<open>A chunked response reaches the client as a plain body whose headers still announce chunks.\<close>

lemma default_header_get:
  "dict_get (default_header k v h) k' = (if k' = k \<and> dict_get h k = None then Some v else dict_get h k')"
  by (auto simp: default_header_def dict_has_def)

lemma chunked_response_mislabelled:
  assumes "dict_get (rs_headers r) ''transfer-encoding'' = Some ''chunked''"
    and "dict_get (rs_headers r) ''content-length'' = None"
  shows "dict_get (response_headers r) ''transfer-encoding'' = Some ''chunked''
    \<and> dict_get (response_headers r) ''content-length'' = Some (str_int (int (length (rs_body r))))
    \<and> send_response r = encode (''HTTP/1.1 '' @ str_int (rs_status r) @ '' '' @ rs_reason r @ crlf)
       @ encode (header_block (response_headers r)) @ rs_body r"
  using assms by (simp add: response_headers_def default_header_get send_response_def)

section \<open>Routing\<close>

text \<open>Longest-prefix matching: the first of the locations whose path is a prefix of the request path
  and at least as long as every other such path.\<close>

definition longest_prefix :: "location_block list \<Rightarrow> string \<Rightarrow> location_block option" where
  "longest_prefix locations path =
     (let fitting = filter (\<lambda>l. starts_with (loc_path l) path) locations in
      find (\<lambda>l. \<forall>l' \<in> set fitting. py_len (loc_path l') \<le> py_len (loc_path l)) fitting)"

lemma find_app: "find P (xs @ ys) = (case find P xs of Some x \<Rightarrow> Some x | None \<Rightarrow> find P ys)"
  by (induction xs) auto

lemma longest_exists:
  fixes f :: "'a \<Rightarrow> nat"
  assumes "a \<in> set xs"
  shows "\<exists>x \<in> set xs. \<forall>y \<in> set xs. f y \<le> f x"
proof -
  have "Max (f ` set xs) \<in> f ` set xs" using assms by (intro Max_in) auto
  then obtain x where "x \<in> set xs" "f x = Max (f ` set xs)" by auto
  then show ?thesis by (intro bexI [of _ x]) auto
qed

lemma longest_prefix_snoc:
  "longest_prefix (locs @ [l]) path =
     (if starts_with (loc_path l) path \<and> (\<forall>l' \<in> set locs. starts_with (loc_path l') path \<longrightarrow> py_len (loc_path l') < py_len (loc_path l))
      then Some l else longest_prefix locs path)"
proof -
  let ?f = "filter (\<lambda>l. starts_with (loc_path l) path)"
  show ?thesis
  proof (cases "starts_with (loc_path l) path")
    case True
    show ?thesis
    proof (cases "\<forall>l' \<in> set locs. starts_with (loc_path l') path \<longrightarrow> py_len (loc_path l') < py_len (loc_path l)")
      case longest: True
      then have "find (\<lambda>x. \<forall>l' \<in> set (?f (locs @ [l])). py_len (loc_path l') \<le> py_len (loc_path x)) (?f locs) = None"
        using True by (auto simp: find_None_iff not_le)
      then show ?thesis using True longest by (auto simp: longest_prefix_def Let_def find_app less_imp_le)
    next
      case False
      then obtain l' where l': "l' \<in> set (?f locs)" "py_len (loc_path l) \<le> py_len (loc_path l')" by (auto simp: not_less)
      then have "(\<forall>y \<in> set (?f (locs @ [l])). py_len (loc_path y) \<le> py_len (loc_path x))
          \<longleftrightarrow> (\<forall>y \<in> set (?f locs). py_len (loc_path y) \<le> py_len (loc_path x))" for x
        by (auto intro: le_trans)
      moreover have "\<exists>x \<in> set (?f locs). \<forall>y \<in> set (?f locs). py_len (loc_path y) \<le> py_len (loc_path x)"
        by (rule longest_exists [OF l'(1)])
      then have "find (\<lambda>x. \<forall>y \<in> set (?f locs). py_len (loc_path y) \<le> py_len (loc_path x)) (?f locs) \<noteq> None"
        unfolding find_None_iff by blast
      ultimately show ?thesis using True False
        by (auto simp: longest_prefix_def Let_def find_app simp del: set_filter split: option.splits)
    qed
  qed (simp add: longest_prefix_def)
qed

lemma route_loop:
  "foldl (route_step path) (None, -1) locs = (b, n) \<Longrightarrow>
     b = longest_prefix locs path
     \<and> (\<forall>l \<in> set locs. starts_with (loc_path l) path \<longrightarrow> int (py_len (loc_path l)) \<le> n)
     \<and> (n = -1 \<or> (\<exists>l \<in> set locs. starts_with (loc_path l) path \<and> int (py_len (loc_path l)) = n))"
proof (induction locs arbitrary: b n rule: rev_induct)
  case (snoc l locs)
  obtain c m where cm: "foldl (route_step path) (None, -1) locs = (c, m)" by fastforce
  note IH = snoc.IH [OF cm]
  have up: "m < int (py_len (loc_path l))
      \<longleftrightarrow> (\<forall>l' \<in> set locs. starts_with (loc_path l') path \<longrightarrow> py_len (loc_path l') < py_len (loc_path l))"
  proof
    assume "m < int (py_len (loc_path l))"
    then show "\<forall>l' \<in> set locs. starts_with (loc_path l') path \<longrightarrow> py_len (loc_path l') < py_len (loc_path l)"
      using IH by force
  next
    assume "\<forall>l' \<in> set locs. starts_with (loc_path l') path \<longrightarrow> py_len (loc_path l') < py_len (loc_path l)"
    then show "m < int (py_len (loc_path l))" using IH by force
  qed
  show ?case
  proof (cases "starts_with (loc_path l) path \<and> m < int (py_len (loc_path l))")
    case True
    then have "b = Some l" "n = int (py_len (loc_path l))" using snoc.prems by (simp_all add: cm)
    moreover have "longest_prefix (locs @ [l]) path = Some l" using True up by (simp add: longest_prefix_snoc)
    ultimately show ?thesis using True IH by force
  next
    case False
    then have "b = c" "n = m" using snoc.prems by (auto simp: cm)
    moreover have "longest_prefix (locs @ [l]) path = longest_prefix locs path"
      using False up by (auto simp: longest_prefix_snoc)
    ultimately show ?thesis using False IH by force
  qed
qed (simp add: longest_prefix_def)

text \<open>C25: routing is longest-prefix matching: the loop of \<open>match_route\<close> with its running best
  computes the specification, the first location among those of greatest length.\<close>

theorem match_route_longest_prefix: "match_route locations path = longest_prefix locations path"
  using route_loop [of path locations, OF prod.collapse [symmetric]] by (simp add: match_route_def)

section \<open>Requests read back\<close>

lemma cut_clean: "clean sep xs \<Longrightarrow> sep \<noteq> [] \<Longrightarrow> cut sep (xs @ sep @ ys) = Some (xs, ys)"
proof (induction xs)
  case Nil
  then show ?case by (simp add: cut.simps starts_with_def)
next
  case (Cons x xs)
  have "take (length sep) (x # xs @ sep @ ys) = take (length sep) (x # xs @ sep)"
    by (simp add: take_Cons split: nat.splits)
  then show ?case using Cons by (subst cut.simps) (simp add: clean_Cons starts_with_def del: take_Cons)
qed

abbreviation no_cr :: "string \<Rightarrow> bool" where
  "no_cr s \<equiv> CHR 0x0D \<notin> set s"

lemma crlf_not_Nil [simp]: "crlf \<noteq> []"
  by (simp add: crlf_def)

lemma cut_no_cr: "no_cr s \<Longrightarrow> cut crlf s = None"
  by (induction s) (auto simp: cut.simps starts_with_def crlf_def)

lemma split_lines: "list_all no_cr ls \<Longrightarrow> ls \<noteq> [] \<Longrightarrow> split_on crlf (join crlf ls) = ls"
proof (induction ls)
  case (Cons l ls)
  show ?case
  proof (cases "ls = []")
    case True
    then show ?thesis using Cons.prems by (subst split_on.simps) (simp add: cut_no_cr)
  next
    case False
    have "cut crlf (l @ crlf @ join crlf ls) = Some (l, join crlf ls)"
      using Cons.prems by (intro cut_clean clean_no_first [where x = "CHR 0x0D"]) (auto simp: crlf_def)
    then show ?thesis using Cons False
      by (subst split_on.simps) (simp add: join_Cons)
  qed
qed simp

lemma find_skip: "13 \<notin> set a \<Longrightarrow> find_sub CRLF2 (a @ z) = map_option (\<lambda>k. length a + k) (find_sub CRLF2 z)"
  by (induction a; cases "find_sub CRLF2 z") (auto simp: CRLF2_def)

lemma find_header_end:
  assumes "list_all (\<lambda>l. l \<noteq> [] \<and> no_cr l) ls" "ls \<noteq> []"
  shows "find_sub CRLF2 (encode (join crlf ls) @ CRLF2 @ ys) = Some (length (join crlf ls))"
  using assms
proof (induction ls)
  case (Cons l ls)
  have l: "13 \<notin> set (encode l)" using Cons.prems by (simp add: mem_encode char_13)
  show ?case
  proof (cases "ls = []")
    case True
    then show ?thesis using find_skip [OF l, of "CRLF2 @ ys"] by (simp add: CRLF2_def)
  next
    case False
    then obtain c t where m: "join crlf ls = c # t" "c \<noteq> CHR 0x0D"
      using Cons.prems by (cases ls; cases "hd ls"; cases "tl ls") auto
    have e: "encode crlf = [13, 10]" by code_simp
    have "13 \<notin> set (encode [c])" using m(2) by (simp add: mem_encode char_13)
    then have "find_sub CRLF2 ([13, 10] @ encode (join crlf ls) @ CRLF2 @ ys)
        = map_option (\<lambda>k. 2 + k) (find_sub CRLF2 (encode (join crlf ls) @ CRLF2 @ ys))"
      unfolding m(1) by (cases "find_sub CRLF2 (encode (c # t) @ CRLF2 @ ys)") (auto simp: CRLF2_def encode_Cons)
    then show ?thesis using Cons.IH Cons.prems False find_skip [OF l]
      by (simp add: join_Cons e) (simp add: crlf_def)
  qed
qed simp

text \<open>Texts that survive printing and parsing: no carriage return and no white space at the ends.\<close>

definition field_ok :: "string \<Rightarrow> bool" where
  "field_ok v \<longleftrightarrow> text_ok v \<and> no_cr v \<and> (v \<noteq> [] \<longrightarrow> \<not> is_space (hd v) \<and> \<not> is_space (last v))"

definition header_ok :: "string \<times> string \<Rightarrow> bool" where
  "header_ok kv \<longleftrightarrow> field_ok (fst kv) \<and> lower (fst kv) = fst kv \<and> CHR '':'' \<notin> set (fst kv) \<and> field_ok (snd kv)"

definition request_ok :: "http_request \<Rightarrow> bool" where
  "request_ok r \<longleftrightarrow> text_ok (rq_method r) \<and> no_cr (rq_method r) \<and> CHR '' '' \<notin> set (rq_method r)
     \<and> upper (rq_method r) = rq_method r
     \<and> text_ok (rq_path r) \<and> no_cr (rq_path r) \<and> CHR '' '' \<notin> set (rq_path r) \<and> rq_version r = ''HTTP/1.1''
     \<and> dict_wf (rq_headers r) \<and> list_all header_ok (rq_headers r)"

lemma strip_id: "v = [] \<or> (\<not> is_space (hd v) \<and> \<not> is_space (last v)) \<Longrightarrow> strip v = v"
proof -
  assume a: "v = [] \<or> (\<not> is_space (hd v) \<and> \<not> is_space (last v))"
  then have "dropWhile is_space v = v" by (cases v) auto
  moreover have "dropWhile is_space (rev v) = rev v" using a by (cases v rule: rev_cases) auto
  ultimately show ?thesis by (simp add: strip_def lstrip_def rstrip_def)
qed

lemma strip_field: "field_ok v \<Longrightarrow> strip v = v" "field_ok v \<Longrightarrow> strip (CHR '' '' # v) = v"
proof -
  assume v: "field_ok v"
  then show s: "strip v = v" by (intro strip_id) (auto simp: field_ok_def)
  have "lstrip (CHR '' '' # v) = lstrip v" by (simp add: lstrip_def is_space_def)
  then show "strip (CHR '' '' # v) = v" using s by (simp add: strip_def)
qed

definition header_line :: "string \<times> string \<Rightarrow> string" where
  "header_line kv = fst kv @ '': '' @ snd kv"

definition request_lines :: "string \<Rightarrow> string \<Rightarrow> (string, string) dict \<Rightarrow> string list" where
  "request_lines m p h = (m @ '' '' @ p @ '' HTTP/1.1'') # map header_line h"

lemma join_lines: "join crlf (l # ls) @ crlf = concat (map (\<lambda>l. l @ crlf) (l # ls))"
  by (induction ls arbitrary: l) (auto simp: join_Cons)

lemma request_head_join: "request_head m p h = encode (join crlf (request_lines m p h)) @ CRLF2"
proof -
  have c: "encode crlf @ encode crlf = CRLF2" by code_simp
  have "request_head m p h = encode ((m @ '' '' @ p @ '' HTTP/1.1'' @ crlf) @ header_block h)"
    by (simp only: request_head_def encode_append)
  also have "(m @ '' '' @ p @ '' HTTP/1.1'' @ crlf) @ header_block h
      = concat (map (\<lambda>l. l @ crlf) (request_lines m p h)) @ crlf"
    by (simp add: header_block_def request_lines_def header_line_def comp_def)
  finally have "request_head m p h = encode (concat (map (\<lambda>l. l @ crlf) (request_lines m p h)) @ crlf)" .
  then show ?thesis
    unfolding request_lines_def join_lines [symmetric] encode_append by (simp add: c)
qed

lemma parse_headers_back:
  assumes "dict_wf h" "list_all header_ok h"
  shows "parse_header_lines (map header_line h) = h"
proof -
  let ?step = "\<lambda>h line. if CHR '':'' \<notin> set line then h
     else (case Text.partition '':'' line of (k, _, v) \<Rightarrow> dict_set (lower (strip k)) (strip v) h)"
  have step: "?step d (header_line kv) = dict_set (fst kv) (snd kv) d" if "header_ok kv" for d kv
    using that cut_char [of "CHR '':''" "fst kv" "CHR '' '' # snd kv"]
    by (simp add: header_line_def header_ok_def partition_def strip_field)
  have "list_all header_ok h \<Longrightarrow> foldl ?step d (map header_line h) = foldl (\<lambda>d kv. dict_set (fst kv) (snd kv) d) d h" for d
    by (induction h arbitrary: d) (simp_all only: list.map foldl_Nil foldl_Cons list.pred_inject step)
  then show ?thesis using assms foldl_dict_set [of "[]" h] by (simp only: parse_header_lines_def append_Nil)
qed

lemma request_lines_ok:
  assumes "request_ok r"
  shows "list_all (\<lambda>l. l \<noteq> [] \<and> no_cr l) (request_lines (rq_method r) (rq_path r) (rq_headers r))"
    "text_ok (join crlf (request_lines (rq_method r) (rq_path r) (rq_headers r)))"
proof -
  show "list_all (\<lambda>l. l \<noteq> [] \<and> no_cr l) (request_lines (rq_method r) (rq_path r) (rq_headers r))"
    using assms by (auto simp: request_ok_def request_lines_def list_all_iff header_line_def header_ok_def field_ok_def)
  show "text_ok (join crlf (request_lines (rq_method r) (rq_path r) (rq_headers r)))"
    using assms by (intro text_ok_join)
      (auto simp: request_ok_def request_lines_def list_all_iff header_line_def header_ok_def field_ok_def
        text_ok_append text_ok_ascii text_ok_ascii_Cons crlf_def)
qed

text \<open>The request parser inverts request printing: for every well-formed request whose
  content length is the length of its body, parsing the printed head, the body and anything after
  it gives the request back.  A body is consumed exactly; without a body, everything after the head
  is thrown away.\<close>

lemma request_reads_back:
  assumes "request_ok r" and "\<not> is_chunked r" and "content_length r = int (length (rq_body r))"
  shows "try_parse (request_head (rq_method r) (rq_path r) (rq_headers r) @ rq_body r @ rest)
    = Some (Inr (Some (r\<lparr>rq_client_ip := ''127.0.0.1''\<rparr>), if rq_body r = [] then [] else rest))"
proof -
  let ?ls = "request_lines (rq_method r) (rq_path r) (rq_headers r)"
  let ?b = "request_head (rq_method r) (rq_path r) (rq_headers r) @ rq_body r @ rest"
  note ok = request_lines_ok [OF assms(1)]
  have ne: "?ls \<noteq> []" by (simp add: request_lines_def)
  have idx: "find_sub CRLF2 ?b = Some (length (join crlf ?ls))"
    using find_header_end [OF ok(1) ne, of "rq_body r @ rest"] by (simp add: request_head_join)
  have tk: "utf8_replace (take (length (join crlf ?ls)) ?b) = join crlf ?ls"
    using ok(2) by (simp add: request_head_join text_ok_def utf8_replace_valid)
  have dr: "drop (length (join crlf ?ls) + 4) ?b = rq_body r @ rest"
    by (simp add: request_head_join CRLF2_def)
  have sp: "split_on crlf (join crlf ?ls) = ?ls"
    using ok(1) by (intro split_lines ne) (auto simp: list_all_iff)
  have parts: "split_max '' '' 2 (hd ?ls) = [rq_method r, rq_path r, ''HTTP/1.1'']"
    using assms(1) cut_char [of "CHR '' ''" "rq_method r" "rq_path r @ '' HTTP/1.1''"]
      cut_char [of "CHR '' ''" "rq_path r" "''HTTP/1.1''"]
    by (simp add: request_lines_def request_ok_def numeral_2_eq_2)
  have hs: "parse_header_lines (tl ?ls) = rq_headers r"
    using assms(1) by (simp add: request_lines_def parse_headers_back request_ok_def)
  let ?q = "r\<lparr>rq_client_ip := ''127.0.0.1'', rq_body := []\<rparr>"
  have q: "\<lparr>rq_method = rq_method r, rq_path = rq_path r, rq_version = ''HTTP/1.1'', rq_headers = rq_headers r,
      rq_body = [], rq_client_ip = ''127.0.0.1''\<rparr> = ?q" "\<not> is_chunked ?q" "content_length ?q = int (length (rq_body r))"
    using assms by (simp_all add: request_ok_def is_chunked_def content_length_def)
  have body: "rq_body r = b \<Longrightarrow> r\<lparr>rq_client_ip := x, rq_body := b\<rparr> = r\<lparr>rq_client_ip := x\<rparr>" for b x by (cases r) simp
  have m: "upper (rq_method r) = rq_method r" using assms(1) by (simp add: request_ok_def)
  have len: "length [rq_method r, rq_path r, ''HTTP/1.1''] = 3" by simp
  have nth: "[rq_method r, rq_path r, ''HTTP/1.1''] ! 0 = rq_method r" "[rq_method r, rq_path r, ''HTTP/1.1''] ! 1 = rq_path r"
    "[rq_method r, rq_path r, ''HTTP/1.1''] ! 2 = ''HTTP/1.1''" by simp_all
  show ?thesis
    unfolding try_parse_def idx option.case Let_def tk sp parts hs dr len nth m
    using q(2,3) by (simp add: q(1) body)
qed

lemma header_ok_dels: "list_all header_ok d \<Longrightarrow> list_all header_ok (foldl (\<lambda>h k. dict_del k h) d ks)"
  "dict_wf d \<Longrightarrow> dict_wf (foldl (\<lambda>h k. dict_del k h) d ks)"
proof -
  have "list_all header_ok d \<Longrightarrow> list_all header_ok (dict_del k d)" for k and d :: "(string, string) dict"
    by (auto simp: list_all_iff set_dict_del)
  then show "list_all header_ok d \<Longrightarrow> list_all header_ok (foldl (\<lambda>h k. dict_del k h) d ks)"
    "dict_wf d \<Longrightarrow> dict_wf (foldl (\<lambda>h k. dict_del k h) d ks)"
    by (induction ks arbitrary: d) simp_all
qed

lemma header_ok_set: "dict_wf d \<Longrightarrow> list_all header_ok d \<Longrightarrow> header_ok (k, v) \<Longrightarrow> list_all header_ok (dict_set k v d)"
  by (auto simp: list_all_iff set_dict_set)

lemma field_ok_list: "field_ok a \<Longrightarrow> field_ok b \<Longrightarrow> a \<noteq> [] \<Longrightarrow> b \<noteq> [] \<Longrightarrow> field_ok (a @ '', '' @ b)"
  by (auto simp: field_ok_def text_ok_append text_ok_ascii_Cons)

lemma str_int_ends: "str_int i \<noteq> []" "\<not> is_space (last (str_int i))" "no_cr (str_int i)"
proof -
  have d: "dec_digits n \<noteq> []" "list_all is_digit (dec_digits n)" for n
    using dec_digits_first [of n] dec_digits_digits by auto
  then have l: "is_digit (last (dec_digits n))" for n
    using last_in_set [OF d(1) [of n]] by (auto simp only: list_all_iff)
  have "\<not> is_digit (CHR 0x0D)" by code_simp
  then have "no_cr (dec_digits n)" for n using d(2) [of n] by (auto simp: list_all_iff)
  then show "str_int i \<noteq> []" "\<not> is_space (last (str_int i))" "no_cr (str_int i)"
    using d l digit_not_space by (auto simp: str_int_def)
qed

lemma field_ok_endpoint: "field_ok h \<Longrightarrow> field_ok (h @ '':'' @ str_int p)"
proof -
  assume h: "field_ok h"
  then have "text_ok (h @ '':'' @ str_int p)"
    using text_ok_str_int [of p] by (simp add: field_ok_def text_ok_append text_ok_ascii_Cons)
  moreover have "\<not> is_space (CHR '':'')" by code_simp
  ultimately show ?thesis using h str_int_ends [of p] by (cases h) (auto simp: field_ok_def)
qed

lemma forward_headers_ok:
  assumes "request_ok r" "field_ok (us_host s)" "field_ok (rq_client_ip r)" "rq_client_ip r \<noteq> []"
  shows "dict_wf (forward_headers r s) \<and> list_all header_ok (forward_headers r s)"
proof -
  let ?h = "dict_set ''x-real-ip'' (rq_client_ip r)
     (dict_set ''host'' (us_host s @ '':'' @ str_int (us_port s)) (rq_headers r))"
  have names: "header_ok (''host'', v) = field_ok v" "header_ok (''x-real-ip'', v) = field_ok v"
    "header_ok (''x-forwarded-for'', v) = field_ok v" for v
  proof -
    have "field_ok ''host''" "field_ok ''x-real-ip''" "field_ok ''x-forwarded-for''"
      "lower ''host'' = ''host''" "lower ''x-real-ip'' = ''x-real-ip''" "lower ''x-forwarded-for'' = ''x-forwarded-for''"
      by code_simp+
    then show "header_ok (''host'', v) = field_ok v" "header_ok (''x-real-ip'', v) = field_ok v"
      "header_ok (''x-forwarded-for'', v) = field_ok v" by (simp_all add: header_ok_def)
  qed
  have r: "dict_wf (rq_headers r)" "list_all header_ok (rq_headers r)" using assms(1) by (simp_all add: request_ok_def)
  have h: "dict_wf ?h" "list_all header_ok ?h"
    using r assms(2,3) by (auto intro!: header_ok_set simp: names field_ok_endpoint [simplified])
  have "dict_get ?h ''x-forwarded-for'' = dict_get (rq_headers r) ''x-forwarded-for''" by simp
  moreover have "field_ok v" if "dict_get (rq_headers r) k = Some v" for k v
    using map_of_SomeD [OF that] r(2) by (auto simp: list_all_iff header_ok_def)
  moreover have "field_ok []" by (simp add: field_ok_def text_ok_ascii)
  ultimately have "field_ok (dict_get_or ?h ''x-forwarded-for'' [])"
    by (simp only: dict_get_or_def split: option.split) blast
  then have "field_ok (if dict_get_or ?h ''x-forwarded-for'' [] \<noteq> []
      then dict_get_or ?h ''x-forwarded-for'' [] @ '', '' @ rq_client_ip r else rq_client_ip r)"
    using assms(3,4) field_ok_list by auto
  then show ?thesis
    unfolding forward_headers_def Let_def using h header_ok_set header_ok_dels names(3) by blast
qed


section \<open>Witnesses\<close>

definition demo_chunk :: bytes where
  "demo_chunk = [51, 13, 10, 1, 2, 3, 13, 10]"

lemma demo_chunk_positions: "chunk_reaches demo_chunk pos \<Longrightarrow> pos = 0 \<or> pos = 8"
proof (induction rule: chunk_reaches.induct)
  case (reach_next pos acc p a)
  have "py_find demo_chunk CRLF 0 = 1" "py_int16 (py_slice demo_chunk 0 1) = Some 3" "length demo_chunk = 8"
    by code_simp+
  then have "chunk_step demo_chunk 0 acc = ChunkNext 8 (acc @ py_slice demo_chunk 3 6)"
    "chunk_step demo_chunk 8 acc = ChunkReturn (Inr (None, 0))"
    by (simp_all add: chunk_step_def)
  then show ?case using reach_next by auto
qed simp

theorem chunk_parser_returns_witness: "\<exists>r. parse_chunked [51, 13, 10, 1, 2, 3, 13, 10] = Some r"
proof -
  have "chunk_size_at demo_chunk 0 = Some 3" "chunk_size_at demo_chunk 8 = None" by code_simp+
  then have "\<forall>pos n. chunk_reaches demo_chunk pos \<longrightarrow> chunk_size_at demo_chunk pos = Some n \<longrightarrow> 0 \<le> n"
    using demo_chunk_positions by fastforce
  from chunk_parser_returns [OF this] show ?thesis by (simp add: demo_chunk_def)
qed

definition demo_request :: http_request where
  "demo_request = \<lparr>rq_method = ''POST'', rq_path = ''/api'', rq_version = ''HTTP/1.1'',
     rq_headers = [(''host'', ''a.example''), (''connection'', ''keep-alive''), (''content-length'', ''3'')],
     rq_body = [1, 2, 3], rq_client_ip = ''10.0.0.7''\<rparr>"

definition demo_upstream :: upstream_server where
  "demo_upstream = \<lparr>us_host = ''10.0.0.2'', us_port = 8080, us_weight = 1, us_max_conns = 0, us_backup = False, us_down = False\<rparr>"


end
