(* ===== verification/Static.thy ===== *)
theory Static
  imports Http
begin

text \<open>
  Static file serving of the reverse proxy (\<^verbatim>\<open>Connection._serve_static_file\<close>) with the parts of
  \<^verbatim>\<open>os.path\<close> (POSIX) it uses.  The file system and the table of \<^verbatim>\<open>mimetypes\<close> are arguments.
\<close>

section \<open>Paths\<close>

definition path_join :: "string \<Rightarrow> string \<Rightarrow> string" where
  "path_join a b =
     (if starts_with ''/'' b then b
      else if a = [] \<or> last a = CHR ''/'' then a @ b
      else a @ ''/'' @ b)"

text \<open>The components kept by \<^verbatim>\<open>normpath\<close>, last one first: empty ones and dots go, and \<^verbatim>\<open>..\<close> removes
  the component before it, or stays at the beginning of a relative path.\<close>

fun norm_step :: "bool \<Rightarrow> string list \<Rightarrow> string \<Rightarrow> string list" where
  "norm_step absolute new_comps part =
     (if part = [] \<or> part = ''.'' then new_comps
      else if part \<noteq> ''..'' \<or> (\<not> absolute \<and> new_comps = []) \<or> (new_comps \<noteq> [] \<and> hd new_comps = ''..'')
      then part # new_comps
      else tl new_comps)"

definition norm_comps :: "bool \<Rightarrow> string \<Rightarrow> string list" where
  "norm_comps absolute path = rev (foldl (norm_step absolute) [] (split_on ''/'' path))"

definition initial_slashes :: "string \<Rightarrow> nat" where
  "initial_slashes path =
     (if \<not> starts_with ''/'' path then 0
      else if starts_with ''//'' path \<and> \<not> starts_with ''///'' path then 2 else 1)"

definition normpath :: "string \<Rightarrow> string" where
  "normpath path =
     (if path = [] then ''.''
      else
        (let p = replicate (initial_slashes path) (CHR ''/'') @ join ''/'' (norm_comps (initial_slashes path > 0) path)
         in if p = [] then ''.'' else p))"

definition lstrip_slash :: "string \<Rightarrow> string" where
  "lstrip_slash s = dropWhile (\<lambda>c. c = CHR ''/'') s"

section \<open>Serving a file\<close>

record file_system =
  fs_isfile :: "string \<Rightarrow> bool"
  fs_isdir :: "string \<Rightarrow> bool"
  fs_read :: "string \<Rightarrow> bytes option"
  fs_mime :: "string \<Rightarrow> string option"

definition plain_response :: "int \<Rightarrow> string \<Rightarrow> string \<Rightarrow> http_response" where
  "plain_response status reason body =
     \<lparr>rs_status = status, rs_reason = reason,
      rs_headers = [(''content-type'', ''text/plain''), (''connection'', ''close'')], rs_body = encode body\<rparr>"

definition static_path :: "string \<Rightarrow> string \<Rightarrow> location_block \<Rightarrow> string" where
  "static_path path docroot location =
     (let relative = (if starts_with (loc_path location) path then drop (length (loc_path location)) path
                      else lstrip_slash path);
          relative' = (if relative = [] \<or> relative = ''/'' then ''index.html'' else relative)
      in normpath (path_join docroot (lstrip_slash relative')))"

definition read_static :: "file_system \<Rightarrow> location_block \<Rightarrow> string \<Rightarrow> http_response" where
  "read_static fs location filepath =
     (case fs_read fs filepath of
        None \<Rightarrow> plain_response 403 ''Forbidden'' ''403 Forbidden''
      | Some body \<Rightarrow>
          \<lparr>rs_status = 200, rs_reason = ''OK'',
           rs_headers =
             [(''content-type'', case fs_mime fs filepath of None \<Rightarrow> ''application/octet-stream'' | Some t \<Rightarrow> t),
              (''content-length'', str_int (int (length body))),
              (''cache-control'', if loc_cache_ttl location > 0 then ''max-age='' @ str_int (loc_cache_ttl location)
                                  else ''no-cache'')],
           rs_body = body\<rparr>)"

definition serve_static_file :: "file_system \<Rightarrow> string \<Rightarrow> string \<Rightarrow> location_block \<Rightarrow> http_response" where
  "serve_static_file fs path docroot location =
     (let filepath = static_path path docroot location in
      if \<not> starts_with (normpath docroot) filepath then plain_response 403 ''Forbidden'' ''403 Forbidden''
      else if fs_isfile fs filepath then read_static fs location filepath
      else
        (let filepath' = (if fs_isdir fs filepath then path_join filepath ''index.html'' else filepath) in
         if fs_isfile fs filepath' then read_static fs location filepath'
         else plain_response 404 ''Not Found'' ''404 Not Found''))"

section \<open>Confinement\<close>

lemma starts_with_iff: "starts_with p s \<longleftrightarrow> (\<exists>t. s = p @ t)"
  by (metis append_eq_conv_conj append_take_drop_id starts_with_def)

lemma cut_before: "cut [x] s = Some (a, b) \<Longrightarrow> x \<notin> set a"
proof (induction s arbitrary: a)
  case Nil
  then show ?case by (simp add: cut.simps starts_with_def)
next
  case (Cons y s)
  then show ?case by (subst (asm) cut.simps) (auto simp: starts_with_def split: if_splits)
qed

lemma cut_None_iff: "cut [x] s = None \<Longrightarrow> x \<notin> set s"
proof (induction s)
  case (Cons y s)
  then show ?case by (subst (asm) cut.simps) (auto simp: starts_with_def split: if_splits)
qed simp

lemma split_no_sep: "c \<in> set (split_on [x] s) \<Longrightarrow> x \<notin> set c"
proof (induction "[x]" s rule: split_on.induct)
  case (1 s)
  then show ?case
    by (subst (asm) split_on.simps) (auto split: option.splits dest: cut_before cut_None_iff)
qed

definition plain_comp :: "string \<Rightarrow> bool" where
  "plain_comp c \<longleftrightarrow> c \<noteq> [] \<and> c \<noteq> ''.'' \<and> c \<noteq> ''..'' \<and> CHR ''/'' \<notin> set c"

lemma plain_compD: "plain_comp c \<Longrightarrow> c \<noteq> [] \<and> c \<noteq> ''..'' \<and> CHR ''/'' \<notin> set c"
  by (simp add: plain_comp_def)

lemma norm_steps_plain:
  "\<forall>c \<in> set cs. CHR ''/'' \<notin> set c \<Longrightarrow> list_all plain_comp acc \<Longrightarrow> list_all plain_comp (foldl (norm_step True) acc cs)"
proof (induction cs arbitrary: acc)
  case (Cons c cs)
  have "list_all plain_comp (norm_step True acc c)"
    using Cons.prems by (cases acc) (auto simp: plain_comp_def [of c] dest: plain_compD)
  then show ?case using Cons by simp
qed simp

lemma norm_comps_plain: "list_all plain_comp (norm_comps True p)"
  using norm_steps_plain [of "split_on ''/'' p" "[]"] split_no_sep [of _ "CHR ''/''" p]
  by (auto simp: norm_comps_def list_all_iff)

lemma first_sep: "x \<notin> set a \<Longrightarrow> x \<notin> set b \<Longrightarrow> a @ x # u = b @ x # v \<longleftrightarrow> a = b \<and> u = v"
proof (induction a arbitrary: b)
  case Nil
  then show ?case by (cases b) auto
next
  case (Cons y a)
  then show ?case by (cases b) auto
qed

lemma join_slash_prefix:
  assumes "list_all plain_comp R" "R \<noteq> []" "list_all plain_comp C" "join ''/'' C = join ''/'' R @ t"
  shows "\<exists>n rest. C = butlast R @ n # rest \<and> starts_with (last R) n"
  using assms
proof (induction R arbitrary: C)
  case (Cons x R)
  have x: "x \<noteq> []" "CHR ''/'' \<notin> set x" using Cons.prems(1) by (simp_all add: plain_comp_def)
  have "C \<noteq> []" using Cons.prems(4) x(1) by (cases R) auto
  then obtain c cs where C: "C = c # cs" "CHR ''/'' \<notin> set c" "list_all plain_comp cs"
    using Cons.prems(3) by (cases C) (auto dest: plain_compD)
  show ?case
  proof (cases "R = []")
    case True
    have "\<exists>u. join ''/'' C = c @ u \<and> (u = [] \<or> hd u = CHR ''/'')"
      using C(1) by (cases "cs = []") (auto simp: join_Cons)
    then obtain u where u: "c @ u = x @ t" "u = [] \<or> hd u = CHR ''/''"
      using Cons.prems(4) True by auto
    have "\<exists>v. c = x @ v"
    proof (rule ccontr)
      assume n: "\<nexists>v. c = x @ v"
      then obtain w where "x = c @ w" "w \<noteq> []" "u = w @ t"
        using u(1) by (auto simp: append_eq_append_conv2)
      then show False using u(2) x(2) by (cases w) auto
    qed
    then show ?thesis using True C(1) by (auto simp: starts_with_iff)
  next
    case False
    have j: "join ''/'' C = x @ CHR ''/'' # (join ''/'' R @ t)" using Cons.prems(4) False by (simp add: join_Cons)
    have cs: "cs \<noteq> []"
    proof
      assume "cs = []"
      then have "c = x @ CHR ''/'' # (join ''/'' R @ t)" using j C(1) by simp
      then show False using C(2) by auto
    qed
    have "c @ CHR ''/'' # join ''/'' cs = x @ CHR ''/'' # (join ''/'' R @ t)" using j C(1) cs by (simp add: join_Cons)
    then have "c = x" "join ''/'' cs = join ''/'' R @ t" using C(2) x(2) by (auto simp: first_sep)
    then show ?thesis using Cons.IH [of cs] Cons.prems(1) False C by auto
  qed
qed simp

lemma static_path_absolute:
  assumes "starts_with ''/'' docroot"
  shows "\<exists>k C. static_path path docroot location = replicate k (CHR ''/'') @ join ''/'' C \<and> list_all plain_comp C \<and> 0 < k"
proof -
  have "starts_with ''/'' (path_join docroot x)" for x
    using assms by (auto simp: path_join_def starts_with_iff)
  moreover have "p \<noteq> [] \<and> initial_slashes p > 0" if "starts_with ''/'' p" for p
    using that by (auto simp: initial_slashes_def starts_with_iff)
  ultimately have "path_join docroot x \<noteq> [] \<and> initial_slashes (path_join docroot x) > 0" for x by blast
  then have "normpath (path_join docroot x)
      = replicate (initial_slashes (path_join docroot x)) (CHR ''/'') @ join ''/'' (norm_comps True (path_join docroot x))
      \<and> 0 < initial_slashes (path_join docroot x)" for x
    by (simp add: normpath_def Let_def)
  moreover obtain x where "static_path path docroot location = normpath (path_join docroot x)"
    by (simp add: static_path_def Let_def)
  ultimately show ?thesis using norm_comps_plain by metis
qed

lemma join_snoc: "xs \<noteq> [] \<Longrightarrow> join sep (xs @ [x]) = join sep xs @ sep @ x"
  by (induction sep xs rule: join.induct) (auto simp: join_Cons)

lemma split_join_slash: "list_all plain_comp R \<Longrightarrow> R \<noteq> [] \<Longrightarrow> split_on ''/'' (join ''/'' R) = R"
  by (rule split_join) (auto simp: list_all_iff plain_compD)

lemma norm_steps_id: "list_all plain_comp cs \<Longrightarrow> foldl (norm_step True) acc cs = rev cs @ acc"
  by (induction cs arbitrary: acc) (auto simp: plain_comp_def)

lemma join_first: "list_all plain_comp R \<Longrightarrow> R \<noteq> [] \<Longrightarrow> \<exists>c t. join ''/'' R = c # t \<and> c \<noteq> CHR ''/''"
  by (cases R; cases "hd R"; cases "tl R") (auto simp: join_Cons dest: plain_compD)

lemma normpath_normal:
  assumes "list_all plain_comp R" "R \<noteq> []"
  shows "normpath (''/'' @ join ''/'' R) = ''/'' @ join ''/'' R"
proof -
  obtain c t where c: "join ''/'' R = c # t" "c \<noteq> CHR ''/''" using join_first [OF assms] by blast
  have "split_on ''/'' (''/'' @ join ''/'' R) = [] # R"
    using split_on_char [of "CHR ''/''" "[]"] split_join_slash [OF assms] by simp
  then have "norm_comps True (''/'' @ join ''/'' R) = R"
    using norm_steps_id [OF assms(1), of "[]"] by (simp add: norm_comps_def)
  moreover have "initial_slashes (''/'' @ join ''/'' R) = 1" using c by (simp add: initial_slashes_def starts_with_def)
  ultimately show ?thesis by (simp add: normpath_def)
qed

lemma static_path_below:
  assumes "docroot = ''/'' @ join ''/'' R" "R \<noteq> []" "list_all plain_comp R"
    and "starts_with (normpath docroot) (static_path path docroot location)"
  shows "\<exists>n rest. list_all plain_comp (n # rest) \<and> starts_with (last R) n
    \<and> static_path path docroot location = ''/'' @ join ''/'' (butlast R @ n # rest)"
proof -
  obtain k C where C: "static_path path docroot location = replicate k (CHR ''/'') @ join ''/'' C" "list_all plain_comp C" "0 < k"
    using static_path_absolute [of docroot path location] assms(1) by (auto simp: starts_with_iff)
  obtain t where t: "replicate k (CHR ''/'') @ join ''/'' C = ''/'' @ join ''/'' R @ t"
    using assms(4) C(1) normpath_normal [OF assms(3,2)] unfolding assms(1) starts_with_iff by auto
  obtain c u where c: "join ''/'' R = c # u" "c \<noteq> CHR ''/''" using join_first [OF assms(3,2)] by blast
  obtain k' where k': "k = Suc k'" using C(3) by (cases k) auto
  have "k' = 0" using t c by (cases k') (auto simp: k')
  then have j: "join ''/'' C = join ''/'' R @ t" using t by (simp add: k')
  obtain n rest where n: "C = butlast R @ n # rest" "starts_with (last R) n"
    using join_slash_prefix [OF assms(3,2) C(2) j] by blast
  then show ?thesis using C(1,2) \<open>k' = 0\<close> by (auto simp: k')
qed

lemma read_static_ok: "rs_status (read_static fs location f) = 200 \<Longrightarrow>
   fs_read fs f = Some (rs_body (read_static fs location f))"
  by (auto simp: read_static_def plain_response_def split: option.splits)

lemma index_below:
  assumes "list_all plain_comp (n # rest)"
  shows "path_join (''/'' @ join ''/'' (P @ n # rest)) ''index.html'' = ''/'' @ join ''/'' (P @ n # rest @ [''index.html''])"
proof -
  have l: "join ''/'' (P @ n # rest) \<noteq> [] \<and> last (join ''/'' (P @ n # rest)) \<noteq> CHR ''/''"
    using assms
  proof (induction rest arbitrary: n P rule: rev_induct)
    case Nil
    then have n: "n \<noteq> []" "last n \<noteq> CHR ''/''" using plain_compD [of n] by (auto dest: last_in_set)
    show ?case using n by (induction P) (auto simp: join_Cons)
  next
    case (snoc x rest)
    then have "x \<noteq> []" "last x \<noteq> CHR ''/''" using plain_compD [of x] by (auto dest: last_in_set)
    then show ?case using join_snoc [of "P @ n # rest" "''/''" x] by simp
  qed
  then show ?thesis using join_snoc [of "P @ n # rest" "''/''" "''index.html''"]
    by (simp add: path_join_def starts_with_def)
qed


section \<open>Defects and witnesses\<close>

definition demo_location :: location_block where
  "demo_location = \<lparr>loc_path = ''/'', loc_upstream = [], loc_root = ''/srv/www'', loc_ssl = False, loc_cache = False,
     loc_cache_ttl = 300, loc_compress = True, loc_rate_limit = 0, loc_basic_auth = [], loc_ws_enabled = True,
     loc_ws_timeout = 300, loc_ws_max_message_size = 1048576, loc_ws_ping_interval = 30\<rparr>"

definition demo_fs :: "string \<Rightarrow> file_system" where
  "demo_fs f = \<lparr>fs_isfile = (\<lambda>p. p = f), fs_isdir = (\<lambda>_. False), fs_read = (\<lambda>p. if p = f then Some [42] else None),
     fs_mime = (\<lambda>_. None)\<rparr>"

text \<open>The check compares texts and not components: a sibling whose name begins with the name of the
  root is served.\<close>

lemma static_sibling_served:
  "static_path ''/../www-private/key'' ''/srv/www'' demo_location = ''/srv/www-private/key''
   \<and> rs_status (serve_static_file (demo_fs ''/srv/www-private/key'') ''/../www-private/key'' ''/srv/www'' demo_location) = 200"
proof -
  have p: "static_path ''/../www-private/key'' ''/srv/www'' demo_location = ''/srv/www-private/key''"
    and r: "starts_with (normpath ''/srv/www'') ''/srv/www-private/key''" by code_simp+
  then show ?thesis by (simp add: serve_static_file_def demo_fs_def read_static_def Let_def)
qed

text \<open>With the root \<^verbatim>\<open>.\<close> nothing in it is served, but files outside are.\<close>

lemma static_dot_root:
  "rs_status (serve_static_file fs ''/a.txt'' ''.'' demo_location) = 403
   \<and> rs_status (serve_static_file (demo_fs ''../secret'') ''/../secret'' ''.'' demo_location) = 200"
proof -
  have "static_path ''/a.txt'' ''.'' demo_location = ''a.txt''" "static_path ''/../secret'' ''.'' demo_location = ''../secret''"
    "normpath ''.'' = ''.''" by code_simp+
  then show ?thesis
    by (simp add: serve_static_file_def demo_fs_def read_static_def plain_response_def starts_with_def)
qed


end
