(* ===== verification/Websocket.thy ===== *)
theory Websocket
  imports Http
begin

text \<open>
  WebSocket support of the reverse proxy (\<^verbatim>\<open>proxy/websocket.py\<close>): the frame codec of RFC 6455
  as the proxy reads and writes it, the relay of frames between the client and the upstream with
  its keep-alive pings, closing, and the upgrade handshake.  A stream reader is the list of bytes
  to come before the end of the stream (a read timeout ends the relay as the end of the stream does)
  and SHA-1 is an argument.
\<close>

section \<open>Constants and the accept key\<close>

definition OP_CONTINUATION :: byte where [model_defs]: "OP_CONTINUATION = 0"
definition OP_TEXT :: byte where [model_defs]: "OP_TEXT = 1"
definition OP_BINARY :: byte where [model_defs]: "OP_BINARY = 2"
definition OP_CLOSE :: byte where [model_defs]: "OP_CLOSE = 8"
definition OP_PING :: byte where [model_defs]: "OP_PING = 9"
definition OP_PONG :: byte where [model_defs]: "OP_PONG = 10"

definition WS_MAGIC_GUID :: string where "WS_MAGIC_GUID = ''258EAFA5-E914-47DA-95CA-C5AB0DC85B11''"

definition compute_accept_key :: "(bytes \<Rightarrow> bytes) \<Rightarrow> string \<Rightarrow> string" where
  "compute_accept_key sha1 client_key = b64encode (sha1 (encode (client_key @ WS_MAGIC_GUID)))"

definition is_websocket_upgrade :: "(string, string) dict \<Rightarrow> bool" where
  "is_websocket_upgrade headers \<longleftrightarrow>
     lower (dict_get_or headers ''upgrade'' []) = ''websocket''
     \<and> contains ''upgrade'' (lower (dict_get_or headers ''connection'' []))"

section \<open>Frames\<close>

type_synonym ws_frame = "byte \<times> bytes"

definition unmask :: "bytes \<Rightarrow> bytes \<Rightarrow> bytes" where
  "unmask mask_key payload = map (\<lambda>(i, b). b XOR mask_key ! (i mod 4)) (List.enumerate 0 payload)"

definition read_ext_length :: "byte \<Rightarrow> bytes \<Rightarrow> (nat \<times> bytes) result" where
  "read_ext_length byte1 s =
     (let payload_len = unat (byte1 AND 0x7F) in
      if payload_len = 126 then
        (case read_exactly 2 s of Inl e \<Rightarrow> Inl e | Inr (ext, s') \<Rightarrow> Inr (be_val ext, s'))
      else if payload_len = 127 then
        (case read_exactly 8 s of Inl e \<Rightarrow> Inl e | Inr (ext, s') \<Rightarrow> Inr (be_val ext, s'))
      else Inr (payload_len, s))"

definition read_frame :: "int \<Rightarrow> bytes \<Rightarrow> (ws_frame \<times> bytes) result" where
  "read_frame max_message_size s =
     (case read_exactly 2 s of
        Inl e \<Rightarrow> Inl e
      | Inr (header, s1) \<Rightarrow>
          (let opcode = header ! 0 AND 0x0F; masked = (header ! 1 AND 0x80 \<noteq> 0) in
           case read_ext_length (header ! 1) s1 of
             Inl e \<Rightarrow> Inl e
           | Inr (payload_len, s2) \<Rightarrow>
               if int payload_len > max_message_size then Inl (OtherError ''WebSocketError'' ''frame too large'')
               else
                 (case (if masked then read_exactly 4 s2 else Inr ([], s2)) of
                    Inl e \<Rightarrow> Inl e
                  | Inr (mask_key, s3) \<Rightarrow>
                      (case (if payload_len > 0 then read_exactly (int payload_len) s3 else Inr ([], s3)) of
                         Inl e \<Rightarrow> Inl e
                       | Inr (payload, s4) \<Rightarrow>
                           Inr ((opcode, if masked \<and> mask_key \<noteq> [] then unmask mask_key payload else payload), s4)))))"

definition send_frame :: "byte \<Rightarrow> bytes \<Rightarrow> bytes" where
  "send_frame opcode payload =
     (let plen = length payload in
      [0x80 OR (opcode AND 0x0F)]
      @ (if plen < 126 then [word_of_nat plen]
         else if plen < 65536 then 126 # be_bytes 2 plen
         else 127 # be_bytes 8 plen)
      @ payload)"

section \<open>The relay\<close>

text \<open>What one direction does with a frame it has read: the frame it sends to the other side, and
  whether it stops.\<close>

definition relay_frame_ws :: "ws_frame \<Rightarrow> ws_frame \<times> bool" where
  "relay_frame_ws f =
     (case f of (opcode, payload) \<Rightarrow>
        if opcode = OP_CLOSE then ((OP_CLOSE, payload), True)
        else if opcode = OP_PING then ((OP_PONG, payload), False)
        else if opcode = OP_PONG then ((OP_PONG, payload), False)
        else ((opcode, payload), False))"

text \<open>The three tasks share the streams of both sides and the event that ends them; the frames
  written to each side are recorded in order.\<close>

record ws_relay =
  ws_client_in :: bytes
  ws_upstream_in :: bytes
  ws_to_client :: "ws_frame list"
  ws_to_upstream :: "ws_frame list"
  ws_done :: bool
  ws_closing :: bool

datatype ws_event = FromClient | FromUpstream | PingTick

definition relay_init :: "bytes \<Rightarrow> bytes \<Rightarrow> ws_relay" where
  "relay_init client upstream = \<lparr>ws_client_in = client, ws_upstream_in = upstream, ws_to_client = [],
     ws_to_upstream = [], ws_done = False, ws_closing = False\<rparr>"

definition relay_step :: "int \<Rightarrow> ws_relay \<Rightarrow> ws_event \<Rightarrow> ws_relay" where
  "relay_step max_size r ev =
     (if ws_done r then r
      else
        (case ev of
           FromClient \<Rightarrow>
             (case read_frame max_size (ws_client_in r) of
                Inl _ \<Rightarrow> r\<lparr>ws_done := True\<rparr>
              | Inr (f, s) \<Rightarrow>
                  (case relay_frame_ws f of (g, stop) \<Rightarrow>
                     r\<lparr>ws_client_in := s, ws_to_upstream := ws_to_upstream r @ [g], ws_done := stop\<rparr>))
         | FromUpstream \<Rightarrow>
             (case read_frame max_size (ws_upstream_in r) of
                Inl _ \<Rightarrow> r\<lparr>ws_done := True\<rparr>
              | Inr (f, s) \<Rightarrow>
                  (case relay_frame_ws f of (g, stop) \<Rightarrow>
                     r\<lparr>ws_upstream_in := s, ws_to_client := ws_to_client r @ [g], ws_done := stop\<rparr>))
         | PingTick \<Rightarrow> r\<lparr>ws_to_upstream := ws_to_upstream r @ [(OP_PING, [])]\<rparr>))"

definition relay_run :: "int \<Rightarrow> ws_relay \<Rightarrow> ws_event list \<Rightarrow> ws_relay" where
  "relay_run max_size = foldl (relay_step max_size)"

definition ws_wire :: "ws_frame list \<Rightarrow> bytes" where
  "ws_wire fs = concat (map (\<lambda>f. send_frame (fst f) (snd f)) fs)"

text \<open>A close code that does not fit into 16 bits raises after the flag has been set.\<close>

definition ws_close :: "int \<Rightarrow> string \<Rightarrow> ws_relay \<Rightarrow> py_exc option \<times> ws_relay" where
  "ws_close code reason r =
     (if ws_closing r then (None, r)
      else if code < 0 \<or> 65535 < code then (Some StructError, r\<lparr>ws_closing := True\<rparr>)
      else
        (let payload = be_bytes 2 (nat code) @ encode reason in
         (None, r\<lparr>ws_closing := True, ws_to_client := ws_to_client r @ [(OP_CLOSE, payload)],
                  ws_to_upstream := ws_to_upstream r @ [(OP_CLOSE, payload)]\<rparr>)))"

section \<open>The upgrade\<close>

definition upgrade_response :: "(bytes \<Rightarrow> bytes) \<Rightarrow> string \<Rightarrow> string option \<Rightarrow> bytes" where
  "upgrade_response sha1 client_key client_protocol =
     encode (''HTTP/1.1 101 Switching Protocols'' @ crlf @ ''Upgrade: websocket'' @ crlf @ ''Connection: Upgrade'' @ crlf
       @ ''Sec-WebSocket-Accept: '' @ compute_accept_key sha1 client_key @ crlf
       @ (case client_protocol of
            Some p \<Rightarrow> if p \<noteq> [] then ''Sec-WebSocket-Protocol: '' @ p @ crlf else []
          | None \<Rightarrow> [])
       @ crlf)"

text \<open>The handler up to the relay: the bytes written upstream and to the client, and how it goes on:
  an answer was sent and it returns, it enters the relay with the rest of the upstream's stream, or
  it raises.\<close>

datatype upgrade_outcome =
    UpgradeRefused
  | UpgradeRelay bytes
  | UpgradeRaised py_exc

definition upgrade_error :: "bytes \<Rightarrow> int \<Rightarrow> string \<Rightarrow> bytes \<times> bytes \<times> upgrade_outcome" where
  "upgrade_error up status text = (up, send_response (error_response status text), UpgradeRefused)"

definition choose_accept :: "(bytes \<Rightarrow> bytes) \<Rightarrow> string \<Rightarrow> string \<Rightarrow> string" where
  "choose_accept sha1 client_key upstream_accept =
     (let accept_key = compute_accept_key sha1 client_key in
      if upstream_accept \<noteq> [] \<and> upstream_accept \<noteq> accept_key then upstream_accept else accept_key)"

definition handle_websocket_upgrade :: "(bytes \<Rightarrow> bytes) \<Rightarrow> http_request \<Rightarrow> bytes \<Rightarrow> bytes \<times> bytes \<times> upgrade_outcome" where
  "handle_websocket_upgrade sha1 request upstream =
     (let client_key = dict_get_or (rq_headers request) ''sec-websocket-key'' [] in
      if client_key = [] then upgrade_error [] 400 ''Bad Request''
      else
        (let client_protocol = dict_get (rq_headers request) ''sec-websocket-protocol'';
             req_headers = dict_set ''host'' (dict_get_or (rq_headers request) ''host'' []) (rq_headers request);
             up = request_head (rq_method request) (rq_path request) req_headers
         in case read_until CRLF2 upstream of
              Inl (OtherError x t) \<Rightarrow>
                if x = ''IncompleteReadError'' then upgrade_error up 502 ''Bad Gateway''
                else (up, [], UpgradeRaised (OtherError x t))
            | Inl e \<Rightarrow> (up, [], UpgradeRaised e)
            | Inr (response_data, rest) \<Rightarrow>
                (let lines = split_on crlf (utf8_replace response_data);
                     status_parts = split_max '' '' 2 (hd lines)
                 in if length status_parts < 2 then upgrade_error up 502 ''Bad Gateway''
                    else
                      (case py_int (status_parts ! 1) of
                         None \<Rightarrow> (up, [], UpgradeRaised (ValueError ''invalid literal for int()''))
                       | Some status_code \<Rightarrow>
                           if status_code \<noteq> 101
                           then (up, response_data, UpgradeRaised (TypeError ''object NoneType can't be used in 'await' expression''))
                           else
                             (let response_headers = parse_header_lines (tl lines);
                                  accept_key = choose_accept sha1 client_key
                                    (dict_get_or response_headers ''sec-websocket-accept'' []);
                                  upstream_protocol = dict_get_or response_headers ''sec-websocket-protocol'' [];
                                  protocol = (if upstream_protocol \<noteq> [] then Some upstream_protocol else client_protocol)
                              in (up, upgrade_response sha1 accept_key protocol, UpgradeRelay rest))))))"

section \<open>Frames read back\<close>

text \<open>The wire format of RFC 6455, section 5.2: the FIN bit, the opcode, the length in the shortest
  form and, for the frames of a client, a masking key.\<close>

definition rfc_frame :: "bool \<Rightarrow> bytes option \<Rightarrow> ws_frame \<Rightarrow> bytes" where
  "rfc_frame fin mkey f =
     (let plen = length (snd f); m = (if mkey = None then 0 else 0x80) in
      [(if fin then 0x80 else 0) OR fst f]
      @ (if plen < 126 then [m OR word_of_nat plen]
         else if plen < 65536 then (m OR 126) # be_bytes 2 plen
         else (m OR 127) # be_bytes 8 plen)
      @ (case mkey of None \<Rightarrow> snd f | Some k \<Rightarrow> k @ unmask k (snd f)))"

definition ws_frame_ok :: "int \<Rightarrow> ws_frame \<Rightarrow> bool" where
  "ws_frame_ok max_size f \<longleftrightarrow> unat (fst f) < 16 \<and> int (length (snd f)) \<le> max_size \<and> length (snd f) < 2 ^ 64"

lemma all_bytes: "list_all (\<lambda>n. P (word_of_nat n :: byte)) [0..<256] \<Longrightarrow> P b"
proof -
  assume "list_all (\<lambda>n. P (word_of_nat n :: byte)) [0..<256]"
  moreover have "unat b \<in> set [0..<256]" using unat_byte_less [of b] by simp
  ultimately have "P (word_of_nat (unat b))" unfolding list_all_iff by blast
  then show ?thesis by simp
qed

lemma nibble: "unat (b :: byte) < 16 \<Longrightarrow> b AND 15 = b \<and> (128 OR b) AND 15 = b"
proof -
  have "unat b < 16 \<longrightarrow> b AND 15 = b \<and> (128 OR b) AND 15 = b"
    by (rule all_bytes) code_simp
  then show "unat b < 16 \<Longrightarrow> b AND 15 = b \<and> (128 OR b) AND 15 = b" by simp
qed

lemma seven_bits: "unat (b :: byte) < 128 \<Longrightarrow>
   b AND 127 = b \<and> (128 OR b) AND 127 = b \<and> b AND 128 = 0 \<and> (128 OR b) AND 128 \<noteq> 0"
proof -
  have "unat b < 128 \<longrightarrow> b AND 127 = b \<and> (128 OR b) AND 127 = b \<and> b AND 128 = 0 \<and> (128 OR b) AND 128 \<noteq> 0"
    by (rule all_bytes) code_simp
  then show "unat b < 128 \<Longrightarrow> b AND 127 = b \<and> (128 OR b) AND 127 = b \<and> b AND 128 = 0 \<and> (128 OR b) AND 128 \<noteq> 0" by simp
qed

lemma send_frame_rfc: "unat op < 16 \<Longrightarrow> send_frame op payload = rfc_frame True None (op, payload)"
  by (simp add: send_frame_def rfc_frame_def nibble Let_def)

lemma read_exactly_app: "n = int (length a) \<Longrightarrow> read_exactly n (a @ b) = Inr (a, b)"
  by (simp add: read_exactly_def)

lemma unmask_unmask [simp]: "unmask k (unmask k p) = p"
  by (rule nth_equalityI) (simp_all add: unmask_def nth_enumerate_eq xor.assoc)

lemma length_unmask [simp]: "length (unmask k p) = length p"
  by (simp add: unmask_def)

definition length_bytes :: "byte \<Rightarrow> nat \<Rightarrow> bytes" where
  "length_bytes m plen =
     (if plen < 126 then [m OR word_of_nat plen]
      else if plen < 65536 then (m OR 126) # be_bytes 2 plen
      else (m OR 127) # be_bytes 8 plen)"

lemma read_length:
  assumes "plen < 2 ^ 64" and "m = 0 \<or> m = 128"
  shows "\<exists>b1 ext. length_bytes m plen = b1 # ext \<and> read_ext_length b1 (ext @ s) = Inr (plen, s)
    \<and> (b1 AND 128 \<noteq> 0 \<longleftrightarrow> m = 128)"
proof -
  have bits: "(m OR b) AND 127 = b \<and> ((m OR b) AND 128 \<noteq> 0 \<longleftrightarrow> m = 128)" if "unat b < 128" for b
    using seven_bits [OF that] assms(2) by auto
  consider (short) "plen < 126" | (mid) "126 \<le> plen" "plen < 65536" | (long) "65536 \<le> plen" by linarith
  then show ?thesis
  proof cases
    case short
    then have "unat (word_of_nat plen :: byte) = plen" by (simp add: unat_of_nat)
    then show ?thesis using short bits [of "word_of_nat plen"] by (simp add: length_bytes_def read_ext_length_def)
  next
    case mid
    have "be_val (be_bytes 2 plen) = plen" using mid(2) by (simp add: be_val_be_bytes del: be_bytes.simps)
    then show ?thesis using mid bits [of 126] read_exactly_app [of 2 "be_bytes 2 plen" s]
      by (simp add: length_bytes_def read_ext_length_def del: be_bytes.simps)
  next
    case long
    have "be_val (be_bytes 8 plen) = plen" using assms(1) by (simp add: be_val_be_bytes del: be_bytes.simps)
    then show ?thesis using long bits [of 127] read_exactly_app [of 8 "be_bytes 8 plen" s]
      by (simp add: length_bytes_def read_ext_length_def del: be_bytes.simps)
  qed
qed

lemma read_frame_rfc:
  assumes "ws_frame_ok max_size f" and "\<forall>k. mkey = Some k \<longrightarrow> length k = 4"
  shows "read_frame max_size (rfc_frame fin mkey f @ rest) = Inr (f, rest)"
proof -
  obtain op payload where f: "f = (op, payload)" by fastforce
  let ?m = "if mkey = None then 0 else 0x80 :: byte" and ?n = "length payload"
  let ?body = "(case mkey of None \<Rightarrow> payload | Some k \<Rightarrow> k @ unmask k payload)"
  have ok: "unat op < 16" "int ?n \<le> max_size" "?n < 2 ^ 64" using assms(1) by (simp_all add: f ws_frame_ok_def)
  obtain b1 ext where b: "length_bytes ?m ?n = b1 # ext" "b1 AND 128 \<noteq> 0 \<longleftrightarrow> ?m = 128"
      "read_ext_length b1 (ext @ ?body @ rest) = Inr (?n, ?body @ rest)"
  proof -
    have "?m = 0 \<or> ?m = 128" by simp
    from read_length [OF ok(3) this, of "?body @ rest"] show ?thesis using that by blast
  qed
  let ?b0 = "(if fin then 128 else 0) OR op"
  have w: "rfc_frame fin mkey f @ rest = [?b0, b1] @ ext @ ?body @ rest"
    using b(1) by (cases mkey) (simp_all add: rfc_frame_def f Let_def length_bytes_def)
  have h: "read_exactly 2 (rfc_frame fin mkey f @ rest) = Inr ([?b0, b1], ext @ ?body @ rest)"
    unfolding w by (rule read_exactly_app) simp
  have op: "?b0 AND 15 = op" using nibble [OF ok(1)] by simp
  have pl: "(if ?n > 0 then read_exactly (int ?n) (payload @ rest) else Inr ([], payload @ rest)) = Inr (payload, rest)"
    using read_exactly_app [of "int ?n" payload rest] by simp
  have um: "(if ?n > 0 then read_exactly (int ?n) (unmask k payload @ rest) else Inr ([], unmask k payload @ rest))
      = Inr (unmask k payload, rest)" for k
    using read_exactly_app [of "int ?n" "unmask k payload" rest] by (cases payload) (simp_all add: unmask_def)
  show ?thesis
  proof (cases mkey)
    case None
    then show ?thesis using h op b ok pl by (simp add: read_frame_def f Let_def)
  next
    case (Some k)
    then have k: "length k = 4" "k \<noteq> []" using assms(2) by auto
    have "read_exactly 4 (k @ unmask k payload @ rest) = Inr (k, unmask k payload @ rest)"
      using k read_exactly_app [of 4 k] by simp
    then show ?thesis using Some h op b ok um [of k] k(2) by (simp add: read_frame_def f Let_def)
  qed
qed

text \<open>The frames of a peer as they stand on its stream: each with its FIN bit and masking key.\<close>

type_synonym wire_frame = "bool \<times> bytes option \<times> ws_frame"

definition wire_ok :: "int \<Rightarrow> wire_frame \<Rightarrow> bool" where
  "wire_ok max_size w = (case w of (fin, k, f) \<Rightarrow> ws_frame_ok max_size f \<and> (case k of None \<Rightarrow> True | Some x \<Rightarrow> length x = 4))"

definition rfc_stream :: "wire_frame list \<Rightarrow> bytes" where
  "rfc_stream ws = concat (map (\<lambda>(fin, k, f). rfc_frame fin k f) ws)"

lemma read_stream: "list_all (wire_ok max_size) (w # ws) \<Longrightarrow>
   read_frame max_size (rfc_stream (w # ws)) = Inr (snd (snd w), rfc_stream ws)"
  by (cases w) (auto simp: rfc_stream_def wire_ok_def intro!: read_frame_rfc split: option.splits)

lemma read_stream_end: "read_frame max_size (rfc_stream []) = Inl (OtherError ''IncompleteReadError'' [])"
  by (simp add: rfc_stream_def read_frame_def read_exactly_def)

definition relayed :: "wire_frame list \<Rightarrow> ws_frame list" where
  "relayed ws = map (\<lambda>w. fst (relay_frame_ws (snd (snd w)))) ws"

lemma relayed_not_ping: "fst (fst (relay_frame_ws f)) \<noteq> OP_PING"
  by (cases f) (simp add: relay_frame_ws_def model_defs)

text \<open>How far a relay has come: \<open>i\<close> frames of the client and \<open>j\<close> frames of the upstream.\<close>

definition relay_at :: "int \<Rightarrow> wire_frame list \<Rightarrow> wire_frame list \<Rightarrow> nat \<Rightarrow> nat \<Rightarrow> ws_relay \<Rightarrow> bool" where
  "relay_at max_size cs us i j r \<longleftrightarrow> i \<le> length cs \<and> j \<le> length us
     \<and> ws_client_in r = rfc_stream (drop i cs) \<and> ws_upstream_in r = rfc_stream (drop j us)
     \<and> filter (\<lambda>f. fst f \<noteq> OP_PING) (ws_to_upstream r) = relayed (take i cs)
     \<and> ws_to_client r = relayed (take j us)"

lemma relay_frame_stop: "snd (relay_frame_ws f) \<longleftrightarrow> fst f = OP_CLOSE"
  by (cases f) (simp add: relay_frame_ws_def)

lemma relay_step_client:
  assumes "relay_at m cs us i j r" "\<not> ws_done r" "list_all (wire_ok m) cs"
  shows "if i < length cs
    then relay_at m cs us (Suc i) j (relay_step m r FromClient)
         \<and> (ws_done (relay_step m r FromClient) \<longleftrightarrow> fst (snd (snd (cs ! i))) = OP_CLOSE)
    else relay_at m cs us i j (relay_step m r FromClient) \<and> ws_done (relay_step m r FromClient)"
proof (cases "i < length cs")
  case True
  then have d: "drop i cs = cs ! i # drop (Suc i) cs" by (simp add: Cons_nth_drop_Suc)
  have "list_all (wire_ok m) (drop i cs)" using assms(3) by (auto simp: list_all_iff dest: in_set_dropD)
  then have rd: "read_frame m (ws_client_in r) = Inr (snd (snd (cs ! i)), rfc_stream (drop (Suc i) cs))"
    using assms(1) read_stream [of m "cs ! i" "drop (Suc i) cs"] by (simp add: relay_at_def d)
  show ?thesis
    using True assms(1,2) rd relay_frame_stop [of "snd (snd (cs ! i))"] relayed_not_ping [of "snd (snd (cs ! i))"]
    by (auto simp: relay_step_def relay_at_def relayed_def take_Suc_conv_app_nth split: prod.splits)
next
  case False
  then have "i = length cs" using assms(1) by (simp add: relay_at_def)
  then show ?thesis using assms(1,2) by (simp add: relay_step_def relay_at_def read_stream_end)
qed

lemma relay_step_upstream:
  assumes "relay_at m cs us i j r" "\<not> ws_done r" "list_all (wire_ok m) us"
  shows "if j < length us
    then relay_at m cs us i (Suc j) (relay_step m r FromUpstream)
         \<and> (ws_done (relay_step m r FromUpstream) \<longleftrightarrow> fst (snd (snd (us ! j))) = OP_CLOSE)
    else relay_at m cs us i j (relay_step m r FromUpstream) \<and> ws_done (relay_step m r FromUpstream)"
proof (cases "j < length us")
  case True
  then have d: "drop j us = us ! j # drop (Suc j) us" by (simp add: Cons_nth_drop_Suc)
  have "list_all (wire_ok m) (drop j us)" using assms(3) by (auto simp: list_all_iff dest: in_set_dropD)
  then have rd: "read_frame m (ws_upstream_in r) = Inr (snd (snd (us ! j)), rfc_stream (drop (Suc j) us))"
    using assms(1) read_stream [of m "us ! j" "drop (Suc j) us"] by (simp add: relay_at_def d)
  show ?thesis
    using True assms(1,2) rd relay_frame_stop [of "snd (snd (us ! j))"]
    by (auto simp: relay_step_def relay_at_def relayed_def take_Suc_conv_app_nth split: prod.splits)
next
  case False
  then have "j = length us" using assms(1) by (simp add: relay_at_def)
  then show ?thesis using assms(1,2) by (simp add: relay_step_def relay_at_def read_stream_end)
qed

lemma relay_run_at:
  assumes "list_all (wire_ok m) cs" "list_all (wire_ok m) us"
  shows "\<exists>i j. relay_at m cs us i j (relay_run m (relay_init (rfc_stream cs) (rfc_stream us)) es)
    \<and> (\<not> ws_done (relay_run m (relay_init (rfc_stream cs) (rfc_stream us)) es) \<longrightarrow>
         i = count_list es FromClient \<and> j = count_list es FromUpstream
         \<and> list_all (\<lambda>w. fst (snd (snd w)) \<noteq> OP_CLOSE) (take i cs @ take j us))"
proof (induction es rule: rev_induct)
  case Nil
  show ?case
    by (intro exI [of _ 0]) (simp add: relay_run_def relay_init_def relay_at_def relayed_def)
next
  case (snoc e es)
  define r where "r = relay_run m (relay_init (rfc_stream cs) (rfc_stream us)) es"
  have run: "relay_run m (relay_init (rfc_stream cs) (rfc_stream us)) (es @ [e]) = relay_step m r e"
    by (simp add: relay_run_def r_def)
  obtain i j where at: "relay_at m cs us i j r"
    and live: "\<not> ws_done r \<longrightarrow> i = count_list es FromClient \<and> j = count_list es FromUpstream
         \<and> list_all (\<lambda>w. fst (snd (snd w)) \<noteq> OP_CLOSE) (take i cs @ take j us)"
    using snoc.IH unfolding r_def by blast
  show ?case
  proof (cases "ws_done r")
    case True
    then show ?thesis using at unfolding run by (auto simp: relay_step_def)
  next
    case False
    show ?thesis
    proof (cases e)
      case FromClient
      have sp: "i < length cs \<Longrightarrow> take (Suc i) cs = take i cs @ [cs ! i]" by (rule take_Suc_conv_app_nth)
      note step = relay_step_client [OF at False assms(1)]
      show ?thesis
      proof (cases "i < length cs")
        case True
        then show ?thesis unfolding run using step live False FromClient sp
          by - (rule exI [of _ "Suc i"], rule exI [of _ j], auto)
      next
        case past: False
        then show ?thesis unfolding run using step live False FromClient
          by - (rule exI [of _ i], rule exI [of _ j], auto)
      qed
    next
      case FromUpstream
      have sp: "j < length us \<Longrightarrow> take (Suc j) us = take j us @ [us ! j]" by (rule take_Suc_conv_app_nth)
      note step = relay_step_upstream [OF at False assms(2)]
      show ?thesis
      proof (cases "j < length us")
        case True
        then show ?thesis unfolding run using step live False FromUpstream sp
          by - (rule exI [of _ i], rule exI [of _ "Suc j"], auto)
      next
        case past: False
        then show ?thesis unfolding run using step live False FromUpstream
          by - (rule exI [of _ i], rule exI [of _ j], auto)
      qed
    next
      case PingTick
      have "relay_at m cs us i j (relay_step m r PingTick)" "\<not> ws_done (relay_step m r PingTick)"
        using at False by (simp_all add: relay_step_def relay_at_def)
      then show ?thesis unfolding run using live False PingTick
        by - (rule exI [of _ i], rule exI [of _ j], auto)
    qed
  qed
qed


text \<open>The frame codec as a prefix codec: sequences of frames written by the proxy are read back.\<close>

interpretation ws: prefix_codec "\<lambda>f. send_frame (fst f) (snd f)"
  "\<lambda>s. case read_frame m s of Inl _ \<Rightarrow> None | Inr x \<Rightarrow> Some x" "ws_frame_ok m" for m
proof
  fix f :: ws_frame and rest :: bytes
  assume ok: "ws_frame_ok m f"
  then have "send_frame (fst f) (snd f) = rfc_frame True None f"
    by (cases f) (simp add: send_frame_rfc ws_frame_ok_def)
  then show "(case read_frame m (send_frame (fst f) (snd f) @ rest) of Inl _ \<Rightarrow> None | Inr x \<Rightarrow> Some x) = Some (f, rest)"
    using read_frame_rfc [OF ok, of None] by simp
qed

text \<open>WebSocket frames read back: a frame in the format of RFC 6455, final or not, masked or
  not and with any of the three length forms, is read as its opcode and payload and leaves the rest of
  the stream, and so is every frame the proxy writes.\<close>

theorem websocket_frames_read_back:
  assumes "ws_frame_ok m f" and "\<forall>k. key = Some k \<longrightarrow> length k = 4"
  shows "read_frame m (rfc_frame fin key f @ rest) = Inr (f, rest)
    \<and> read_frame m (send_frame (fst f) (snd f) @ rest) = Inr (f, rest)"
  using read_frame_rfc [OF assms] ws.dec_enc [OF assms(1), of rest] by (auto split: sum.splits)

section \<open>Defects\<close>

text \<open>The relay drops the FIN bit that it read and always sets it: the first fragment of a message
  reaches the other side as a complete message.\<close>

lemma fragments_become_final:
  assumes "ws_frame_ok m (OP_TEXT, p)"
  shows "relay_step m (relay_init (rfc_frame False None (OP_TEXT, p)) up) FromClient
    = (relay_init [] up)\<lparr>ws_to_upstream := [(OP_TEXT, p)]\<rparr>
    \<and> send_frame OP_TEXT p = rfc_frame True None (OP_TEXT, p)"
  using read_frame_rfc [OF assms, of None False "[]"] assms
  by (simp add: relay_step_def relay_init_def relay_frame_ws_def send_frame_rfc ws_frame_ok_def model_defs)

text \<open>When the upstream accepts with the correct key, the client is sent the hash of that key and
  not the key itself.\<close>

lemma accept_key_hashed_twice:
  assumes "key = compute_accept_key sha1 client_key"
  shows "choose_accept sha1 client_key key = key"
    and "upgrade_response sha1 (choose_accept sha1 client_key key) None
      = encode (''HTTP/1.1 101 Switching Protocols'' @ crlf @ ''Upgrade: websocket'' @ crlf @ ''Connection: Upgrade'' @ crlf
          @ ''Sec-WebSocket-Accept: '' @ compute_accept_key sha1 key @ crlf @ crlf)"
  using assms by (simp_all add: choose_accept_def upgrade_response_def)

text \<open>The answer of an upstream that refuses the upgrade is written and followed by a TypeError.\<close>

lemma refused_upgrade_raises:
  "snd (handle_websocket_upgrade sha1
     (\<lparr>rq_method = ''GET'', rq_path = ''/'', rq_version = ''HTTP/1.1'', rq_headers = [(''sec-websocket-key'', ''k'')],
       rq_body = [], rq_client_ip = []\<rparr>) (encode (''HTTP/1.1 403 No'' @ crlf @ crlf)))
   = (encode (''HTTP/1.1 403 No'' @ crlf @ crlf),
      UpgradeRaised (TypeError ''object NoneType can't be used in 'await' expression''))"
proof -
  let ?d = "encode (''HTTP/1.1 403 No'' @ crlf @ crlf)"
  have "find_sub CRLF2 ?d = Some 15" by code_simp
  then have "read_until CRLF2 ?d = Inr (?d, [])" by (simp add: read_until_def STREAM_LIMIT_def CRLF2_def crlf_def)
  moreover have "split_max '' '' 2 (hd (split_on crlf (utf8_replace ?d))) = [''HTTP/1.1'', ''403'', ''No'']" by code_simp
  moreover have "py_int ''403'' = Some 403" by code_simp
  ultimately show ?thesis by (simp add: handle_websocket_upgrade_def Let_def dict_get_or_def del: encode_append)
qed

section \<open>Witnesses\<close>

definition demo_client_frames :: "wire_frame list" where
  "demo_client_frames = [(False, Some [1, 2, 3, 4], (OP_TEXT, [65])), (True, None, (OP_PING, []))]"

definition demo_upstream_frames :: "wire_frame list" where
  "demo_upstream_frames = [(True, None, (OP_BINARY, [7]))]"


theorem websocket_frames_read_back_witness:
  "read_frame 1024 (rfc_frame False (Some [1, 2, 3, 4]) (OP_TEXT, [65, 66]) @ [9]) = Inr ((OP_TEXT, [65, 66]), [9])"
  using websocket_frames_read_back [of 1024 "(OP_TEXT, [65, 66])" "Some [1, 2, 3, 4]" False "[9]"]
  by (simp add: ws_frame_ok_def model_defs)

end
