(* ===== verification/Proxy_Status.thy ===== *)
theory Proxy_Status
  imports Balancer Health
begin

text \<open>
  Runtime statistics of a proxy worker (\<^verbatim>\<open>proxy/status.py\<close>) and the state of a connection that they
  report (\<^verbatim>\<open>ConnState\<close> and \<open>_set_state\<close> of \<^verbatim>\<open>proxy/connection.py\<close>).  Uptime is left to the clock.
\<close>

section \<open>The collector\<close>

datatype category = Reading | Writing | Waiting

record status_collector =
  st_accepted :: int
  st_handled :: int
  st_active :: int
  st_requests :: int
  st_reading :: int
  st_writing :: int
  st_waiting :: int

definition status_init :: status_collector where
  "status_init = \<lparr>st_accepted = 0, st_handled = 0, st_active = 0, st_requests = 0, st_reading = 0, st_writing = 0, st_waiting = 0\<rparr>"

definition increment_accepted :: "status_collector \<Rightarrow> status_collector" where
  "increment_accepted s = s\<lparr>st_accepted := st_accepted s + 1, st_active := st_active s + 1\<rparr>"

definition decrement_active :: "status_collector \<Rightarrow> status_collector" where
  "decrement_active s = s\<lparr>st_active := max 0 (st_active s - 1)\<rparr>"

definition increment_handled :: "status_collector \<Rightarrow> status_collector" where
  "increment_handled s = s\<lparr>st_handled := st_handled s + 1, st_requests := st_requests s + 1\<rparr>"

definition enter_state :: "category option \<Rightarrow> status_collector \<Rightarrow> status_collector" where
  "enter_state c s =
     (case c of
        Some Reading \<Rightarrow> s\<lparr>st_reading := st_reading s + 1\<rparr>
      | Some Writing \<Rightarrow> s\<lparr>st_writing := st_writing s + 1\<rparr>
      | Some Waiting \<Rightarrow> s\<lparr>st_waiting := st_waiting s + 1\<rparr>
      | None \<Rightarrow> s)"

definition leave_state :: "category option \<Rightarrow> status_collector \<Rightarrow> status_collector" where
  "leave_state c s =
     (case c of
        Some Reading \<Rightarrow> s\<lparr>st_reading := max 0 (st_reading s - 1)\<rparr>
      | Some Writing \<Rightarrow> s\<lparr>st_writing := max 0 (st_writing s - 1)\<rparr>
      | Some Waiting \<Rightarrow> s\<lparr>st_waiting := max 0 (st_waiting s - 1)\<rparr>
      | None \<Rightarrow> s)"

definition transition_state :: "category option \<Rightarrow> category option \<Rightarrow> status_collector \<Rightarrow> status_collector" where
  "transition_state old new s = enter_state new (leave_state old s)"

text \<open>The snapshot of the status page; the uptime, rounded to a tenth, is an argument.\<close>

definition get_stats :: "real \<Rightarrow> status_collector \<Rightarrow> (string \<times> real) list" where
  "get_stats uptime s =
     [(''uptime_seconds'', uptime), (''active_connections'', of_int (st_active s)),
      (''accepted_connections'', of_int (st_accepted s)), (''handled_connections'', of_int (st_handled s)),
      (''total_requests'', of_int (st_requests s)), (''reading'', of_int (st_reading s)),
      (''writing'', of_int (st_writing s)), (''waiting'', of_int (st_waiting s))]"

section \<open>Summary of the upstreams\<close>

record upstream_block =
  ub_name :: string
  ub_servers :: "upstream_server list"
  ub_algorithm :: string
  ub_max_failures :: int
  ub_fail_timeout :: int
  ub_keepalive :: int

record server_summary =
  ss_host :: string
  ss_state :: string
  ss_active :: int
  ss_failures :: int

definition active_connections :: "balancer option \<Rightarrow> string \<Rightarrow> int \<Rightarrow> int" where
  "active_connections b host port =
     (case b of Some (LeastConnBalancer conns) \<Rightarrow> dict_get_or conns (host @ '':'' @ str_int port) 0 | _ \<Rightarrow> 0)"

definition server_summary_of :: "health_monitor option \<Rightarrow> balancer option \<Rightarrow> upstream_server \<Rightarrow> server_summary" where
  "server_summary_of monitor b server =
     (let health = (case monitor of None \<Rightarrow> None | Some m \<Rightarrow> get_health m (us_host server) (us_port server)) in
      \<lparr>ss_host = us_host server @ '':'' @ str_int (us_port server),
       ss_state = (if us_down server then ''down''
                   else (case health of Some h \<Rightarrow> if sh_unavailable h then ''unavailable'' else ''up'' | None \<Rightarrow> ''up'')),
       ss_active = active_connections b (us_host server) (us_port server),
       ss_failures = (case health of Some h \<Rightarrow> sh_total_failures h | None \<Rightarrow> 0)\<rparr>)"

definition upstream_summary :: "upstream_block list \<Rightarrow> health_monitor option \<Rightarrow> (string, balancer) dict
    \<Rightarrow> (string \<times> server_summary list) list" where
  "upstream_summary upstreams monitor balancers =
     map (\<lambda>u. (ub_name u, map (server_summary_of monitor (dict_get balancers (ub_name u))) (ub_servers u))) upstreams"

section \<open>Connection states\<close>

datatype conn_state = READ_REQUEST | MATCH_ROUTE | CONNECT_UPSTREAM | FORWARD | RESPOND | CONN_CLOSED

fun state_category :: "conn_state option \<Rightarrow> category option" where
  "state_category (Some READ_REQUEST) = Some Reading"
| "state_category (Some MATCH_ROUTE) = Some Waiting"
| "state_category (Some CONNECT_UPSTREAM) = Some Waiting"
| "state_category (Some FORWARD) = Some Waiting"
| "state_category (Some RESPOND) = Some Writing"
| "state_category (Some CONN_CLOSED) = None"
| "state_category None = None"

definition set_state :: "conn_state option \<Rightarrow> conn_state \<Rightarrow> status_collector \<Rightarrow> status_collector" where
  "set_state old new s =
     (if state_category old \<noteq> state_category (Some new)
      then transition_state (state_category old) (state_category (Some new)) s else s)"

section \<open>Many connections\<close>

text \<open>The connections of a worker share one collector.  An event is the acceptance of a connection,
  a change of its state, the end of a request, or its end; a connection is accepted once and does
  nothing after its end.\<close>

record status_system =
  sy_status :: status_collector
  sy_conns :: "(nat, conn_state option) dict"

datatype status_event = Accept nat | SetState nat conn_state | Handled nat | CloseConn nat

fun status_step :: "status_system \<Rightarrow> status_event \<Rightarrow> status_system" where
  "status_step y (Accept c) =
     y\<lparr>sy_status := increment_accepted (sy_status y), sy_conns := dict_set c None (sy_conns y)\<rparr>"
| "status_step y (SetState c new) =
     (case dict_get (sy_conns y) c of
        None \<Rightarrow> y
      | Some old \<Rightarrow> y\<lparr>sy_status := set_state old new (sy_status y), sy_conns := dict_set c (Some new) (sy_conns y)\<rparr>)"
| "status_step y (Handled c) = y\<lparr>sy_status := increment_handled (sy_status y)\<rparr>"
| "status_step y (CloseConn c) =
     (case dict_get (sy_conns y) c of
        None \<Rightarrow> y
      | Some old \<Rightarrow> y\<lparr>sy_status := decrement_active (set_state old CONN_CLOSED (sy_status y)),
                      sy_conns := dict_del c (sy_conns y)\<rparr>)"

fun status_may :: "status_system \<Rightarrow> status_event \<Rightarrow> bool" where
  "status_may y (Accept c) = (\<not> dict_has (sy_conns y) c)"
| "status_may y (SetState c new) = (new \<noteq> CONN_CLOSED)"
| "status_may y _ = True"

definition count_in :: "category \<Rightarrow> (nat, conn_state option) dict \<Rightarrow> int" where
  "count_in k conns = int (length (filter (\<lambda>p. state_category (snd p) = Some k) conns))"

definition status_inv :: "status_system \<Rightarrow> bool" where
  "status_inv y \<longleftrightarrow> dict_wf (sy_conns y)
     \<and> st_active (sy_status y) = int (length (sy_conns y))
     \<and> st_reading (sy_status y) = count_in Reading (sy_conns y)
     \<and> st_writing (sy_status y) = count_in Writing (sy_conns y)
     \<and> st_waiting (sy_status y) = count_in Waiting (sy_conns y)"

definition weight :: "category \<Rightarrow> conn_state option \<Rightarrow> int" where
  "weight k st = (if state_category st = Some k then 1 else 0)"

lemma count_set_new: "\<not> dict_has d c \<Longrightarrow> count_in k (dict_set c st d) = count_in k d + weight k st"
  by (simp add: dict_has_iff dict_set_fresh count_in_def weight_def)

lemma count_del:
  "dict_wf d \<Longrightarrow> dict_get d c = Some old \<Longrightarrow>
     count_in k (dict_del c d) = count_in k d - weight k old \<and> length d = Suc (length (dict_del c d))"
proof (induction d)
  case (Cons p d)
  show ?case
  proof (cases "fst p = c")
    case True
    then have "dict_del c d = d" using Cons.prems by (intro dict_del_fresh) auto
    then show ?thesis using True Cons.prems by (cases p) (auto simp: dict_del_def count_in_def weight_def)
  next
    case False
    then show ?thesis using Cons by (auto simp: dict_del_def count_in_def weight_def)
  qed
qed simp

lemma count_set_old:
  "dict_wf d \<Longrightarrow> dict_get d c = Some old \<Longrightarrow> count_in k (dict_set c st d) = count_in k d - weight k old + weight k st"
proof (induction d)
  case (Cons p d)
  then show ?case by (cases "fst p = c") (auto simp: count_in_def weight_def)
qed simp

lemma count_ge: "dict_wf d \<Longrightarrow> dict_get d c = Some old \<Longrightarrow> weight k old \<le> count_in k d"
  using count_del [of d c old k] by (simp add: count_in_def)

lemma set_state_counts:
  assumes "weight Reading old \<le> st_reading s" "weight Writing old \<le> st_writing s" "weight Waiting old \<le> st_waiting s"
  shows "st_reading (set_state old new s) = st_reading s - weight Reading old + weight Reading (Some new)"
    "st_writing (set_state old new s) = st_writing s - weight Writing old + weight Writing (Some new)"
    "st_waiting (set_state old new s) = st_waiting s - weight Waiting old + weight Waiting (Some new)"
    "st_active (set_state old new s) = st_active s" "st_accepted (set_state old new s) = st_accepted s"
    "st_handled (set_state old new s) = st_handled s"
  using assms
  by (cases "state_category old"; cases "state_category (Some new)";
      auto simp: set_state_def transition_state_def enter_state_def leave_state_def weight_def split: category.splits)+

interpretation worker_status: guarded_machine status_step status_may status_inv
proof
  fix y e
  assume inv: "status_inv y" and may: "status_may y e"
  show "status_inv (status_step y e)"
  proof (cases e)
    case (Accept c)
    then show ?thesis using inv may
      by (auto simp: status_inv_def increment_accepted_def count_set_new weight_def length_dict_set dict_has_iff)
  next
    case (SetState c new)
    show ?thesis
    proof (cases "dict_get (sy_conns y) c")
      case (Some old)
      have d: "dict_wf (sy_conns y)" using inv by (simp add: status_inv_def)
      have "c \<in> fst ` set (sy_conns y)" using Some by (metis map_of_eq_None_iff option.distinct(1))
      then show ?thesis
        using inv SetState Some count_set_old [OF d Some] set_state_counts [of old "sy_status y" new] count_ge [OF d Some]
        by (simp add: status_inv_def length_dict_set)
    qed (use inv SetState in simp)
  next
    case (Handled c)
    then show ?thesis using inv by (simp add: status_inv_def increment_handled_def)
  next
    case (CloseConn c)
    show ?thesis
    proof (cases "dict_get (sy_conns y) c")
      case (Some old)
      have d: "dict_wf (sy_conns y)" using inv by (simp add: status_inv_def)
      show ?thesis
        using inv CloseConn Some count_del [OF d Some] set_state_counts [of old "sy_status y" CONN_CLOSED] count_ge [OF d Some]
        by (simp add: status_inv_def decrement_active_def weight_def [of _ "Some CONN_CLOSED"])
    qed (use inv CloseConn in simp)
  qed
qed

text \<open>The status page counts right: in every interleaving of the connections of a worker, the
  number of active connections is the number of open ones, and the numbers reading, writing and waiting
  are the numbers of open connections in a state of that category.\<close>

theorem status_counts_connections:
  assumes "\<forall>i < length es. status_may (foldl status_step \<lparr>sy_status = status_init, sy_conns = []\<rparr> (take i es)) (es ! i)"
    and "y = foldl status_step \<lparr>sy_status = status_init, sy_conns = []\<rparr> es"
  shows "st_active (sy_status y) = int (card (dom (dict_get (sy_conns y))))
    \<and> st_reading (sy_status y) = int (card {c. \<exists>s. dict_get (sy_conns y) c = Some s \<and> state_category s = Some Reading})
    \<and> st_writing (sy_status y) = int (card {c. \<exists>s. dict_get (sy_conns y) c = Some s \<and> state_category s = Some Writing})
    \<and> st_waiting (sy_status y) = int (card {c. \<exists>s. dict_get (sy_conns y) c = Some s \<and> state_category s = Some Waiting})"
proof -
  have "status_inv \<lparr>sy_status = status_init, sy_conns = []\<rparr>" by (simp add: status_inv_def status_init_def count_in_def)
  then have inv: "status_inv y" unfolding assms(2)
    by (rule worker_status.guarded_run) (use assms(1) in \<open>simp add: worker_status.run_ok_iff\<close>)
  then have d: "dict_wf (sy_conns y)" by (simp add: status_inv_def)
  have card: "count_in k (sy_conns y) = int (card {c. \<exists>s. dict_get (sy_conns y) c = Some s \<and> state_category s = Some k})" for k
  proof -
    let ?f = "filter (\<lambda>p. state_category (snd p) = Some k) (sy_conns y)"
    have "{c. \<exists>s. dict_get (sy_conns y) c = Some s \<and> state_category s = Some k} = fst ` set ?f"
      using d by (force simp: image_iff)
    moreover have "card (fst ` set ?f) = length ?f"
      using distinct_card [of "map fst ?f"] wf_dict_filter [OF d] by simp
    ultimately show ?thesis by (simp add: count_in_def)
  qed
  have "card (dom (dict_get (sy_conns y))) = length (sy_conns y)"
    using distinct_card [OF d] by (simp add: dom_map_of_conv_image_fst)
  then show ?thesis using inv by (simp add: status_inv_def card)
qed

theorem status_counts_connections_witness:
  "st_active (sy_status (foldl status_step \<lparr>sy_status = status_init, sy_conns = []\<rparr>
     [Accept 1, SetState 1 READ_REQUEST, Accept 2, SetState 1 MATCH_ROUTE, CloseConn 2])) = 1"
proof -
  let ?es = "[Accept 1, SetState 1 READ_REQUEST, Accept 2, SetState 1 MATCH_ROUTE, CloseConn 2]"
  have "\<forall>i < length ?es. status_may (foldl status_step \<lparr>sy_status = status_init, sy_conns = []\<rparr> (take i ?es)) (?es ! i)"
    by (simp add: all_less_Suc_split dict_has_def)
  note c = conjunct1 [OF status_counts_connections [OF this refl]]
  have "dom (dict_get (sy_conns (foldl status_step \<lparr>sy_status = status_init, sy_conns = []\<rparr> ?es))) = {1}"
    by (auto simp: dict_del_def split: if_splits)
  then show ?thesis unfolding c by simp
qed

end
