(* ===== verification/Connection.thy ===== *)
theory Connection
  imports Static Websocket Proxy_Status
begin

text \<open>
  The connection coroutine of the reverse proxy (\<^verbatim>\<open>Connection\<close> of \<^verbatim>\<open>proxy/connection.py\<close>) as a
  worker runs it (\<^verbatim>\<open>proxy/worker.py\<close>): reading requests, routing, static files, WebSocket
  upgrades, connecting to an upstream through its balancer and health monitor, forwarding,
  answering, access log entries and the state machine with its status counters.  What the outside
  decides is in the environment: the data read from the client, the stream an upstream answers with
  (or that it cannot be reached), the clock, the random value of the balancer, the events of a
  WebSocket relay.  Requests of one connection are handled one after the other; writes succeed.
\<close>

section \<open>State\<close>

record proxy_env =
  pe_md5 :: "bytes \<Rightarrow> nat"
  pe_rnd :: real
  pe_now :: time
  pe_gzip :: "int \<Rightarrow> bytes \<Rightarrow> bytes"
  pe_sha1 :: "bytes \<Rightarrow> bytes"
  pe_fs :: file_system
  pe_dial :: "string \<Rightarrow> int \<Rightarrow> bytes option"
  pe_ws_events :: "ws_event list"

record access_entry =
  al_method :: string
  al_path :: string
  al_status :: int
  al_body_size :: nat
  al_client_ip :: string

record worker =
  wk_locations :: "location_block list"
  wk_upstreams :: "(string, upstream_block) dict"
  wk_balancers :: "(string, balancer) dict"
  wk_health :: health_monitor
  wk_compressor :: "gzip_compressor option"
  wk_logging :: bool
  wk_log :: "access_entry list"
  wk_status :: status_collector

record connection =
  cx_client_ip :: string
  cx_state :: "conn_state option"
  cx_buffer :: bytes
  cx_out :: bytes
  cx_sent :: "(string \<times> bytes) list"
  cx_closed :: bool

text \<open>What follows a request: the loop goes on, ends, or an exception leaves it.\<close>

datatype turn = Continue | Break | Raised py_exc

definition create_balancers :: "upstream_block list \<Rightarrow> (string, balancer) dict result" where
  "create_balancers us =
     foldl (\<lambda>acc u. case acc of Inl e \<Rightarrow> Inl e
        | Inr d \<Rightarrow> (case create_balancer (ub_algorithm u) of Inl e \<Rightarrow> Inl e | Inr b \<Rightarrow> Inr (dict_set (ub_name u) b d)))
       (Inr []) us"

definition worker_init :: "location_block list \<Rightarrow> upstream_block list \<Rightarrow> gzip_compressor option \<Rightarrow> bool \<Rightarrow> worker result" where
  "worker_init locations us compressor logging =
     (case create_balancers us of
        Inl e \<Rightarrow> Inl e
      | Inr bs \<Rightarrow>
          Inr \<lparr>wk_locations = locations, wk_upstreams = foldl (\<lambda>d u. dict_set (ub_name u) u d) [] us, wk_balancers = bs,
               wk_health = hm_init 3 10, wk_compressor = compressor, wk_logging = logging, wk_log = [],
               wk_status = status_init\<rparr>)"

definition conn_init :: "string \<Rightarrow> connection" where
  "conn_init client_ip = \<lparr>cx_client_ip = client_ip, cx_state = None, cx_buffer = [], cx_out = [], cx_sent = [], cx_closed = False\<rparr>"

type_synonym px = "worker \<times> connection"

definition go_state :: "conn_state \<Rightarrow> px \<Rightarrow> px" where
  "go_state new p = (case p of (wk, cx) \<Rightarrow>
     (wk\<lparr>wk_status := set_state (cx_state cx) new (wk_status wk)\<rparr>, cx\<lparr>cx_state := Some new\<rparr>))"

definition respond :: "http_response \<Rightarrow> px \<Rightarrow> px" where
  "respond r p = (case p of (wk, cx) \<Rightarrow> (wk, cx\<lparr>cx_out := cx_out cx @ send_response r\<rparr>))"

definition send_error :: "int \<Rightarrow> string \<Rightarrow> px \<Rightarrow> px" where
  "send_error status text = respond (error_response status text)"

definition log_access :: "http_request \<Rightarrow> http_response \<Rightarrow> px \<Rightarrow> px" where
  "log_access rq r p = (case p of (wk, cx) \<Rightarrow>
     (if wk_logging wk
      then (wk\<lparr>wk_log := wk_log wk @ [\<lparr>al_method = rq_method rq, al_path = rq_path rq, al_status = rs_status r,
              al_body_size = length (rs_body r), al_client_ip = cx_client_ip cx\<rparr>]\<rparr>, cx)
      else (wk, cx)))"

definition count_handled :: "px \<Rightarrow> px" where
  "count_handled p = (case p of (wk, cx) \<Rightarrow> (wk\<lparr>wk_status := increment_handled (wk_status wk)\<rparr>, cx))"

section \<open>Upstreams\<close>

fun balancer_increment :: "upstream_server \<Rightarrow> balancer \<Rightarrow> balancer" where
  "balancer_increment s (LeastConnBalancer c) = LeastConnBalancer (lc_increment s c)"
| "balancer_increment s b = b"

fun balancer_decrement :: "upstream_server \<Rightarrow> balancer \<Rightarrow> balancer" where
  "balancer_decrement s (LeastConnBalancer c) = LeastConnBalancer (lc_decrement s c)"
| "balancer_decrement s b = b"

definition connect_upstream :: "proxy_env \<Rightarrow> http_request \<Rightarrow> location_block \<Rightarrow> px
    \<Rightarrow> (bytes \<times> upstream_server) option result \<times> px" where
  "connect_upstream e rq location p =
     (let wk = fst p; name = loc_upstream location; bad = (Inr None, send_error 502 ''Bad Gateway'' p) in
      case dict_get (wk_upstreams wk) name of
        None \<Rightarrow> bad
      | Some upstream \<Rightarrow>
     (case dict_get (wk_balancers wk) name of
        None \<Rightarrow> bad
      | Some b \<Rightarrow>
     (case balancer_select (pe_md5 e) (pe_rnd e) b (ub_servers upstream) (rq_client_ip rq) of
        (sel, b') \<Rightarrow>
          (let p' = (wk\<lparr>wk_balancers := dict_set name b' (wk_balancers wk)\<rparr>, snd p) in
           case sel of
             Inl x \<Rightarrow> (Inl x, p')
           | Inr None \<Rightarrow> (Inr None, send_error 502 ''Bad Gateway'' p')
           | Inr (Some server) \<Rightarrow>
               (case pe_dial e (us_host server) (us_port server) of
                  Some stream \<Rightarrow>
                    (Inr (Some (stream, server)),
                     wk\<lparr>wk_health := record_success (us_host server) (us_port server) (wk_health wk),
                        wk_balancers := dict_set name (balancer_increment server b') (wk_balancers wk)\<rparr>, snd p)
                | None \<Rightarrow>
                    (Inr None, send_error 502 ''Bad Gateway''
                       (wk\<lparr>wk_health := record_failure (pe_now e) (us_host server) (us_port server) (wk_health wk),
                           wk_balancers := dict_set name b' (wk_balancers wk)\<rparr>, snd p)))))))"

definition forward_request :: "proxy_env \<Rightarrow> http_request \<Rightarrow> bytes \<Rightarrow> upstream_server \<Rightarrow> location_block \<Rightarrow> px
    \<Rightarrow> http_response result \<times> px" where
  "forward_request e rq stream server location p =
     (let wk = fst p; cx = snd p;
          response = (case read_upstream_response stream of
              Inl x \<Rightarrow> Inl x
            | Inr (r, _) \<Rightarrow> Inr (compress_response (pe_gzip e) (wk_compressor wk) location rq r))
      in (response,
          wk\<lparr>wk_balancers := dict_upd (loc_upstream location) (balancer_decrement server) (wk_balancers wk)\<rparr>,
          cx\<lparr>cx_sent := cx_sent cx @ [(server_key server, upstream_request rq server)]\<rparr>))"

section \<open>One request\<close>

definition after_request :: "http_request \<Rightarrow> turn" where
  "after_request rq = (if is_keepalive rq then Continue else Break)"

definition finish_response :: "http_request \<Rightarrow> http_response \<Rightarrow> px \<Rightarrow> px" where
  "finish_response rq r p = count_handled (log_access rq r (respond r (go_state RESPOND p)))"

text \<open>The WebSocket branch: \<open>client\<close> is what the client still sends.\<close>

definition handle_upgrade :: "proxy_env \<Rightarrow> http_request \<Rightarrow> location_block \<Rightarrow> bytes \<Rightarrow> bytes \<Rightarrow> upstream_server \<Rightarrow> px \<Rightarrow> px \<times> turn" where
  "handle_upgrade e rq location client stream server p =
     (case handle_websocket_upgrade (pe_sha1 e) rq stream of
        (up, down, outcome) \<Rightarrow>
          (let wk = fst p; cx = snd p;
               p1 = (wk, cx\<lparr>cx_sent := cx_sent cx @ [(server_key server, up)], cx_out := cx_out cx @ down\<rparr>)
           in case outcome of
                UpgradeRefused \<Rightarrow> (p1, Break)
              | UpgradeRaised x \<Rightarrow> (p1, Raised x)
              | UpgradeRelay rest \<Rightarrow>
                  (let p2 = count_handled p1;
                       r = snd (ws_close 1000 [] (relay_run (loc_ws_max_message_size location)
                             (relay_init client rest) (pe_ws_events e)));
                       cx2 = snd p2
                   in ((fst p2, cx2\<lparr>cx_sent := cx_sent cx2 @ [(server_key server, ws_wire (ws_to_upstream r))],
                                    cx_out := cx_out cx2 @ ws_wire (ws_to_client r)\<rparr>), Break))))"

text \<open>The part of \<open>handle_request\<close> after the connection attempt.\<close>

definition relay_answer :: "proxy_env \<Rightarrow> bytes \<Rightarrow> http_request \<Rightarrow> location_block
    \<Rightarrow> (bytes \<times> upstream_server) option result \<Rightarrow> px \<Rightarrow> px \<times> turn" where
  "relay_answer e client rq location res p1 =
     (case res of
        Inl x \<Rightarrow> (p1, Raised x)
      | Inr None \<Rightarrow> (p1, after_request rq)
      | Inr (Some (stream, server)) \<Rightarrow>
          if loc_ws_enabled location \<and> is_websocket_upgrade (rq_headers rq)
          then handle_upgrade e rq location client stream server p1
          else
            (case forward_request e rq stream server location (go_state FORWARD p1) of
               (Inl x, p2) \<Rightarrow> (p2, Raised x)
             | (Inr response, p2) \<Rightarrow> (finish_response rq response p2, after_request rq)))"

definition handle_request :: "proxy_env \<Rightarrow> bytes \<Rightarrow> http_request \<Rightarrow> px \<Rightarrow> px \<times> turn" where
  "handle_request e client rq p0 =
     (let p = go_state MATCH_ROUTE p0 in
      case match_route (wk_locations (fst p)) (rq_path rq) of
        None \<Rightarrow> (send_error 404 ''Not Found'' p, after_request rq)
      | Some location \<Rightarrow>
          if loc_root location \<noteq> [] \<and> rq_method rq = ''GET'' then
            (finish_response rq (serve_static_file (pe_fs e) (rq_path rq) (loc_root location) location) p, after_request rq)
          else
            (case connect_upstream e rq location (go_state CONNECT_UPSTREAM p) of
               (res, p1) \<Rightarrow> relay_answer e client rq location res p1))"

section \<open>The connection loop\<close>

definition close_conn :: "px \<Rightarrow> px" where
  "close_conn p = (case go_state CONN_CLOSED (fst p, (snd p)\<lparr>cx_closed := True\<rparr>) of (wk, cx) \<Rightarrow>
     (wk\<lparr>wk_status := decrement_active (wk_status wk)\<rparr>, cx))"

lemma read_request_shorter:
  "read_request ip b reads = Some (Inr (Some rq, b', reads')) \<Longrightarrow> length reads' < length reads"
proof (induction reads arbitrary: b)
  case (Cons d reads)
  then show ?case
    by (cases "feed b d") (force split: if_splits sum.splits prod.splits option.splits)+
qed simp

text \<open>\<open>None\<close> when the request parser does not return.  The environment may change from request to
  request.\<close>

function serve_loop :: "(nat \<Rightarrow> proxy_env) \<Rightarrow> bytes list \<Rightarrow> px \<Rightarrow> px option" where
  "serve_loop env reads p0 =
     (let p = go_state READ_REQUEST p0; cx = snd p in
      case read_request (cx_client_ip cx) (cx_buffer cx) reads of
        None \<Rightarrow> None
      | Some (Inl _) \<Rightarrow> Some p
      | Some (Inr (None, buffer, _)) \<Rightarrow> Some (fst p, cx\<lparr>cx_buffer := buffer\<rparr>)
      | Some (Inr (Some rq, buffer, reads')) \<Rightarrow>
          (case handle_request (env (length reads)) (concat reads') rq (fst p, cx\<lparr>cx_buffer := buffer\<rparr>) of
             (p', Continue) \<Rightarrow> serve_loop env reads' p'
           | (p', _) \<Rightarrow> Some p'))"
  by pat_completeness auto
termination by (relation "measure (\<lambda>(env, reads, p). length reads)") (auto dest: read_request_shorter)

declare serve_loop.simps [simp del]

definition handle_connection :: "(nat \<Rightarrow> proxy_env) \<Rightarrow> bytes list \<Rightarrow> string \<Rightarrow> worker \<Rightarrow> px option" where
  "handle_connection env reads client_ip wk =
     map_option close_conn (serve_loop env reads (wk\<lparr>wk_status := increment_accepted (wk_status wk)\<rparr>, conn_init client_ip))"

section \<open>Every request is answered once\<close>

lemma go_state_simps [simp]:
  "cx_out (snd (go_state st p)) = cx_out (snd p)" "cx_client_ip (snd (go_state st p)) = cx_client_ip (snd p)"
  "wk_balancers (fst (go_state st p)) = wk_balancers (fst p)" "wk_locations (fst (go_state st p)) = wk_locations (fst p)"
  "wk_upstreams (fst (go_state st p)) = wk_upstreams (fst p)" "wk_health (fst (go_state st p)) = wk_health (fst p)"
  "cx_state (snd (go_state st p)) = Some st"
  "wk_status (fst (go_state st p)) = set_state (cx_state (snd p)) st (wk_status (fst p))"
  by (simp_all add: go_state_def split: prod.splits)

lemma respond_simps [simp]:
  "fst (respond r p) = fst p" "cx_out (snd (respond r p)) = cx_out (snd p) @ send_response r"
  "cx_state (snd (respond r p)) = cx_state (snd p)"
  by (simp_all add: respond_def split: prod.splits)

lemma send_error_simps [simp]:
  "fst (send_error c t p) = fst p" "cx_out (snd (send_error c t p)) = cx_out (snd p) @ send_response (error_response c t)"
  "cx_state (snd (send_error c t p)) = cx_state (snd p)"
  by (simp_all add: send_error_def)

lemma finish_simps [simp]:
  "cx_out (snd (finish_response rq r p)) = cx_out (snd p) @ send_response r"
  "wk_balancers (fst (finish_response rq r p)) = wk_balancers (fst p)"
  "cx_state (snd (finish_response rq r p)) = Some RESPOND"
  "wk_status (fst (finish_response rq r p)) = increment_handled (set_state (cx_state (snd p)) RESPOND (wk_status (fst p)))"
  by (simp_all add: finish_response_def count_handled_def log_access_def respond_def go_state_def split: prod.splits)

lemma connect_out:
  assumes "connect_upstream e rq location p = (res, p')"
  shows "(case res of Inr None \<Rightarrow> cx_out (snd p') = cx_out (snd p) @ send_response (error_response 502 ''Bad Gateway'')
     | _ \<Rightarrow> cx_out (snd p') = cx_out (snd p))"
    and "cx_state (snd p') = cx_state (snd p)" and "wk_status (fst p') = wk_status (fst p)"
  using assms by (auto simp: connect_upstream_def Let_def split: option.splits prod.splits sum.splits)

lemma forward_out:
  "forward_request e rq stream server location p = (res, p') \<Longrightarrow> cx_out (snd p') = cx_out (snd p)"
  "forward_request e rq stream server location p = (res, p') \<Longrightarrow> cx_state (snd p') = cx_state (snd p)"
  "forward_request e rq stream server location p = (res, p') \<Longrightarrow> wk_status (fst p') = wk_status (fst p)"
  by (auto simp: forward_request_def Let_def)

lemma handle_routed:
  assumes "match_route (wk_locations (fst p)) (rq_path rq) = Some location"
    and "\<not> (loc_root location \<noteq> [] \<and> rq_method rq = ''GET'')"
    and "connect_upstream e rq location (go_state CONNECT_UPSTREAM (go_state MATCH_ROUTE p)) = (res, p1)"
  shows "handle_request e client rq p = relay_answer e client rq location res p1"
  using assms by (auto simp: handle_request_def Let_def)


section \<open>Connection counts\<close>

definition counts_ok :: "(string, balancer) dict \<Rightarrow> bool" where
  "counts_ok bs \<longleftrightarrow> (\<forall>name b host port. dict_get bs name = Some b \<longrightarrow> 0 \<le> active_connections (Some b) host port)"

lemma active_key: "active_connections (Some (LeastConnBalancer c)) (us_host s) (us_port s) = dict_get_or c (server_key s) 0"
  by (simp add: active_connections_def server_key_def)

lemma select_counts: "active_connections (Some (snd (balancer_select m r b servers ip))) host port = active_connections (Some b) host port"
  by (cases b) (auto simp: active_connections_def lc_select_def Let_def split: prod.splits)

lemma inc_dec_counts:
  assumes "0 \<le> active_connections (Some b) (us_host s) (us_port s)"
  shows "active_connections (Some (balancer_decrement s (balancer_increment s b))) host port = active_connections (Some b) host port"
proof (cases b)
  case (LeastConnBalancer c)
  then have "0 \<le> dict_get_or c (server_key s) 0" using assms by (simp add: active_key)
  then show ?thesis using LeastConnBalancer
    by (auto simp: active_connections_def lc_increment_def lc_decrement_def dict_get_or_def)
qed (simp_all add: active_connections_def)

lemma connect_counts:
  assumes "connect_upstream e rq location p = (res, p')"
  shows "(\<exists>s stream b. res = Inr (Some (stream, s)) \<and> dict_get (wk_balancers (fst p)) (loc_upstream location) = Some b
       \<and> wk_balancers (fst p') = dict_set (loc_upstream location)
            (balancer_increment s (snd (balancer_select (pe_md5 e) (pe_rnd e) b
               (ub_servers (the (dict_get (wk_upstreams (fst p)) (loc_upstream location)))) (rq_client_ip rq)))) (wk_balancers (fst p)))
     \<or> ((\<forall>x. res \<noteq> Inr (Some x)) \<and> (\<forall>name host port. active_connections (dict_get (wk_balancers (fst p')) name) host port
            = active_connections (dict_get (wk_balancers (fst p)) name) host port))"
proof -
  have sel: "active_connections (Some b') host port = active_connections (Some b) host port"
    if "balancer_select m r b servers ip = (sel, b')" for m r b servers ip sel b' host port
    using select_counts [of m r b servers ip host port] that by simp
  show ?thesis using assms
    by (auto simp: connect_upstream_def Let_def sel split: option.splits prod.splits sum.splits if_splits)
qed

text \<open>Connection counts balance: handling a request that is no WebSocket upgrade leaves the
  number of active connections of every server, as least-connections balancing and the status page
  use it, as it was, whether the request succeeds, is refused or ends in an exception.\<close>

theorem connection_counts_balanced:
  assumes "handle_request e client rq p = (p', t)" and "\<not> is_websocket_upgrade (rq_headers rq)"
    and "counts_ok (wk_balancers (fst p))"
  shows "active_connections (dict_get (wk_balancers (fst p')) name) host port
    = active_connections (dict_get (wk_balancers (fst p)) name) host port"
proof (cases "match_route (wk_locations (fst p)) (rq_path rq)")
  case None
  then show ?thesis using assms by (auto simp: handle_request_def)
next
  case (Some location)
  show ?thesis
  proof (cases "loc_root location \<noteq> [] \<and> rq_method rq = ''GET''")
    case True
    then show ?thesis using assms Some by (auto simp: handle_request_def)
  next
    case False
    let ?p = "go_state CONNECT_UPSTREAM (go_state MATCH_ROUTE p)" and ?n = "loc_upstream location"
    obtain res p1 where c: "connect_upstream e rq location ?p = (res, p1)" by (rule prod.exhaust)
    have h: "handle_request e client rq p = relay_answer e client rq location res p1"
      by (rule handle_routed [OF Some False c])
    from connect_counts [OF c] show ?thesis
    proof (elim disjE exE conjE)
      fix s stream b
      assume r: "res = Inr (Some (stream, s))" and b: "dict_get (wk_balancers (fst ?p)) ?n = Some b"
        and bs: "wk_balancers (fst p1) = dict_set ?n (balancer_increment s (snd (balancer_select (pe_md5 e) (pe_rnd e) b
               (ub_servers (the (dict_get (wk_upstreams (fst ?p)) ?n))) (rq_client_ip rq)))) (wk_balancers (fst ?p))"
      let ?b = "snd (balancer_select (pe_md5 e) (pe_rnd e) b (ub_servers (the (dict_get (wk_upstreams (fst ?p)) ?n))) (rq_client_ip rq))"
      obtain resp p2 where f: "forward_request e rq stream s location (go_state FORWARD p1) = (resp, p2)" by (rule prod.exhaust)
      have p2: "wk_balancers (fst p2) = dict_upd ?n (balancer_decrement s) (wk_balancers (fst p1))"
        using f by (auto simp: forward_request_def Let_def)
      have "wk_balancers (fst p') = wk_balancers (fst p2)"
        using assms(1,2) h r f by (cases resp) (auto simp: relay_answer_def)
      then have g: "dict_get (wk_balancers (fst p')) name = (if name = ?n then Some (balancer_decrement s (balancer_increment s ?b))
          else dict_get (wk_balancers (fst p)) name)"
        using p2 bs by simp
      have "0 \<le> active_connections (Some ?b) (us_host s) (us_port s)"
        using assms(3) b unfolding select_counts counts_ok_def by simp
      then show ?thesis using g b inc_dec_counts [of ?b s host port] by (simp add: select_counts)
    next
      assume n: "\<forall>x. res \<noteq> Inr (Some x)"
        and same: "\<forall>name host port. active_connections (dict_get (wk_balancers (fst p1)) name) host port
            = active_connections (dict_get (wk_balancers (fst ?p)) name) host port"
      have "p' = p1" using assms(1) h n by (auto simp: relay_answer_def split: sum.splits option.splits)
      then show ?thesis using same by simp
    qed
  qed
qed

section \<open>Status counters of a connection\<close>

text \<open>The counters are those before the connection plus the connection itself.\<close>

definition tracks :: "status_collector \<Rightarrow> px \<Rightarrow> bool" where
  "tracks base p \<longleftrightarrow>
     st_reading (wk_status (fst p)) = st_reading base + weight Reading (cx_state (snd p))
     \<and> st_writing (wk_status (fst p)) = st_writing base + weight Writing (cx_state (snd p))
     \<and> st_waiting (wk_status (fst p)) = st_waiting base + weight Waiting (cx_state (snd p))
     \<and> st_active (wk_status (fst p)) = st_active base \<and> st_accepted (wk_status (fst p)) = st_accepted base"

definition counters_ok :: "status_collector \<Rightarrow> bool" where
  "counters_ok s \<longleftrightarrow> 0 \<le> st_active s \<and> 0 \<le> st_reading s \<and> 0 \<le> st_writing s \<and> 0 \<le> st_waiting s"

lemma tracks_set_state:
  assumes "tracks base p" "counters_ok base" "cx_state (snd p') = Some st"
    and "wk_status (fst p') = set_state (cx_state (snd p)) st (wk_status (fst p))"
  shows "tracks base p'"
  using assms set_state_counts [of "cx_state (snd p)" "wk_status (fst p)" st] by (simp add: tracks_def counters_ok_def)

lemma tracks_go: "tracks base p \<Longrightarrow> counters_ok base \<Longrightarrow> tracks base (go_state st p)"
  by (rule tracks_set_state) simp_all

lemma tracks_same:
  "tracks base p \<Longrightarrow> wk_status (fst p') = wk_status (fst p) \<Longrightarrow> cx_state (snd p') = cx_state (snd p) \<Longrightarrow> tracks base p'"
  by (simp add: tracks_def)

lemma tracks_handled:
  "tracks base p \<Longrightarrow> wk_status (fst p') = increment_handled (wk_status (fst p)) \<Longrightarrow> cx_state (snd p') = cx_state (snd p)
     \<Longrightarrow> tracks base p'"
  by (simp add: tracks_def increment_handled_def)

lemma tracks_finish:
  assumes "tracks base p" "counters_ok base"
  shows "tracks base (finish_response rq r p)"
  by (rule tracks_handled [OF tracks_go [OF assms, of RESPOND]]) simp_all

lemma tracks_upgrade: "tracks base p \<Longrightarrow> tracks base (fst (handle_upgrade e rq location client stream server p))"
proof -
  assume t: "tracks base p"
  have "wk_status (fst (fst (handle_upgrade e rq location client stream server p))) \<in>
      {wk_status (fst p), increment_handled (wk_status (fst p))}
    \<and> cx_state (snd (fst (handle_upgrade e rq location client stream server p))) = cx_state (snd p)"
    by (auto simp: handle_upgrade_def count_handled_def Let_def split: prod.splits upgrade_outcome.splits)
  then show ?thesis using t tracks_same tracks_handled by blast
qed

lemma tracks_request:
  assumes "tracks base p" "counters_ok base"
  shows "tracks base (fst (handle_request e client rq p))"
proof (cases "match_route (wk_locations (fst p)) (rq_path rq)")
  case None
  then show ?thesis using tracks_same [OF tracks_go [OF assms, of MATCH_ROUTE]]
    by (simp add: handle_request_def)
next
  case (Some location)
  let ?p = "go_state CONNECT_UPSTREAM (go_state MATCH_ROUTE p)"
  show ?thesis
  proof (cases "loc_root location \<noteq> [] \<and> rq_method rq = ''GET''")
    case True
    then show ?thesis using Some tracks_finish [OF tracks_go [OF assms] assms(2)] by (simp add: handle_request_def)
  next
    case False
    obtain res p1 where c: "connect_upstream e rq location ?p = (res, p1)" by (rule prod.exhaust)
    have h: "handle_request e client rq p = relay_answer e client rq location res p1"
      by (rule handle_routed [OF Some False c])
    have t1: "tracks base p1"
      by (rule tracks_same [OF tracks_go [OF tracks_go [OF assms] assms(2)] connect_out(3) [OF c] connect_out(2) [OF c]])
    have fw: "tracks base (snd (forward_request e rq stream server location (go_state FORWARD p1)))" for stream server
      by (rule tracks_same [OF tracks_go [OF t1 assms(2), of FORWARD]]) (simp_all add: forward_request_def Let_def)
    show ?thesis unfolding h relay_answer_def
      using t1 fw tracks_upgrade [OF t1] tracks_finish [OF _ assms(2)]
      by (auto split: sum.split option.split prod.split) (metis snd_conv)+
  qed
qed

lemma tracks_loop:
  assumes "counters_ok base"
  shows "tracks base p \<Longrightarrow> serve_loop env reads p = Some p' \<Longrightarrow> tracks base p'"
proof (induction env reads p rule: serve_loop.induct)
  case (1 env reads p0)
  let ?p = "go_state READ_REQUEST p0"
  have t: "tracks base ?p" by (rule tracks_go [OF "1.prems"(1) assms])
  have tb: "tracks base (fst ?p, (snd ?p)\<lparr>cx_buffer := b\<rparr>)" for b by (rule tracks_same [OF t]) simp_all
  note eq = "1.prems"(2) [unfolded serve_loop.simps [of env reads p0] Let_def]
  consider (bad) x where "read_request (cx_client_ip (snd ?p)) (cx_buffer (snd ?p)) reads = Some (Inl x)"
    | (eof) b rs where "read_request (cx_client_ip (snd ?p)) (cx_buffer (snd ?p)) reads = Some (Inr (None, b, rs))"
    | (rq) rq b rs where "read_request (cx_client_ip (snd ?p)) (cx_buffer (snd ?p)) reads = Some (Inr (Some rq, b, rs))"
    using eq by (auto split: option.splits sum.splits)
  then show ?case
  proof cases
    case bad
    then show ?thesis using eq t by simp
  next
    case eof
    then show ?thesis using eq tb by auto
  next
    case rq
    obtain q tn where q: "handle_request (env (length reads)) (concat rs) rq (fst ?p, (snd ?p)\<lparr>cx_buffer := b\<rparr>) = (q, tn)"
      by (rule prod.exhaust)
    have tq: "tracks base q" using tracks_request [OF tb assms, of "env (length reads)" "concat rs" rq b] q by simp
    show ?thesis
    proof (cases tn)
      case Continue
      then show ?thesis using "1.IH" [OF refl refl rq refl refl refl refl q [symmetric] Continue tq] eq rq q by simp
    qed (use eq rq q tq in simp_all)
  qed
qed

text \<open>C31: a finished connection leaves the status counters balanced: whatever requests it carried
  and however it ended, one connection more has been accepted and the numbers of active, reading,
  writing and waiting connections are as before.\<close>

theorem connection_status_balanced:
  assumes "handle_connection env reads client_ip wk = Some (wk', cx')" and "counters_ok (wk_status wk)"
  shows "st_accepted (wk_status wk') = st_accepted (wk_status wk) + 1 \<and> st_active (wk_status wk') = st_active (wk_status wk)
    \<and> st_reading (wk_status wk') = st_reading (wk_status wk) \<and> st_writing (wk_status wk') = st_writing (wk_status wk)
    \<and> st_waiting (wk_status wk') = st_waiting (wk_status wk)"
proof -
  let ?base = "increment_accepted (wk_status wk)"
  let ?p = "(wk\<lparr>wk_status := ?base\<rparr>, conn_init client_ip)"
  obtain q where q: "serve_loop env reads ?p = Some q" "(wk', cx') = close_conn q"
    using assms(1) by (auto simp: handle_connection_def)
  have base: "counters_ok ?base" using assms(2) by (simp add: counters_ok_def increment_accepted_def)
  have "tracks ?base ?p" by (simp add: tracks_def conn_init_def weight_def)
  then have "tracks ?base q" by (rule tracks_loop [OF base _ q(1)])
  then have t: "tracks ?base (fst q, (snd q)\<lparr>cx_closed := True\<rparr>)" by (rule tracks_same) simp_all
  have "tracks ?base (go_state CONN_CLOSED (fst q, (snd q)\<lparr>cx_closed := True\<rparr>))" by (rule tracks_go [OF t base])
  moreover have "wk_status wk' = decrement_active (wk_status (fst (go_state CONN_CLOSED (fst q, (snd q)\<lparr>cx_closed := True\<rparr>))))"
    using q(2) by (auto simp del: go_state_simps simp: close_conn_def split: prod.splits)
  ultimately show ?thesis using assms(2)
    by (simp add: tracks_def weight_def decrement_active_def increment_accepted_def counters_ok_def)
qed

section \<open>Defects\<close>

text \<open>The choice of a server ignores the health monitor.\<close>

lemma unhealthy_servers_selected:
  "fst (connect_upstream e rq location (wk\<lparr>wk_health := h\<rparr>, cx)) = fst (connect_upstream e rq location (wk, cx))"
  by (auto simp: connect_upstream_def Let_def split: option.splits prod.splits sum.splits)

text \<open>A WebSocket connection is counted when it opens and never uncounted.\<close>

lemma upgrade_keeps_balancers:
  "wk_balancers (fst (fst (handle_upgrade e rq location client stream server p))) = wk_balancers (fst p)"
  by (auto simp: handle_upgrade_def count_handled_def Let_def split: prod.splits upgrade_outcome.splits)

section \<open>Witnesses\<close>

definition demo_env :: proxy_env where
  "demo_env = \<lparr>pe_md5 = (\<lambda>_. 0), pe_rnd = 0, pe_now = 0, pe_gzip = (\<lambda>_ b. b), pe_sha1 = id, pe_fs = demo_fs ''/srv/www/a.txt'',
     pe_dial = (\<lambda>_ _. None), pe_ws_events = []\<rparr>"

definition demo_worker :: worker where
  "demo_worker = \<lparr>wk_locations = [], wk_upstreams = [], wk_balancers = [(''u'', LeastConnBalancer [(''h:1'', 2)])],
     wk_health = hm_init 3 10, wk_compressor = None, wk_logging = False, wk_log = [], wk_status = status_init\<rparr>"

definition demo_get :: http_request where
  "demo_get = \<lparr>rq_method = ''GET'', rq_path = ''/x'', rq_version = ''HTTP/1.1'', rq_headers = [], rq_body = [],
     rq_client_ip = ''10.0.0.7''\<rparr>"

lemma demo_get_plain: "\<not> is_websocket_upgrade (rq_headers demo_get)"
  by (simp add: demo_get_def is_websocket_upgrade_def dict_get_or_def lower_def)


theorem connection_counts_balanced_witness:
  "active_connections (dict_get (wk_balancers (fst (fst (handle_request demo_env [] demo_get (demo_worker, conn_init ''10.0.0.7''))))) ''u'') ''h'' 1 = 2"
proof -
  let ?p = "(demo_worker, conn_init ''10.0.0.7'')"
  have ok: "counts_ok (wk_balancers (fst ?p))"
    by (auto simp: counts_ok_def demo_worker_def active_connections_def dict_get_or_def)
  have "dict_get_or [(''h:1'', 2 :: int)] (''h'' @ '':'' @ str_int 1) 0 = 2" by code_simp
  then have "active_connections (dict_get (wk_balancers (fst ?p)) ''u'') ''h'' 1 = 2"
    by (simp add: demo_worker_def active_connections_def)
  then show ?thesis
    using connection_counts_balanced [OF prod.collapse [symmetric] demo_get_plain ok, of demo_env "[]" "''u''" "''h''" 1]
    by simp
qed

theorem connection_status_balanced_witness:
  "\<exists>wk' cx'. handle_connection (\<lambda>_. demo_env) [] ''10.0.0.7'' demo_worker = Some (wk', cx') \<and> st_active (wk_status wk') = 0"
proof -
  have "\<exists>wk' cx'. handle_connection (\<lambda>_. demo_env) [] ''10.0.0.7'' demo_worker = Some (wk', cx')"
    by (simp add: handle_connection_def serve_loop.simps Let_def)
  then obtain wk' cx' where h: "handle_connection (\<lambda>_. demo_env) [] ''10.0.0.7'' demo_worker = Some (wk', cx')" by blast
  have "counters_ok (wk_status demo_worker)" by (simp add: demo_worker_def counters_ok_def status_init_def)
  from connection_status_balanced [OF h this] h show ?thesis by (simp add: demo_worker_def status_init_def)
qed

end
