(* ===== verification/Pool.thy ===== *)
theory Pool
  imports Bytes
begin

text \<open>
  The pool of keep-alive connections to upstream servers (\<^verbatim>\<open>proxy/upstream.py\<close>).  A stream pair is
  a number (its identity), the clock and the outcome of opening a connection are arguments.
  \<^verbatim>\<open>release\<close> and \<^verbatim>\<open>close_connection\<close> act on the first connection with the given writer.
\<close>

section \<open>Model\<close>

record pooled_connection =
  pc_writer :: nat
  pc_host :: string
  pc_port :: int
  pc_created_at :: time
  pc_last_used :: time
  pc_in_use :: bool

record upstream_pool =
  up_max_idle :: int
  up_idle_timeout :: time
  up_pools :: "(string, pooled_connection list) dict"
  up_closed :: "nat list"

definition pool_init :: "int \<Rightarrow> time \<Rightarrow> upstream_pool" where
  "pool_init max_idle_per_server idle_timeout =
     \<lparr>up_max_idle = max_idle_per_server, up_idle_timeout = idle_timeout, up_pools = [], up_closed = []\<rparr>"

definition pool_key :: "string \<Rightarrow> int \<Rightarrow> string" where
  "pool_key host port = host @ '':'' @ str_int port"

definition pool_is_stale :: "upstream_pool \<Rightarrow> pooled_connection \<Rightarrow> time \<Rightarrow> bool" where
  "pool_is_stale p c now \<longleftrightarrow> now - pc_last_used c > up_idle_timeout p"

text \<open>The first element that satisfies a test, changed or removed.\<close>

fun update_first :: "('a \<Rightarrow> bool) \<Rightarrow> ('a \<Rightarrow> 'a) \<Rightarrow> 'a list \<Rightarrow> 'a list" where
  "update_first P f [] = []"
| "update_first P f (x # xs) = (if P x then f x # xs else x # update_first P f xs)"

fun remove_first :: "('a \<Rightarrow> bool) \<Rightarrow> 'a list \<Rightarrow> 'a list" where
  "remove_first P [] = []"
| "remove_first P (x # xs) = (if P x then xs else x # remove_first P xs)"

text \<open>\<open>fresh\<close> is the writer that opening a connection yields, or the exception it raises.\<close>

definition get_connection :: "time \<Rightarrow> string \<Rightarrow> int \<Rightarrow> nat result \<Rightarrow> upstream_pool \<Rightarrow> nat result \<times> upstream_pool" where
  "get_connection now host port fresh p =
     (let key = pool_key host port; pool = dict_get_or (up_pools p) key [];
          idle = (\<lambda>c. \<not> pc_in_use c \<and> \<not> pool_is_stale p c now)
      in case find idle pool of
           Some c \<Rightarrow>
             (Inr (pc_writer c),
              p\<lparr>up_pools := dict_upd key (update_first idle (\<lambda>c. c\<lparr>pc_in_use := True, pc_last_used := now\<rparr>)) (up_pools p)\<rparr>)
         | None \<Rightarrow>
             (case fresh of
                Inl e \<Rightarrow> (Inl e, p)
              | Inr w \<Rightarrow>
                  (Inr w, p\<lparr>up_pools := dict_set key
                     (pool @ [\<lparr>pc_writer = w, pc_host = host, pc_port = port, pc_created_at = now, pc_last_used = now,
                               pc_in_use = True\<rparr>]) (up_pools p)\<rparr>)))"

definition release :: "time \<Rightarrow> string \<Rightarrow> int \<Rightarrow> nat \<Rightarrow> upstream_pool \<Rightarrow> upstream_pool" where
  "release now host port w p =
     (let key = pool_key host port; pool = dict_get_or (up_pools p) key [] in
      if \<exists>c \<in> set pool. pc_writer c = w
      then p\<lparr>up_pools := dict_upd key (update_first (\<lambda>c. pc_writer c = w) (\<lambda>c. c\<lparr>pc_in_use := False, pc_last_used := now\<rparr>)) (up_pools p)\<rparr>
      else p\<lparr>up_closed := up_closed p @ [w]\<rparr>)"

definition close_connection :: "string \<Rightarrow> int \<Rightarrow> nat \<Rightarrow> upstream_pool \<Rightarrow> upstream_pool" where
  "close_connection host port w p =
     (let key = pool_key host port; pool = dict_get_or (up_pools p) key [] in
      if \<exists>c \<in> set pool. pc_writer c = w
      then p\<lparr>up_pools := dict_upd key (remove_first (\<lambda>c. pc_writer c = w)) (up_pools p), up_closed := up_closed p @ [w]\<rparr>
      else p)"

definition expired_idle :: "upstream_pool \<Rightarrow> time \<Rightarrow> pooled_connection \<Rightarrow> bool" where
  "expired_idle p now c \<longleftrightarrow> \<not> pc_in_use c \<and> pool_is_stale p c now"

definition prune_idle :: "time \<Rightarrow> upstream_pool \<Rightarrow> nat \<times> upstream_pool" where
  "prune_idle now p =
     (let dead = concat (map (\<lambda>kv. filter (expired_idle p now) (snd kv)) (up_pools p)) in
      (length dead,
       p\<lparr>up_pools := filter (\<lambda>kv. snd kv \<noteq> []) (map (\<lambda>kv. (fst kv, filter (\<lambda>c. \<not> expired_idle p now c) (snd kv))) (up_pools p)),
         up_closed := up_closed p @ map pc_writer dead\<rparr>))"

definition pool_conns :: "upstream_pool \<Rightarrow> pooled_connection list" where
  "pool_conns p = concat (map snd (up_pools p))"

definition pool_active :: "upstream_pool \<Rightarrow> nat" where
  "pool_active p = length (filter pc_in_use (pool_conns p))"

definition pool_idle :: "upstream_pool \<Rightarrow> nat" where
  "pool_idle p = length (filter (\<lambda>c. \<not> pc_in_use c) (pool_conns p))"

definition pool_shutdown :: "upstream_pool \<Rightarrow> upstream_pool" where
  "pool_shutdown p = p\<lparr>up_pools := [], up_closed := up_closed p @ map pc_writer (pool_conns p)\<rparr>"

section \<open>Exclusive use\<close>

text \<open>A run of the pool with its users: \<open>held\<close> are the writers handed out and not given back.
  The operating system never hands out a writer that is still open.\<close>

datatype pool_event =
    Get time string int "nat result"
  | Release time string int nat
  | CloseOne string int nat
  | Prune time
  | Shutdown

fun pool_step :: "upstream_pool \<times> nat list \<Rightarrow> pool_event \<Rightarrow> upstream_pool \<times> nat list" where
  "pool_step (p, held) (Get now h o' fresh) =
     (case get_connection now h o' fresh p of (Inr w, p') \<Rightarrow> (p', w # held) | (Inl _, p') \<Rightarrow> (p', held))"
| "pool_step (p, held) (Release now h o' w) = (release now h o' w p, remove1 w held)"
| "pool_step (p, held) (CloseOne h o' w) = (close_connection h o' w p, remove1 w held)"
| "pool_step (p, held) (Prune now) = (snd (prune_idle now p), held)"
| "pool_step (p, held) Shutdown = (pool_shutdown p, [])"

fun pool_may :: "upstream_pool \<times> nat list \<Rightarrow> pool_event \<Rightarrow> bool" where
  "pool_may (p, held) (Get now h o' fresh) =
     (\<forall>w. fresh = Inr w \<longrightarrow> w \<notin> set (map pc_writer (pool_conns p)) \<and> w \<notin> set held)"
| "pool_may (p, held) (Release now h o' w) =
     (\<exists>c \<in> set (dict_get_or (up_pools p) (pool_key h o') []). pc_writer c = w \<and> pc_in_use c)"
| "pool_may (p, held) (CloseOne h o' w) =
     (\<exists>c \<in> set (dict_get_or (up_pools p) (pool_key h o') []). pc_writer c = w \<and> pc_in_use c)"
| "pool_may (p, held) _ = True"

definition pool_inv :: "upstream_pool \<times> nat list \<Rightarrow> bool" where
  "pool_inv s \<longleftrightarrow> dict_wf (up_pools (fst s)) \<and> distinct (map pc_writer (pool_conns (fst s))) \<and> distinct (snd s)
     \<and> set (snd s) = pc_writer ` {c \<in> set (pool_conns (fst s)). pc_in_use c}"

lemma dict_split:
  assumes "dict_wf d" "dict_get d k = Some v"
  shows "\<exists>A B. d = A @ (k, v) # B \<and> (\<forall>f. dict_upd k f d = A @ (k, f v) # B) \<and> (\<forall>w. dict_set k w d = A @ (k, w) # B)"
  using assms
proof (induction d)
  case (Cons p d)
  show ?case
  proof (cases "fst p = k")
    case True
    then have "k \<notin> fst ` set d" "p = (k, v)" using Cons.prems by (auto simp: prod_eq_iff)
    moreover have "dict_upd k f d = d" if "k \<notin> fst ` set d" for f
      using that by (induction d) (auto simp: dict_upd_def)
    ultimately have "\<forall>f. dict_upd k f (p # d) = [] @ (k, f v) # d" "\<forall>w. dict_set k w (p # d) = [] @ (k, w) # d" "p # d = [] @ (k, v) # d"
      by (simp_all add: dict_upd_def)
    then show ?thesis by blast
  next
    case False
    then obtain A B where ih: "d = A @ (k, v) # B" "\<forall>f. dict_upd k f d = A @ (k, f v) # B" "\<forall>w. dict_set k w d = A @ (k, w) # B"
      using Cons by auto
    have "\<forall>f. dict_upd k f (p # d) = (p # A) @ (k, f v) # B" "\<forall>w. dict_set k w (p # d) = (p # A) @ (k, w) # B"
      using ih(2,3) False by (auto simp: dict_upd_def)
    then show ?thesis using ih(1) by (metis append_Cons)
  qed
qed simp

lemma update_first_split: "find P xs = Some x \<Longrightarrow>
   \<exists>us vs. xs = us @ x # vs \<and> update_first P f xs = us @ f x # vs \<and> P x"
proof (induction xs)
  case (Cons y xs)
  show ?case
  proof (cases "P y")
    case True
    then show ?thesis using Cons.prems by - (rule exI [of _ "[]"], rule exI [of _ xs], auto)
  next
    case False
    then obtain us vs where "xs = us @ x # vs" "update_first P f xs = us @ f x # vs" "P x" using Cons by auto
    then show ?thesis using False by - (rule exI [of _ "y # us"], rule exI [of _ vs], auto)
  qed
qed simp

lemma remove_first_split: "find P xs = Some x \<Longrightarrow> \<exists>us vs. xs = us @ x # vs \<and> remove_first P xs = us @ vs \<and> P x"
proof (induction xs)
  case (Cons y xs)
  show ?case
  proof (cases "P y")
    case True
    then show ?thesis using Cons.prems by - (rule exI [of _ "[]"], rule exI [of _ xs], auto)
  next
    case False
    then obtain us vs where "xs = us @ x # vs" "remove_first P xs = us @ vs" "P x" using Cons by auto
    then show ?thesis using False by - (rule exI [of _ "y # us"], rule exI [of _ vs], auto)
  qed
qed simp

text \<open>The connections of the pool around the one an operation acts on.\<close>

lemma conns_at:
  assumes "dict_wf (up_pools p)" and "c \<in> set (dict_get_or (up_pools p) k [])"
  shows "\<exists>pool X Y. dict_get (up_pools p) k = Some pool \<and> dict_get_or (up_pools p) k [] = pool
    \<and> pool_conns p = X @ pool @ Y \<and> (\<forall>f. pool_conns (p\<lparr>up_pools := dict_upd k f (up_pools p)\<rparr>) = X @ f pool @ Y)"
proof -
  obtain pool where pool: "dict_get (up_pools p) k = Some pool" "dict_get_or (up_pools p) k [] = pool"
    using assms(2) by (cases "dict_get (up_pools p) k") (auto simp: dict_get_or_def)
  obtain A B where "up_pools p = A @ (k, pool) # B" "\<forall>f. dict_upd k f (up_pools p) = A @ (k, f pool) # B"
    using dict_split [OF assms(1) pool(1)] by blast
  then show ?thesis using pool
    by - (rule exI [of _ pool], rule exI [of _ "concat (map snd A)"], rule exI [of _ "concat (map snd B)"], simp add: pool_conns_def)
qed

abbreviation in_use_writers :: "pooled_connection list \<Rightarrow> nat set" where
  "in_use_writers cs \<equiv> pc_writer ` {c \<in> set cs. pc_in_use c}"

lemma in_use_change:
  assumes "distinct (map pc_writer (X @ c # Y))" "pc_writer c' = pc_writer c"
  shows "in_use_writers (X @ c' # Y) = (if pc_in_use c' then insert (pc_writer c) (in_use_writers (X @ c # Y))
    else in_use_writers (X @ c # Y) - {pc_writer c})"
  using assms by (auto simp: image_iff) metis+

lemma in_use_remove:
  assumes "distinct (map pc_writer (X @ c # Y))"
  shows "in_use_writers (X @ Y) = in_use_writers (X @ c # Y) - {pc_writer c}"
  using assms by (auto simp: image_iff)

lemma get_inv:
  assumes inv: "pool_inv (p, held)" and may: "pool_may (p, held) (Get now h o' fresh)"
  shows "pool_inv (pool_step (p, held) (Get now h o' fresh))"
proof -
  let ?k = "pool_key h o'" and ?idle = "\<lambda>c. \<not> pc_in_use c \<and> \<not> pool_is_stale p c now"
  let ?pool = "dict_get_or (up_pools p) ?k []"
  have wf: "dict_wf (up_pools p)" and d: "distinct (map pc_writer (pool_conns p))" and dh: "distinct held"
    and hs: "set held = in_use_writers (pool_conns p)" using inv by (simp_all add: pool_inv_def)
  show ?thesis
  proof (cases "find ?idle ?pool")
    case (Some c)
    let ?f = "\<lambda>c. c\<lparr>pc_in_use := True, pc_last_used := now\<rparr>"
    obtain us vs where u: "?pool = us @ c # vs" "update_first ?idle ?f ?pool = us @ ?f c # vs" "?idle c"
      using update_first_split [OF Some, of ?f] by blast
    obtain X Y where xy: "pool_conns p = X @ ?pool @ Y"
      "\<forall>f. pool_conns (p\<lparr>up_pools := dict_upd ?k f (up_pools p)\<rparr>) = X @ f ?pool @ Y"
      using conns_at [OF wf, of c ?k] u(1) by auto
    let ?p = "p\<lparr>up_pools := dict_upd ?k (update_first ?idle ?f) (up_pools p)\<rparr>"
    have old: "pool_conns p = (X @ us) @ c # (vs @ Y)" using xy(1) u(1) by simp
    have new: "pool_conns ?p = (X @ us) @ ?f c # (vs @ Y)" using xy(2) u(2) by simp
    have "pc_writer c \<notin> set held"
      using hs u(3) d unfolding old by (auto simp: image_iff)
    moreover have "in_use_writers (pool_conns ?p) = insert (pc_writer c) (in_use_writers (pool_conns p))"
      unfolding new old using in_use_change [of "X @ us" c "vs @ Y" "?f c"] d old by simp
    moreover have "distinct (map pc_writer (pool_conns ?p))" using d unfolding new old by simp
    ultimately show ?thesis using Some wf dh hs
      by (simp add: get_connection_def Let_def pool_inv_def)
  next
    case None
    show ?thesis
    proof (cases fresh)
      case (Inl e)
      then show ?thesis using None inv by (simp add: get_connection_def Let_def)
    next
      case (Inr w)
      let ?c = "\<lparr>pc_writer = w, pc_host = h, pc_port = o', pc_created_at = now, pc_last_used = now, pc_in_use = True\<rparr>"
      let ?p = "p\<lparr>up_pools := dict_set ?k (?pool @ [?c]) (up_pools p)\<rparr>"
      have "\<exists>X Y. pool_conns p = X @ Y \<and> pool_conns ?p = X @ ?c # Y"
      proof (cases "dict_get (up_pools p) ?k")
        case None
        then have "?pool = []" by (simp only: dict_get_or_def option.case)
        moreover have "?k \<notin> fst ` set (up_pools p)" using None by (simp add: map_of_eq_None_iff)
        ultimately have "dict_set ?k (?pool @ [?c]) (up_pools p) = up_pools p @ [(?k, [?c])]" by (simp add: dict_set_fresh)
        then show ?thesis by - (rule exI [of _ "pool_conns p"], rule exI [of _ "[]"], simp add: pool_conns_def)
      next
        case (Some pool)
        obtain A B where "up_pools p = A @ (?k, pool) # B" "dict_set ?k (pool @ [?c]) (up_pools p) = A @ (?k, pool @ [?c]) # B"
          using dict_split [OF wf Some] by blast
        then show ?thesis using Some
          by - (rule exI [of _ "concat (map snd A) @ pool"], rule exI [of _ "concat (map snd B)"], simp add: pool_conns_def dict_get_or_def)
      qed
      then obtain X Y where xy: "pool_conns p = X @ Y" "pool_conns ?p = X @ ?c # Y" by blast
      have w: "w \<notin> set (map pc_writer (pool_conns p))" "w \<notin> set held" using may Inr by auto
      have "in_use_writers (pool_conns ?p) = insert w (in_use_writers (pool_conns p))" unfolding xy by force
      moreover have "distinct (map pc_writer (pool_conns ?p))" using d w(1) unfolding xy by auto
      ultimately show ?thesis using None Inr wf dh hs w(2) by (simp add: get_connection_def Let_def pool_inv_def)
    qed
  qed
qed

lemma held_writer:
  assumes "pool_inv (p, held)" and "c \<in> set (dict_get_or (up_pools p) k [])" and "pc_writer c = w"
  shows "\<exists>X Y c us vs. dict_get_or (up_pools p) k [] = us @ c # vs \<and> pc_writer c = w
    \<and> pool_conns p = X @ c # Y
    \<and> (\<forall>f. pool_conns (p\<lparr>up_pools := dict_upd k (update_first (\<lambda>c. pc_writer c = w) f) (up_pools p)\<rparr>) = X @ f c # Y)
    \<and> pool_conns (p\<lparr>up_pools := dict_upd k (remove_first (\<lambda>c. pc_writer c = w)) (up_pools p)\<rparr>) = X @ Y"
proof -
  let ?pool = "dict_get_or (up_pools p) k []" and ?P = "\<lambda>c. pc_writer c = w"
  have wf: "dict_wf (up_pools p)" using assms(1) by (simp add: pool_inv_def)
  obtain c' where c': "find ?P ?pool = Some c'" using assms(2,3) by (cases "find ?P ?pool") (auto simp: find_None_iff)
  obtain us vs where u: "?pool = us @ c' # vs" "remove_first ?P ?pool = us @ vs" "?P c'"
    using remove_first_split [OF c'] by blast
  have "distinct (map pc_writer ?pool)"
    using conns_at [OF wf assms(2)] assms(1) by (auto simp: pool_inv_def)
  then have "c' \<notin> set us" "c' \<notin> set vs" using u(1) by auto
  then have "us' = us \<and> vs' = vs" if "?pool = us' @ c' # vs'" for us' vs'
    using that u(1) append_Cons_eq_iff [of c' us vs us' vs'] by simp
  then have upd: "update_first ?P f ?pool = us @ f c' # vs" for f
    using update_first_split [OF c', of f] by blast
  obtain X Y where xy: "pool_conns p = X @ ?pool @ Y"
    "\<forall>f. pool_conns (p\<lparr>up_pools := dict_upd k f (up_pools p)\<rparr>) = X @ f ?pool @ Y"
    using conns_at [OF wf assms(2)] by auto
  show ?thesis
    by - (rule exI [of _ "X @ us"], rule exI [of _ "vs @ Y"], rule exI [of _ c'], rule exI [of _ us], rule exI [of _ vs],
        use xy u upd in simp)
qed

lemma give_back_inv:
  assumes inv: "pool_inv (p, held)" and c: "c \<in> set (dict_get_or (up_pools p) (pool_key h o') [])" "pc_writer c = w"
  shows "pool_inv (release now h o' w p, remove1 w held)" "pool_inv (close_connection h o' w p, remove1 w held)"
proof -
  let ?k = "pool_key h o'"
  have wf: "dict_wf (up_pools p)" and d: "distinct (map pc_writer (pool_conns p))" and dh: "distinct held"
    and hs: "set held = in_use_writers (pool_conns p)" using inv by (simp_all add: pool_inv_def)
  obtain X Y c where x: "pc_writer c = w" "pool_conns p = X @ c # Y"
    "\<And>f. pool_conns (p\<lparr>up_pools := dict_upd ?k (update_first (\<lambda>c. pc_writer c = w) f) (up_pools p)\<rparr>) = X @ f c # Y"
    "pool_conns (p\<lparr>up_pools := dict_upd ?k (remove_first (\<lambda>c. pc_writer c = w)) (up_pools p)\<rparr>) = X @ Y"
    using held_writer [OF inv c] by blast
  have ex: "\<exists>c \<in> set (dict_get_or (up_pools p) ?k []). pc_writer c = w" using c by blast
  let ?f = "\<lambda>c. c\<lparr>pc_in_use := False, pc_last_used := now\<rparr>"
  have h1: "set (remove1 w held) = set held - {w}" "distinct (remove1 w held)" using dh by simp_all
  have "in_use_writers (X @ ?f c # Y) = in_use_writers (X @ c # Y) - {w}"
    using in_use_change [of X c Y "?f c"] d x(1,2) by simp
  then show "pool_inv (release now h o' w p, remove1 w held)"
    using ex wf d hs h1 x by (simp add: release_def Let_def pool_inv_def)
  have "pool_conns (close_connection h o' w p) = X @ Y" "up_pools (close_connection h o' w p) = dict_upd ?k (remove_first (\<lambda>c. pc_writer c = w)) (up_pools p)"
    using ex x(4) by (simp_all add: close_connection_def Let_def pool_conns_def)
  then show "pool_inv (close_connection h o' w p, remove1 w held)"
    using wf d hs h1 x(1,2) in_use_remove [of X c Y] by (simp add: pool_inv_def)
qed

lemma prune_conns: "pool_conns (snd (prune_idle now p)) = filter (\<lambda>c. \<not> expired_idle p now c) (pool_conns p)"
proof -
  have "concat (map snd (filter (\<lambda>kv. snd kv \<noteq> []) (map (\<lambda>kv. (fst kv, filter Q (snd kv))) d))) = filter Q (concat (map snd d))"
    for Q and d :: "(string, pooled_connection list) dict" by (induction d) auto
  then show ?thesis by (simp add: prune_idle_def pool_conns_def Let_def)
qed

interpretation pool_users: guarded_machine pool_step pool_may pool_inv
proof
  fix s e
  assume inv: "pool_inv s" and may: "pool_may s e"
  obtain p held where s: "s = (p, held)" by fastforce
  show "pool_inv (pool_step s e)"
  proof (cases e)
    case (Get now h o' fresh)
    then show ?thesis using get_inv inv may s by simp
  next
    case (Release now h o' w)
    then show ?thesis using give_back_inv(1) inv may s by auto
  next
    case (CloseOne h o' w)
    then show ?thesis using give_back_inv(2) inv may s by auto
  next
    case (Prune now)
    let ?p = "snd (prune_idle now p)"
    have "dict_wf (up_pools ?p)"
      using inv s by (auto simp: pool_inv_def prune_idle_def Let_def comp_def)
    moreover have "{c \<in> set (pool_conns ?p). pc_in_use c} = {c \<in> set (pool_conns p). pc_in_use c}"
      by (auto simp: prune_conns expired_idle_def)
    moreover have "distinct (map pc_writer (pool_conns ?p))"
      using inv s by (auto simp: pool_inv_def prune_conns distinct_map_filter)
    ultimately show ?thesis using inv Prune s by (simp add: pool_inv_def)
  next
    case Shutdown
    then show ?thesis using s by (simp add: pool_shutdown_def pool_inv_def pool_conns_def)
  qed
qed

text \<open>C32: a pooled connection is used by one request at a time: in every run in which users give back
  only what they hold and the system hands out only fresh streams, no connection is handed out while it is
  held, and the connections marked as in use are exactly the held ones.\<close>

theorem pooled_connections_exclusive:
  assumes "\<forall>i < length es. pool_may (foldl pool_step (pool_init m t, []) (take i es)) (es ! i)"
    and "foldl pool_step (pool_init m t, []) es = (p, held)"
  shows "distinct held \<and> set held = pc_writer ` {c \<in> set (pool_conns p). pc_in_use c}
    \<and> distinct (map pc_writer (pool_conns p)) \<and> pool_active p = length held"
proof -
  have "pool_inv (pool_init m t, [])" by (simp add: pool_inv_def pool_init_def pool_conns_def)
  then have inv: "pool_inv (p, held)" unfolding assms(2) [symmetric]
    by (rule pool_users.guarded_run) (use assms(1) in \<open>simp add: pool_users.run_ok_iff\<close>)
  have "card (set held) = card (set (map pc_writer (filter pc_in_use (pool_conns p))))"
    using inv by (simp add: pool_inv_def)
  moreover have "distinct (map pc_writer (filter pc_in_use (pool_conns p)))"
    using inv by (simp add: pool_inv_def distinct_map_filter)
  then have "card (set (map pc_writer (filter pc_in_use (pool_conns p)))) = length (filter pc_in_use (pool_conns p))"
    by (metis distinct_card length_map)
  ultimately show ?thesis using inv distinct_card [of held] by (simp add: pool_inv_def pool_active_def)
qed

text \<open>The number of idle connections kept is not bounded: giving back any number of connections keeps
  them all, whatever the configured maximum.\<close>

lemma expired_idle_limit: "expired_idle (p\<lparr>up_max_idle := n\<rparr>) = expired_idle p"
  by (simp add: fun_eq_iff expired_idle_def pool_is_stale_def)

lemma idle_limit_ignored: "pool_step (p\<lparr>up_max_idle := n\<rparr>, held) e
   = (let r = pool_step (p, held) e in ((fst r)\<lparr>up_max_idle := n\<rparr>, snd r))"
  by (cases e)
    (auto simp: get_connection_def release_def close_connection_def prune_idle_def pool_shutdown_def pool_is_stale_def
      expired_idle_limit pool_conns_def Let_def split: option.splits sum.splits)

theorem pooled_connections_exclusive_witness:
  "distinct (snd (foldl pool_step (pool_init 1 60, []) [Get 0 ''a'' 80 (Inr 1), Get 1 ''a'' 80 (Inr 2), Release 2 ''a'' 80 1, Get 3 ''a'' 80 (Inr 3)]))"
proof -
  let ?es = "[Get 0 ''a'' 80 (Inr 1), Get 1 ''a'' 80 (Inr 2), Release 2 ''a'' 80 1, Get 3 ''a'' 80 (Inr 3)]"
  have "\<forall>i < length ?es. pool_may (foldl pool_step (pool_init 1 60, []) (take i ?es)) (?es ! i)"
    by (simp add: all_less_Suc_split get_connection_def release_def pool_init_def dict_get_or_def pool_conns_def pool_is_stale_def
        dict_upd_def Let_def)
  from pooled_connections_exclusive [OF this prod.collapse [symmetric]] show ?thesis by blast
qed

end
