(* ===== verification/Tun.thy ===== *)
theory Tun
  imports Daemon Http_Properties
begin

text \<open>
  The virtual network interface (\<^verbatim>\<open>client/tun_interface.py\<close>).  The kernel is a table of open
  descriptors with the requests issued on them; its answers are functions in \<open>tun_env\<close>.
  \<^verbatim>\<open>struct.pack\<close> with native order is taken on a little-endian machine, where the layouts used need
  no padding.  \<^verbatim>\<open>inet_aton\<close> belongs to the C library and is a function of the environment.
\<close>

section \<open>Kernel\<close>

record kernel =
  k_open :: "nat list"
  k_calls :: "(nat \<times> nat \<times> bytes) list"
  k_sent :: "(nat \<times> bytes) list"

record tun_env =
  e_open :: "nat result"
  e_socket :: "nat result"
  e_ioctl :: "nat \<Rightarrow> bytes \<Rightarrow> bytes result"
  e_aton :: "string \<Rightarrow> bytes option"

definition open_fd :: "nat \<Rightarrow> kernel \<Rightarrow> kernel" where
  "open_fd fd k = k\<lparr>k_open := fd # k_open k\<rparr>"

definition close_fd :: "nat \<Rightarrow> kernel \<Rightarrow> kernel" where
  "close_fd fd k = k\<lparr>k_open := remove1 fd (k_open k)\<rparr>"

definition ioctl :: "tun_env \<Rightarrow> nat \<Rightarrow> nat \<Rightarrow> bytes \<Rightarrow> kernel \<Rightarrow> bytes result \<times> kernel" where
  "ioctl e fd request arg k = (e_ioctl e request arg, k\<lparr>k_calls := k_calls k @ [(fd, request, arg)]\<rparr>)"

definition bind_k :: "'a result \<times> kernel \<Rightarrow> ('a \<Rightarrow> kernel \<Rightarrow> 'b result \<times> kernel) \<Rightarrow> 'b result \<times> kernel" where
  "bind_k m f = (case m of (Inl x, k) \<Rightarrow> (Inl x, k) | (Inr a, k) \<Rightarrow> f a k)"

section \<open>Constants and layouts\<close>

definition TUNSETIFF :: nat where "TUNSETIFF = 0x400454CA"
definition IFF_TUN :: nat where "IFF_TUN = 0x0001"
definition IFF_NO_PI :: nat where "IFF_NO_PI = 0x1000"
definition SIOCSIFADDR :: nat where "SIOCSIFADDR = 0x8916"
definition SIOCSIFNETMASK :: nat where "SIOCSIFNETMASK = 0x891C"
definition SIOCSIFMTU :: nat where "SIOCSIFMTU = 0x8922"
definition SIOCGIFFLAGS :: nat where "SIOCGIFFLAGS = 0x8913"
definition SIOCSIFFLAGS :: nat where "SIOCSIFFLAGS = 0x8914"
definition IFF_UP :: nat where "IFF_UP = 0x1"
definition IFNAMSIZ :: nat where "IFNAMSIZ = 16"
definition AF_INET :: nat where "AF_INET = 2"

lemmas tun_constants = TUNSETIFF_def IFF_TUN_def IFF_NO_PI_def SIOCSIFADDR_def SIOCSIFNETMASK_def SIOCSIFMTU_def
  SIOCGIFFLAGS_def SIOCSIFFLAGS_def IFF_UP_def IFNAMSIZ_def AF_INET_def

definition le_bytes :: "nat \<Rightarrow> nat \<Rightarrow> bytes" where
  "le_bytes k v = rev (be_bytes k v)"

definition pack_s :: "nat \<Rightarrow> bytes \<Rightarrow> bytes" where
  "pack_s n bs = take n (bs @ replicate n 0)"

definition pack_i :: "int \<Rightarrow> bytes result" where
  "pack_i i = (if - (2 ^ 31) \<le> i \<and> i < 2 ^ 31 then Inr (le_bytes 4 (nat (i mod 2 ^ 32))) else Inl StructError)"

definition ifr_name :: "string \<Rightarrow> bytes" where
  "ifr_name name = pack_s IFNAMSIZ (take (IFNAMSIZ - 1) (encode name))"

definition ifreq_addr :: "string \<Rightarrow> bytes \<Rightarrow> bytes" where
  "ifreq_addr name addr = ifr_name name @ le_bytes 2 AF_INET @ pack_s 4 addr @ replicate 8 0"

definition ifreq_flags :: "string \<Rightarrow> nat \<Rightarrow> bytes" where
  "ifreq_flags name flags = ifr_name name @ le_bytes 2 flags"

definition rstrip_nul :: "bytes \<Rightarrow> bytes" where
  "rstrip_nul bs = rev (dropWhile (\<lambda>b. b = 0) (rev bs))"

section \<open>Interfaces\<close>

datatype tun_kind = LinuxTunInterface | DarwinTunInterface | WindowsTunInterface

record tun =
  tn_kind :: tun_kind
  tn_fd :: "nat option"
  tn_ip :: string
  tn_netmask :: string
  tn_mtu :: int
  tn_name :: string

definition tun_new :: "tun_kind \<Rightarrow> tun" where
  "tun_new kind = \<lparr>tn_kind = kind, tn_fd = None, tn_ip = [], tn_netmask = ''255.0.0.0'', tn_mtu = 1400, tn_name = []\<rparr>"

definition create_tun_interface :: "string \<Rightarrow> tun result" where
  "create_tun_interface platform =
     (if platform = ''linux'' then Inr (tun_new LinuxTunInterface)
      else if platform = ''darwin'' then Inr (tun_new DarwinTunInterface)
      else if platform = ''win32'' then Inr (tun_new WindowsTunInterface)
      else Inl (OtherError ''NotImplementedError'' (''unsupported platform: '' @ platform)))"

section \<open>Linux\<close>

definition set_address :: "tun_env \<Rightarrow> nat \<Rightarrow> string \<Rightarrow> nat \<Rightarrow> string \<Rightarrow> kernel \<Rightarrow> bytes result \<times> kernel" where
  "set_address e sock name request ip k =
     (case e_aton e ip of
        None \<Rightarrow> (Inl (OSError ''illegal IP address string passed to inet_aton''), k)
      | Some addr \<Rightarrow> ioctl e sock request (ifreq_addr name addr) k)"

definition bring_up :: "tun_env \<Rightarrow> nat \<Rightarrow> string \<Rightarrow> kernel \<Rightarrow> bytes result \<times> kernel" where
  "bring_up e sock name k =
     bind_k (ioctl e sock SIOCGIFFLAGS (ifreq_flags name 0) k) (\<lambda>flags_data k.
       let data = take 2 (drop 16 flags_data) in
       if length data \<noteq> 2 then (Inl StructError, k)
       else ioctl e sock SIOCSIFFLAGS (ifreq_flags name (be_val (rev data) OR IFF_UP)) k)"

definition configure_steps :: "tun_env \<Rightarrow> nat \<Rightarrow> string \<Rightarrow> string \<Rightarrow> string \<Rightarrow> int \<Rightarrow> kernel \<Rightarrow> bytes result \<times> kernel" where
  "configure_steps e sock name ip netmask mtu k =
     bind_k (set_address e sock name SIOCSIFADDR ip k) (\<lambda>_ k.
     bind_k (set_address e sock name SIOCSIFNETMASK netmask k) (\<lambda>_ k.
     bind_k (pack_i mtu, k) (\<lambda>m k.
     bind_k (ioctl e sock SIOCSIFMTU (ifr_name name @ m) k) (\<lambda>_ k.
     bring_up e sock name k))))"

definition configure_iface :: "tun_env \<Rightarrow> string \<Rightarrow> string \<Rightarrow> string \<Rightarrow> int \<Rightarrow> kernel \<Rightarrow> unit result \<times> kernel" where
  "configure_iface e name ip netmask mtu k =
     (case e_socket e of
        Inl x \<Rightarrow> (Inl x, k)
      | Inr sock \<Rightarrow>
          (case configure_steps e sock name ip netmask mtu (open_fd sock k) of
             (r, k) \<Rightarrow> (map_sum id (\<lambda>_. ()) r, close_fd sock k)))"

definition is_os_error :: "py_exc \<Rightarrow> bool" where
  "is_os_error x = (case x of OSError _ \<Rightarrow> True | _ \<Rightarrow> False)"

definition linux_open :: "tun_env \<Rightarrow> string \<Rightarrow> string \<Rightarrow> int \<Rightarrow> tun \<Rightarrow> kernel \<Rightarrow> unit result \<times> tun \<times> kernel" where
  "linux_open e ip netmask mtu t k =
     (let t = t\<lparr>tn_ip := ip, tn_netmask := netmask, tn_mtu := mtu\<rparr> in
      case e_open e of
        Inl x \<Rightarrow> (Inl (OSError ''cannot open /dev/net/tun''), t, k)
      | Inr fd \<Rightarrow>
          (case ioctl e fd TUNSETIFF (pack_s IFNAMSIZ (encode ''ln%d'') @ le_bytes 2 (IFF_TUN OR IFF_NO_PI)) (open_fd fd k) of
             (Inl x, k) \<Rightarrow> (Inl (OSError ''TUNSETIFF ioctl failed''), t, close_fd fd k)
           | (Inr res, k) \<Rightarrow>
               (let name = rstrip_nul (take IFNAMSIZ res) in
                if \<not> list_all (\<lambda>b. unat b < 128) name
                then (Inl (OtherError ''UnicodeDecodeError'' ''ascii''), t, k)
                else
                  (let t = t\<lparr>tn_name := decode_raw name, tn_fd := Some fd\<rparr> in
                   case configure_iface e (tn_name t) ip netmask mtu k of
                     (Inr _, k) \<Rightarrow> (Inr (), t, k)
                   | (Inl x, k) \<Rightarrow>
                       if is_os_error x then (Inl (OSError ''iface configuration failed''), t\<lparr>tn_fd := None\<rparr>, close_fd fd k)
                       else (Inl x, t, k)))))"

definition os_read :: "nat \<Rightarrow> int \<Rightarrow> bytes \<Rightarrow> kernel \<Rightarrow> bytes result" where
  "os_read fd n packet k =
     (if fd \<notin> set (k_open k) then Inl (OSError ''Bad file descriptor'')
      else if n < 0 then Inl (OSError ''Invalid argument'') else Inr (take (nat n) packet))"

definition sock_recv :: "nat \<Rightarrow> int \<Rightarrow> bytes \<Rightarrow> kernel \<Rightarrow> bytes result" where
  "sock_recv fd n packet k =
     (if fd \<notin> set (k_open k) then Inl (OSError ''Bad file descriptor'')
      else if n < 0 then Inl (ValueError ''negative buffersize in recv'') else Inr (take (nat n) packet))"

definition os_write :: "nat \<Rightarrow> bytes \<Rightarrow> kernel \<Rightarrow> nat result \<times> kernel" where
  "os_write fd data k =
     (if fd \<notin> set (k_open k) then (Inl (OSError ''Bad file descriptor''), k)
      else (Inr (length data), k\<lparr>k_sent := k_sent k @ [(fd, data)]\<rparr>))"

section \<open>macOS\<close>

text \<open>What the system answers to the steps of \<open>darwin_open\<close>: the control socket, the two requests on it
  with the name assigned, and the run of \<^verbatim>\<open>ifconfig\<close>.\<close>

datatype run_outcome = RunOk | RunFailed string | RunMissing

record darwin_env =
  de_socket :: "nat result"
  de_control :: "unit result"
  de_connect :: "string result"
  de_ifconfig :: run_outcome

definition UTUN_CONTROL_NAME :: string where
  "UTUN_CONTROL_NAME = ''com.apple.net.utun_control''"

definition build_ctl_info :: "string \<Rightarrow> bytes" where
  "build_ctl_info name = le_bytes 4 0 @ pack_s 96 (take 95 (encode name))"

text \<open>The local socket object is the only owner of the descriptor: it is closed when the call returns,
  whether by an exception or not, while \<^verbatim>\<open>_fd\<close> keeps its number.\<close>

definition darwin_open :: "darwin_env \<Rightarrow> string \<Rightarrow> string \<Rightarrow> int \<Rightarrow> tun \<Rightarrow> kernel \<Rightarrow> unit result \<times> tun \<times> kernel" where
  "darwin_open e ip netmask mtu t k =
     (let t = t\<lparr>tn_ip := ip, tn_netmask := netmask, tn_mtu := mtu\<rparr> in
      case de_socket e of
        Inl x \<Rightarrow> (Inl (OSError ''cannot create utun control socket''), t, k)
      | Inr fd \<Rightarrow>
          (let k = (open_fd fd k)\<lparr>k_calls := k_calls k @ [(fd, 2, build_ctl_info UTUN_CONTROL_NAME)]\<rparr> in
           case de_control e of
             Inl x \<Rightarrow> (Inl (OSError ''cannot find utun control''), t, close_fd fd k)
           | Inr _ \<Rightarrow>
               (case de_connect e of
                  Inl x \<Rightarrow> (Inl (OSError ''cannot connect to utun''), t, close_fd fd k)
                | Inr name \<Rightarrow>
                    (let t = t\<lparr>tn_name := name, tn_fd := Some fd\<rparr> in
                     case de_ifconfig e of
                       RunOk \<Rightarrow> (Inr (), t, close_fd fd k)
                     | RunFailed stderr \<Rightarrow> (Inl (OSError (''ifconfig failed: '' @ strip stderr)), t\<lparr>tn_fd := None\<rparr>, close_fd fd k)
                     | RunMissing \<Rightarrow> (Inl (OtherError ''FileNotFoundError'' ''ifconfig''), t, close_fd fd k)))))"

section \<open>Reading, writing and closing\<close>

text \<open>\<open>packet\<close> is what the device has ready (with its address family on macOS).\<close>

definition tun_read :: "bytes \<Rightarrow> tun \<Rightarrow> kernel \<Rightarrow> bytes result" where
  "tun_read packet t k =
     (case tn_fd t of
        None \<Rightarrow> Inl (OSError ''TUN interface not open'')
      | Some fd \<Rightarrow>
          (case tn_kind t of
             LinuxTunInterface \<Rightarrow> os_read fd (tn_mtu t + 64) packet k
           | DarwinTunInterface \<Rightarrow>
               map_sum id (\<lambda>data. if length data > 4 then drop 4 data else data) (sock_recv fd (tn_mtu t + 64) packet k)
           | WindowsTunInterface \<Rightarrow> Inl (OtherError ''NotImplementedError'' ''Windows TUN not implemented'')))"

definition tun_write :: "bytes \<Rightarrow> tun \<Rightarrow> kernel \<Rightarrow> nat result \<times> kernel" where
  "tun_write data t k =
     (case tn_fd t of
        None \<Rightarrow> (Inl (OSError ''TUN interface not open''), k)
      | Some fd \<Rightarrow>
          (case tn_kind t of
             LinuxTunInterface \<Rightarrow> os_write fd data k
           | DarwinTunInterface \<Rightarrow> os_write fd (be_bytes 4 AF_INET @ data) k
           | WindowsTunInterface \<Rightarrow> (Inl (OtherError ''NotImplementedError'' ''Windows TUN not implemented''), k)))"

definition tun_close :: "tun \<Rightarrow> kernel \<Rightarrow> tun \<times> kernel" where
  "tun_close t k =
     (case tn_fd t of
        None \<Rightarrow> (t, k)
      | Some fd \<Rightarrow> (t\<lparr>tn_fd := None\<rparr>, if tn_kind t = WindowsTunInterface then k else close_fd fd k))"

definition windows_open :: "string \<Rightarrow> string \<Rightarrow> int \<Rightarrow> tun \<Rightarrow> unit result \<times> tun" where
  "windows_open ip netmask mtu t = (Inl (OtherError ''NotImplementedError'' ''Windows TUN support requires the wintun driver.''), t)"

section \<open>Routes and packets\<close>

definition add_route :: "string \<Rightarrow> string \<Rightarrow> run_outcome \<Rightarrow> bool result" where
  "add_route platform device run =
     (if platform \<noteq> ''linux'' then Inr False
      else if device = [] then Inr False
      else
        (case run of
           RunOk \<Rightarrow> Inr True
         | RunFailed stderr \<Rightarrow> Inr (contains ''File exists'' stderr \<or> contains ''EEXIST'' stderr)
         | RunMissing \<Rightarrow> Inl (OtherError ''FileNotFoundError'' ''ip'')))"

definition remove_route :: "string \<Rightarrow> string \<Rightarrow> run_outcome \<Rightarrow> bool result" where
  "remove_route platform device run =
     (if platform \<noteq> ''linux'' then Inr False
      else if device = [] then Inr False
      else
        (case run of
           RunOk \<Rightarrow> Inr True
         | RunFailed stderr \<Rightarrow> Inr False
         | RunMissing \<Rightarrow> Inl (OtherError ''FileNotFoundError'' ''ip'')))"

definition tun_extract_dst_ip :: "bytes \<Rightarrow> string option" where
  "tun_extract_dst_ip raw_packet =
     (if length raw_packet < 20 then None
      else if drop_bit 4 (raw_packet ! 0) \<noteq> 4 then None
      else (case inet_ntoa (take 4 (drop 16 raw_packet)) of Inl _ \<Rightarrow> None | Inr ip \<Rightarrow> Some ip))"

definition is_arp_request :: "bytes \<Rightarrow> bool" where
  "is_arp_request raw_packet = (if length raw_packet < 42 then False else False)"

fun hex_ints :: "string list \<Rightarrow> int list result" where
  "hex_ints [] = Inr []"
| "hex_ints (s # ss) =
     (case py_int16 (encode (strip s)) of
        None \<Rightarrow> Inl (ValueError ''invalid literal for int() with base 16'')
      | Some i \<Rightarrow> map_sum id (\<lambda>is. i # is) (hex_ints ss))"

definition pack_6B :: "int list \<Rightarrow> bytes result" where
  "pack_6B is = (if length is = 6 \<and> list_all (\<lambda>i. 0 \<le> i \<and> i < 256) is then Inr (map (\<lambda>i. word_of_nat (nat i)) is) else Inl StructError)"

definition mac_bytes :: "string \<Rightarrow> bytes result" where
  "mac_bytes mac = (case hex_ints (split_on '':'' mac) of Inl x \<Rightarrow> Inl x | Inr is \<Rightarrow> pack_6B is)"

definition aton :: "(string \<Rightarrow> bytes option) \<Rightarrow> string \<Rightarrow> bytes result" where
  "aton inet_aton s = (case inet_aton s of None \<Rightarrow> Inl (OSError ''illegal IP address string passed to inet_aton'') | Some bs \<Rightarrow> Inr bs)"

text \<open>\<^verbatim>\<open>build_arp_reply\<close>: all four conversions happen, and an exception of the first that fails
  leaves the function.\<close>

definition tun_arp_reply :: "(string \<Rightarrow> bytes option) \<Rightarrow> string \<Rightarrow> string \<Rightarrow> string \<Rightarrow> string \<Rightarrow> bytes result" where
  "tun_arp_reply inet_aton target_ip target_mac sender_ip sender_mac =
     (case mac_bytes sender_mac of
        Inl x \<Rightarrow> Inl x
      | Inr smac \<Rightarrow>
          (case mac_bytes target_mac of
             Inl x \<Rightarrow> Inl x
           | Inr tmac \<Rightarrow>
               (case aton inet_aton sender_ip of
                  Inl x \<Rightarrow> Inl x
                | Inr sip \<Rightarrow>
                    (case aton inet_aton target_ip of
                       Inl x \<Rightarrow> Inl x
                     | Inr tip \<Rightarrow>
                         (let eth = smac @ tmac @ be_bytes 2 0x0806;
                              arp = be_bytes 2 1 @ be_bytes 2 0x0800 @ [6, 4] @ be_bytes 2 2 @ smac @ sip @ tmac @ tip
                          in Inr (eth @ arp))))))"

section \<open>Descriptors\<close>

text \<open>What the kernel may answer: system calls fail with \<^verbatim>\<open>OSError\<close> only and the names of
  interfaces are ASCII.\<close>

definition env_ok :: "tun_env \<Rightarrow> bool" where
  "env_ok e \<longleftrightarrow> (\<forall>x. e_socket e = Inl x \<longrightarrow> is_os_error x) \<and> (\<forall>q a x. e_ioctl e q a = Inl x \<longrightarrow> is_os_error x)
     \<and> (\<forall>a r. e_ioctl e TUNSETIFF a = Inr r \<longrightarrow> list_all (\<lambda>b. unat b < 128) r)"

datatype tun_event = Open tun_env string string int | Read bytes | Write bytes | Close

fun tun_step :: "tun \<times> kernel \<Rightarrow> tun_event \<Rightarrow> tun \<times> kernel" where
  "tun_step (t, k) (Open e ip netmask mtu) = snd (linux_open e ip netmask mtu t k)"
| "tun_step (t, k) (Read packet) = (t, k)"
| "tun_step (t, k) (Write data) = (t, snd (tun_write data t k))"
| "tun_step (t, k) Close = tun_close t k"

fun tun_may :: "tun \<times> kernel \<Rightarrow> tun_event \<Rightarrow> bool" where
  "tun_may (t, k) (Open e ip netmask mtu) = (tn_fd t = None \<and> env_ok e)"
| "tun_may (t, k) _ = True"

definition tun_inv :: "nat list \<Rightarrow> tun \<times> kernel \<Rightarrow> bool" where
  "tun_inv base s \<longleftrightarrow> tn_kind (fst s) = LinuxTunInterface
     \<and> k_open (snd s) = (case tn_fd (fst s) of None \<Rightarrow> base | Some fd \<Rightarrow> fd # base)"

lemma bind_k_open:
  assumes "k_open (snd m) = fds" "\<And>a k. k_open k = fds \<Longrightarrow> k_open (snd (f a k)) = fds"
  shows "k_open (snd (bind_k m f)) = fds"
  using assms by (cases m; cases "fst m") (auto simp: bind_k_def)

lemma ioctl_open [simp]: "k_open (snd (ioctl e fd q a k)) = k_open k"
  by (simp add: ioctl_def)

lemma configure_steps_open: "k_open (snd (configure_steps e s name ip netmask mtu k)) = k_open k"
  unfolding configure_steps_def bring_up_def set_address_def Let_def
  by (intro bind_k_open) (auto split: option.splits intro!: bind_k_open)

lemma configure_iface_open: "k_open (snd (configure_iface e name ip netmask mtu k)) = k_open k"
  using configure_steps_open [of e _ name ip netmask mtu "open_fd _ k"]
  by (auto simp: configure_iface_def open_fd_def close_fd_def split: sum.splits prod.splits)
    (metis snd_conv remove1.simps(2))

lemma linux_open_inv:
  assumes "tn_kind t = LinuxTunInterface" "k_open k = base" "tn_fd t = None" "env_ok e"
  shows "tun_inv base (snd (linux_open e ip netmask mtu t k))"
proof (cases "e_open e")
  case (Inr fd)
  let ?k = "snd (ioctl e fd TUNSETIFF (pack_s IFNAMSIZ (encode ''ln%d'') @ le_bytes 2 (IFF_TUN OR IFF_NO_PI)) (open_fd fd k))"
  have k: "k_open ?k = fd # base" using assms(2) by (simp add: open_fd_def)
  show ?thesis
  proof (cases "e_ioctl e TUNSETIFF (pack_s IFNAMSIZ (encode ''ln%d'') @ le_bytes 2 (IFF_TUN OR IFF_NO_PI))")
    case (Inl x)
    then show ?thesis using Inr assms k by (simp add: linux_open_def tun_inv_def ioctl_def close_fd_def Let_def)
  next
    case (Inr res)
    have "list_all (\<lambda>b. unat b < 128) res" using assms(4) Inr by (auto simp: env_ok_def)
    then have ascii: "list_all (\<lambda>b. unat b < 128) (rstrip_nul (take IFNAMSIZ res))"
      by (auto simp: rstrip_nul_def list_all_iff dest!: set_dropWhileD in_set_takeD)
    let ?n = "decode_raw (rstrip_nul (take IFNAMSIZ res))"
    obtain r k' where c: "configure_iface e ?n ip netmask mtu ?k = (r, k')" by fastforce
    then have "k_open k' = fd # base" using configure_iface_open [of e ?n ip netmask mtu ?k] k by simp
    then show ?thesis using Inr \<open>e_open e = Inr fd\<close> assms c ascii
      by (auto simp: linux_open_def tun_inv_def ioctl_def close_fd_def Let_def split: sum.splits)
  qed
qed (use assms in \<open>simp add: linux_open_def tun_inv_def Let_def\<close>)

interpretation tun_life: guarded_machine tun_step tun_may "tun_inv base" for base
proof
  fix s e
  assume inv: "tun_inv base s" and may: "tun_may s e"
  obtain t k where s: "s = (t, k)" by fastforce
  show "tun_inv base (tun_step s e)"
  proof (cases e)
    case (Open env ip netmask mtu)
    then show ?thesis using inv may s linux_open_inv by (simp add: tun_inv_def)
  qed (use inv s in \<open>auto simp: tun_inv_def tun_write_def os_write_def tun_close_def close_fd_def split: option.splits\<close>)
qed

text \<open>The Linux interface owns exactly one descriptor while it is open and none otherwise: in every
  sequence of opening (of a closed interface, succeeding or failing at any of its system calls), reading,
  writing and closing, the open descriptors of the process are those it had at the start, and the one of the
  interface when it is open.\<close>

theorem tun_descriptors_balanced:
  assumes "\<forall>i < length es. tun_may (foldl tun_step (tun_new LinuxTunInterface, k0) (take i es)) (es ! i)"
    and "foldl tun_step (tun_new LinuxTunInterface, k0) es = (t, k)"
  shows "k_open k = (case tn_fd t of None \<Rightarrow> k_open k0 | Some fd \<Rightarrow> fd # k_open k0)
    \<and> k_open (snd (tun_close t k)) = k_open k0"
proof -
  have "tun_inv (k_open k0) (tun_new LinuxTunInterface, k0)" by (simp add: tun_inv_def tun_new_def)
  then have "tun_inv (k_open k0) (t, k)" unfolding assms(2) [symmetric]
    by (rule tun_life.guarded_run) (use assms(1) in \<open>simp add: tun_life.run_ok_iff\<close>)
  then show ?thesis by (auto simp: tun_inv_def tun_close_def close_fd_def split: option.splits)
qed

section \<open>Configuration\<close>

text \<open>The address the kernel reads from the request: a \<^verbatim>\<open>sockaddr_in\<close> after the name has the family in its
  first two bytes, the port in the next two and then the address.\<close>

definition sockaddr_address :: "bytes \<Rightarrow> bytes" where
  "sockaddr_address ifr = take 4 (drop 4 (drop IFNAMSIZ ifr))"

lemma length_pack_s [simp]: "length (pack_s n bs) = n"
  by (simp add: pack_s_def)

lemma length_ifr_name [simp]: "length (ifr_name name) = 16"
  by (simp add: ifr_name_def IFNAMSIZ_def)

text \<open>The layout of the code leaves out the port: the kernel is given the last two octets of the address,
  followed by zeros, so that the interface of 25.1.0.9 gets the address 0.9.0.0 and the mask 0.0.0.0.\<close>

lemma configured_address_shifted:
  "sockaddr_address (ifreq_addr name [a, b, c, d]) = [c, d, 0, 0]"
proof -
  have "pack_s 4 [a, b, c, d] = [a, b, c, d]" by (simp add: pack_s_def)
  moreover have "le_bytes 2 AF_INET = [2, 0]" by (simp add: le_bytes_def AF_INET_def numeral_2_eq_2)
  ultimately have "drop IFNAMSIZ (ifreq_addr name [a, b, c, d]) = [2, 0, a, b, c, d, 0, 0, 0, 0, 0, 0, 0, 0]"
    by (simp add: ifreq_addr_def IFNAMSIZ_def numeral_eq_Suc)
  then show ?thesis by (simp add: sockaddr_address_def)
qed

text \<open>After a successful open on macOS the number kept by the interface is not an open descriptor, so that
  every read and write fails.\<close>

lemma darwin_fd_dangling:
  assumes "darwin_open e ip netmask mtu t k = (Inr (), t', k')" and "tn_kind t = DarwinTunInterface"
    and "de_socket e = Inr fd" and "fd \<notin> set (k_open k)"
  shows "tn_fd t' = Some fd \<and> tun_read packet t' k' = Inl (OSError ''Bad file descriptor'')
    \<and> fst (tun_write data t' k') = Inl (OSError ''Bad file descriptor'')"
  using assms
  by (auto simp: darwin_open_def Let_def open_fd_def close_fd_def tun_read_def tun_write_def sock_recv_def os_write_def
      split: sum.splits run_outcome.splits)

section \<open>Packets\<close>

lemma tun_extract_dst_ip_eq: "tun_extract_dst_ip = extract_dst_ip"
proof -
  have "drop_bit 4 b = 4 \<longleftrightarrow> unat b div 16 = 4" for b :: byte
    by (simp add: word_unat_eq_iff drop_bit_eq_div unat_div_distrib)
  then show ?thesis by (simp add: fun_eq_iff tun_extract_dst_ip_def extract_dst_ip_def)
qed

definition mac_text :: "bytes \<Rightarrow> string" where
  "mac_text bs = join '':'' (map hex2 bs)"

text \<open>Documented behaviour of \<^verbatim>\<open>inet_aton\<close>: dotted quads are read as their four bytes.\<close>

definition reads_dotted :: "(string \<Rightarrow> bytes option) \<Rightarrow> bool" where
  "reads_dotted inet_aton \<longleftrightarrow> (\<forall>bs. length bs = 4 \<longrightarrow> inet_aton (dotted bs) = Some bs)"

definition demo_aton :: "string \<Rightarrow> bytes option" where
  "demo_aton s = (case ints_of (split_on ''.'' s) of
     None \<Rightarrow> None | Some is \<Rightarrow> if length is \<noteq> 4 then None else (case bytes_of_ints is of Inl _ \<Rightarrow> None | Inr bs \<Rightarrow> Some bs))"

lemma demo_aton_reads: "reads_dotted demo_aton"
proof -
  have "demo_aton (dotted bs) = Some bs" if len: "length bs = 4" for bs
  proof -
    obtain a b c d where "bs = [a, b, c, d]" using len unfolding length_4 by blast
    then show ?thesis by (simp add: demo_aton_def dotted_parts bytes_of_ints_def uint_byte_less)
  qed
  then show ?thesis by (simp add: reads_dotted_def)
qed

lemma py_int16_hex2: "py_int16 (encode (strip (hex2 b))) = Some (int (unat b))"
proof -
  obtain h l where x: "hex2 b = [h, l]" "hex_val h = Some (unat b div 16)" "hex_val l = Some (unat b mod 16)"
    by (rule hex2_val)
  have "strip (hex2 b) = hex2 b" by (rule strip_plain) (use x in \<open>simp add: hex_val_plain\<close>)
  moreover have "cstrip (hex2 b) = hex2 b" by (rule cstrip_plain) (use x in \<open>simp add: hex_digit_plain\<close>)
  moreover have "16 * (unat b div 16) + unat b mod 16 = unat b" by simp
  ultimately show ?thesis using x hex_digit_plain [of h] hex_digit_plain [of l]
    by (simp add: py_int16_def hex_unsigned_def)
qed

lemma mac_bytes_text: "length bs = 6 \<Longrightarrow> mac_bytes (mac_text bs) = Inr bs"
proof -
  assume l: "length bs = 6"
  have "CHR '':'' \<notin> set (hex2 b)" for b
    by (rule hex2_val [of b]) (use hex_val_plain in force)
  then have "split_on '':'' (mac_text bs) = map hex2 bs" unfolding mac_text_def
    using l by (intro split_join) (auto simp: list_all_iff)
  moreover have "hex_ints (map hex2 bs) = Inr (map (\<lambda>b. int (unat b)) bs)" by (induction bs) (simp_all add: py_int16_hex2)
  ultimately show ?thesis using l by (simp add: mac_bytes_def pack_6B_def list_all_iff comp_def uint_byte_less)
qed

text \<open>The ARP reply of gateway mode is a well-formed Ethernet frame: it is parsed as an operation 2 from
  the sender's hardware and protocol address to the target's.\<close>

theorem tun_arp_reply_parses:
  assumes "length smac = 6" "length tmac = 6" "length sip = 4" "length tip = 4" "reads_dotted inet_aton"
  shows "\<exists>frame. tun_arp_reply inet_aton (dotted tip) (mac_text tmac) (dotted sip) (mac_text smac) = Inr frame
    \<and> length frame = 42 \<and> parse_arp frame = Some (2, smac, sip, tmac, tip) \<and> take 6 frame = smac"
proof -
  have "aton inet_aton (dotted ip) = Inr ip" if "length ip = 4" for ip
    using assms(5) that by (simp add: reads_dotted_def aton_def)
  then have r: "tun_arp_reply inet_aton (dotted tip) (mac_text tmac) (dotted sip) (mac_text smac)
    = Inr (smac @ tmac @ be_bytes 2 0x0806 @ be_bytes 2 1 @ be_bytes 2 0x0800 @ [6, 4] @ be_bytes 2 2 @ smac @ sip @ tmac @ tip)"
    using assms by (simp add: tun_arp_reply_def mac_bytes_text)
  have be: "be_bytes 2 1 = [0, 1]" "be_bytes 2 0x0800 = [8, 0]" "be_bytes 2 2 = [0, 2]" "be_bytes 2 0x0806 = [8, 6]"
    by (simp_all add: numeral_2_eq_2)
  obtain a0 a1 a2 a3 where a: "tip = [a0, a1, a2, a3]" using assms(4) unfolding length_4 by blast
  obtain b0 b1 b2 b3 where b: "sip = [b0, b1, b2, b3]" using assms(3) unfolding length_4 by blast
  obtain s0 s1 s2 s3 s4 s5 where s: "smac = [s0, s1, s2, s3, s4, s5]" using assms(1) unfolding length_6 by blast
  obtain t0 t1 t2 t3 t4 t5 where t: "tmac = [t0, t1, t2, t3, t4, t5]" using assms(2) unfolding length_6 by blast
  have "parse_arp (smac @ tmac @ [8, 6] @ [0, 1] @ [8, 0] @ [6, 4] @ [0, 2] @ smac @ sip @ tmac @ tip) = Some (2, smac, sip, tmac, tip)"
    unfolding a b s t by (simp add: parse_arp_def Let_def be_val_def)
  then show ?thesis using assms unfolding r be by simp
qed

theorem tun_arp_reply_parses_witness:
  "\<exists>frame. tun_arp_reply demo_aton (dotted [25, 0, 0, 9]) (mac_text [1, 2, 3, 4, 5, 6]) (dotted [25, 0, 0, 7]) (mac_text [2, 0, 0, 7, 25, 0]) = Inr frame
    \<and> length frame = 42 \<and> parse_arp frame = Some (2, [2, 0, 0, 7, 25, 0], [25, 0, 0, 7], [1, 2, 3, 4, 5, 6], [25, 0, 0, 9])
    \<and> take 6 frame = [2, 0, 0, 7, 25, 0]"
  by (rule tun_arp_reply_parses) (simp_all add: demo_aton_reads)

definition tun_demo_env :: "nat result \<Rightarrow> tun_env" where
  "tun_demo_env sock = \<lparr>e_open = Inr 7, e_socket = sock, e_ioctl = (\<lambda>q a. Inr (encode ''ln0'')), e_aton = demo_aton\<rparr>"

theorem tun_descriptors_balanced_witness:
  "k_open (snd (foldl tun_step (tun_new LinuxTunInterface, \<lparr>k_open = [0, 1, 2], k_calls = [], k_sent = []\<rparr>)
     [Open (tun_demo_env (Inl (OSError ''EMFILE''))) ''25.0.0.7'' ''255.0.0.0'' 1400, Write [1]])) = [0, 1, 2]"
proof -
  let ?s = "(tun_new LinuxTunInterface, \<lparr>k_open = [0, 1, 2], k_calls = [], k_sent = []\<rparr>)"
  let ?es = "[Open (tun_demo_env (Inl (OSError ''EMFILE''))) ''25.0.0.7'' ''255.0.0.0'' 1400, Write [1]]"
  have ascii: "list_all (\<lambda>b. unat b < 128) (rstrip_nul (take IFNAMSIZ (encode ''ln0'')))" "list_all (\<lambda>b. unat b < 128) (encode ''ln0'')"
    by code_simp+
  have "env_ok (tun_demo_env (Inl (OSError ''EMFILE'')))" using ascii by (simp add: env_ok_def tun_demo_env_def is_os_error_def)
  moreover have "tun_may s (Write d)" for s d by (cases s) simp
  ultimately have "\<forall>i < length ?es. tun_may (foldl tun_step ?s (take i ?es)) (?es ! i)"
    by (simp add: all_less_Suc_split tun_new_def)
  moreover have "tn_fd (fst (foldl tun_step ?s ?es)) = None"
    using ascii by (simp add: linux_open_def tun_demo_env_def ioctl_def configure_iface_def is_os_error_def tun_new_def Let_def)
  ultimately show ?thesis
    using tun_descriptors_balanced [OF _ prod.collapse [symmetric], of ?es] by fastforce
qed

end
