(* ===== verification/Settings.thy ===== *)
theory Settings
  imports Text
begin

text \<open>
  Configuration of the client and of the mediation server (\<^verbatim>\<open>client/config.py\<close>,
  \<^verbatim>\<open>server/config.py\<close>, the command lines of \<^verbatim>\<open>client/main.py\<close> and \<^verbatim>\<open>server/main.py\<close>)
  and the detection of platform capabilities (\<^verbatim>\<open>client/platform_detection.py\<close>).  Python does not check
  the types of dataclass fields, so a configuration is a dictionary from field names to values.  The
  environment is the one after \<^verbatim>\<open>load_dotenv\<close>; what the probes of the platform find is the record
  \<open>machine\<close>.
\<close>

section \<open>Platform capabilities\<close>

record capabilities =
  os_name :: string
  has_root :: bool
  tun_available :: bool
  raw_sockets :: bool
  privileged_ports :: bool
  is_termux :: bool
  python_version :: string

definition tun_mode_enabled :: "capabilities \<Rightarrow> bool" where
  "tun_mode_enabled c \<longleftrightarrow> tun_available c \<and> \<not> is_termux c"

definition gateway_mode_enabled :: "capabilities \<Rightarrow> bool" where
  "gateway_mode_enabled c \<longleftrightarrow> tun_mode_enabled c \<and> has_root c"

definition privileged_features_enabled :: "capabilities \<Rightarrow> bool" where
  "privileged_features_enabled c \<longleftrightarrow> has_root c"

type_synonym environ = "(string, string) dict"

text \<open>\<^verbatim>\<open>IsUserAnAdmin\<close> and \<^verbatim>\<open>geteuid\<close> may be missing, \<open>m_open_tun\<close>, \<open>m_raw_socket\<close> and \<open>m_bind_80\<close>
  tell whether the probe succeeds, and \<open>m_wintun\<close> which of the candidate files of the driver exist.\<close>

record machine =
  m_system :: string
  m_platform :: string
  m_environ :: environ
  m_is_admin :: "bool option"
  m_geteuid :: "int option"
  m_open_tun :: bool
  m_wintun :: "bool list"
  m_raw_socket :: bool
  m_bind_80 :: bool
  m_version :: string

definition TERMUX_PREFIX :: string where
  "TERMUX_PREFIX = ''/data/data/com.termux/files/usr''"

definition detect_termux :: "machine \<Rightarrow> bool" where
  "detect_termux m \<longleftrightarrow>
     (let prefix = dict_get_or (m_environ m) ''PREFIX'' [] in prefix \<noteq> [] \<and> contains TERMUX_PREFIX prefix)"

definition detect_root :: "machine \<Rightarrow> bool" where
  "detect_root m =
     (if starts_with ''win'' (m_platform m) then (case m_is_admin m of None \<Rightarrow> False | Some b \<Rightarrow> b)
      else (case m_geteuid m of None \<Rightarrow> False | Some uid \<Rightarrow> uid = 0))"

definition windows_wintun_present :: "machine \<Rightarrow> bool" where
  "windows_wintun_present m \<longleftrightarrow> True \<in> set (m_wintun m)"

definition detect_tun :: "machine \<Rightarrow> string \<Rightarrow> bool \<Rightarrow> bool" where
  "detect_tun m os termux =
     (if termux then False
      else if os = ''Linux'' then m_open_tun m
      else if os = ''Darwin'' then True
      else if os = ''Windows'' then windows_wintun_present m
      else False)"

definition detect_raw_sockets :: "machine \<Rightarrow> string \<Rightarrow> bool \<Rightarrow> bool" where
  "detect_raw_sockets m os termux = (if termux \<or> os \<noteq> ''Linux'' then False else m_raw_socket m)"

definition detect_privileged_ports :: "machine \<Rightarrow> bool \<Rightarrow> bool" where
  "detect_privileged_ports m root' = (if root' then True else if starts_with ''win'' (m_platform m) then True else m_bind_80 m)"

definition detect_platform :: "machine \<Rightarrow> capabilities" where
  "detect_platform m =
     (let termux = detect_termux m; root' = detect_root m in
      \<lparr>os_name = m_system m, has_root = root', tun_available = detect_tun m (m_system m) termux,
       raw_sockets = detect_raw_sockets m (m_system m) termux, privileged_ports = detect_privileged_ports m root',
       is_termux = termux, python_version = m_version m\<rparr>)"

definition yes_no :: "bool \<Rightarrow> string" where
  "yes_no b = (if b then ''yes'' else ''no'')"

definition degradation_notes :: "capabilities \<Rightarrow> string list" where
  "degradation_notes c =
     (if is_termux c then [''Termux detected: TUN mode is permanently disabled.'']
      else if \<not> tun_available c then [''No TUN interface available: running in service-exposure mode.''] else [])
     @ (if \<not> has_root c then [''Running without root/admin: privileged features are off.''] else [])"

definition print_capabilities :: "capabilities \<Rightarrow> string" where
  "print_capabilities c = join [CHR 0x0A]
     ([''Platform capabilities:'', ''  OS:                 '' @ os_name c,
       ''  Python:             '' @ python_version c, ''  Termux:             '' @ yes_no (is_termux c),
       ''  Root/admin:         '' @ yes_no (has_root c), ''  TUN interface:      '' @ yes_no (tun_available c),
       ''  Raw sockets:        '' @ yes_no (raw_sockets c), ''  Privileged ports:   '' @ yes_no (privileged_ports c),
       ''  TUN mode enabled:   '' @ yes_no (tun_mode_enabled c), ''  Gateway mode:       '' @ yes_no (gateway_mode_enabled c)]
      @ map (\<lambda>n. ''  ! '' @ n) (degradation_notes c))"

section \<open>Values and fields\<close>

datatype setting = SNone | SStr string | SInt int | SBool bool | SFloat real | SCaps capabilities | SDict

type_synonym settings = "(string, setting) dict"

definition to_int :: "setting \<Rightarrow> setting result" where
  "to_int v =
     (case v of
        SStr s \<Rightarrow> (case py_int s of Some i \<Rightarrow> Inr (SInt i) | None \<Rightarrow> Inl (ValueError ''invalid literal for int()''))
      | SInt i \<Rightarrow> Inr (SInt i)
      | SBool b \<Rightarrow> Inr (SInt (of_bool b))
      | SFloat r \<Rightarrow> Inr (SInt (if 0 \<le> r then \<lfloor>r\<rfloor> else \<lceil>r\<rceil>))
      | _ \<Rightarrow> Inl (TypeError ''int() argument''))"

definition getenv :: "environ \<Rightarrow> string \<Rightarrow> setting" where
  "getenv env name = (case dict_get env name of None \<Rightarrow> SNone | Some s \<Rightarrow> SStr s)"

definition env_int :: "environ \<Rightarrow> string \<Rightarrow> setting result" where
  "env_int env name =
     (case dict_get env name of
        None \<Rightarrow> Inr SNone
      | Some raw \<Rightarrow> if strip raw = [] then Inr SNone else to_int (SStr raw))"

text \<open>\<^verbatim>\<open>{key: value, ...}\<close> with values that may raise, \<^verbatim>\<open>dict.update\<close>, the loop that builds the keyword
  arguments, and the constructor of a dataclass.\<close>

fun eval_dict :: "(string \<times> setting result) list \<Rightarrow> settings result" where
  "eval_dict [] = Inr []"
| "eval_dict ((k, r) # xs) =
     (case r of Inl e \<Rightarrow> Inl e | Inr v \<Rightarrow> (case eval_dict xs of Inl e \<Rightarrow> Inl e | Inr d \<Rightarrow> Inr ((k, v) # d)))"

definition dict_update :: "('k, 'v) dict \<Rightarrow> ('k, 'v) dict \<Rightarrow> ('k, 'v) dict" where
  "dict_update d e = foldl (\<lambda>d kv. dict_set (fst kv) (snd kv) d) d e"

fun make_kwargs :: "string list \<Rightarrow> settings \<Rightarrow> settings result" where
  "make_kwargs int_fields [] = Inr []"
| "make_kwargs int_fields ((k, v) # xs) =
     (if v = SNone then make_kwargs int_fields xs
      else
        (case (if k \<in> set int_fields then to_int v else Inr v) of
           Inl e \<Rightarrow> Inl e
         | Inr w \<Rightarrow> (case make_kwargs int_fields xs of Inl e \<Rightarrow> Inl e | Inr d \<Rightarrow> Inr ((k, w) # d))))"

definition construct_config :: "settings \<Rightarrow> settings \<Rightarrow> settings result" where
  "construct_config defaults kwargs =
     (if list_all (\<lambda>k. dict_has defaults k) (dict_keys kwargs) then Inr (dict_update defaults kwargs)
      else Inl (TypeError ''__init__() got an unexpected keyword argument''))"

definition build_config :: "settings \<Rightarrow> string list \<Rightarrow> settings \<Rightarrow> settings \<Rightarrow> settings result" where
  "build_config defaults int_fields values overrides =
     (case make_kwargs int_fields (dict_update values overrides) of
        Inl e \<Rightarrow> Inl e
      | Inr kwargs \<Rightarrow> construct_config defaults kwargs)"

section \<open>Server\<close>

definition server_defaults :: settings where
  "server_defaults =
     [(''host'', SStr ''0.0.0.0''), (''port'', SInt 54000), (''web_port'', SInt 54001), (''max_clients'', SInt 256),
      (''heartbeat_timeout'', SInt 90), (''auth_challenge_ttl'', SInt 60), (''auth_max_attempts'', SInt 5),
      (''log_level'', SStr ''INFO''), (''admin_user'', SNone), (''admin_password'', SNone),
      (''data_dir'', SStr ''~/.localnetwork''), (''_extra'', SDict)]"

definition server_int_fields :: "string list" where
  "server_int_fields = [''port'', ''web_port'', ''max_clients'', ''heartbeat_timeout'']"

definition server_env :: "environ \<Rightarrow> settings result" where
  "server_env env = eval_dict
     [(''host'', Inr (getenv env ''LNSERVER_HOST'')), (''port'', env_int env ''LNSERVER_PORT''),
      (''web_port'', env_int env ''LNSERVER_WEB_PORT''), (''max_clients'', env_int env ''LNSERVER_MAX_CLIENTS''),
      (''heartbeat_timeout'', env_int env ''LNSERVER_HEARTBEAT_TIMEOUT''),
      (''log_level'', Inr (getenv env ''LNSERVER_LOG_LEVEL'')), (''admin_user'', Inr (getenv env ''LNSERVER_ADMIN_USER'')),
      (''admin_password'', Inr (getenv env ''LNSERVER_ADMIN_PASS''))]"

definition server_from_env :: "environ \<Rightarrow> settings \<Rightarrow> settings result" where
  "server_from_env env overrides =
     (case server_env env of
        Inl e \<Rightarrow> Inl e
      | Inr values \<Rightarrow> build_config server_defaults server_int_fields values overrides)"

definition number :: "setting \<Rightarrow> real result" where
  "number v =
     (case v of SInt i \<Rightarrow> Inr (of_int i) | SBool b \<Rightarrow> Inr (of_bool b) | SFloat r \<Rightarrow> Inr r
      | _ \<Rightarrow> Inl (TypeError ''not supported between instances''))"

definition field :: "settings \<Rightarrow> string \<Rightarrow> setting" where
  "field cfg name = dict_get_or cfg name SNone"

definition validate :: "settings \<Rightarrow> unit result" where
  "validate cfg =
     (case number (field cfg ''port'') of
        Inl e \<Rightarrow> Inl e
      | Inr port \<Rightarrow>
          if \<not> (0 \<le> port \<and> port < 65536) then Inl (ValueError ''invalid port'')
          else
            (case (if field cfg ''web_port'' = SNone then Inr 0 else number (field cfg ''web_port'')) of
               Inl e \<Rightarrow> Inl e
             | Inr web_port \<Rightarrow>
                 if \<not> (0 \<le> web_port \<and> web_port < 65536) then Inl (ValueError ''invalid web port'')
                 else
                   (case number (field cfg ''max_clients'') of
                      Inl e \<Rightarrow> Inl e
                    | Inr max_clients \<Rightarrow>
                        if max_clients < 1 then Inl (ValueError ''max_clients must be >= 1'')
                        else
                          (case number (field cfg ''heartbeat_timeout'') of
                             Inl e \<Rightarrow> Inl e
                           | Inr heartbeat_timeout \<Rightarrow>
                               if heartbeat_timeout < 1 then Inl (ValueError ''heartbeat_timeout must be >= 1'')
                               else
                                 (case field cfg ''log_level'' of
                                    SStr level \<Rightarrow>
                                      if upper level \<in> set [''DEBUG'', ''INFO'', ''WARNING'', ''ERROR''] then Inr ()
                                      else Inl (ValueError ''invalid log level'')
                                  | _ \<Rightarrow> Inl (AttributeError ''upper''))))))"

text \<open>The command line of the server: an option that was not given is \<open>SNone\<close>.\<close>

definition server_main_config :: "environ \<Rightarrow> settings \<Rightarrow> settings result" where
  "server_main_config env args =
     (case server_from_env env (filter (\<lambda>kv. snd kv \<noteq> SNone) args) of
        Inl e \<Rightarrow> Inl e
      | Inr cfg \<Rightarrow> (case validate cfg of Inl e \<Rightarrow> Inl e | Inr _ \<Rightarrow> Inr cfg))"

section \<open>Client\<close>

definition client_defaults :: "machine \<Rightarrow> settings" where
  "client_defaults m =
     [(''server_host'', SStr ''localhost''), (''server_port'', SInt 54000), (''identity_dir'', SStr ''~/.localnetwork''),
      (''virtual_ip'', SNone), (''tun_enabled'', SBool False), (''tun_name'', SStr ''ln0''), (''web_port'', SInt 54002),
      (''log_level'', SStr ''INFO''), (''heartbeat_interval'', SInt 30), (''reconnect_base_delay'', SFloat 1),
      (''reconnect_max_delay'', SFloat 60), (''request_virtual_ip'', SBool False),
      (''capabilities'', SCaps (detect_platform m)), (''tun_mode_active'', SBool False)]"

definition client_int_fields :: "string list" where
  "client_int_fields = [''server_port'', ''web_port'']"

definition rpartition :: "char \<Rightarrow> string \<Rightarrow> string \<times> string" where
  "rpartition c s =
     (if c \<in> set s then (rev (tl (dropWhile (\<lambda>x. x \<noteq> c) (rev s))), rev (takeWhile (\<lambda>x. x \<noteq> c) (rev s))) else ([], s))"

definition setdefault :: "'k \<Rightarrow> 'v \<Rightarrow> ('k, 'v) dict \<Rightarrow> ('k, 'v) dict" where
  "setdefault k v d = (if dict_has d k then d else dict_set k v d)"

definition client_env :: "environ \<Rightarrow> settings result" where
  "client_env env =
     (case eval_dict
        [(''server_host'', Inr (getenv env ''LNCLIENT_SERVER_HOST'')), (''server_port'', env_int env ''LNCLIENT_SERVER_PORT''),
         (''identity_dir'', Inr (getenv env ''LNCLIENT_IDENTITY_DIR'')), (''virtual_ip'', Inr (getenv env ''LNCLIENT_VIRTUAL_IP'')),
         (''web_port'', env_int env ''LNCLIENT_WEB_PORT''), (''log_level'', Inr (getenv env ''LNCLIENT_LOG_LEVEL''))] of
        Inl e \<Rightarrow> Inl e
      | Inr values \<Rightarrow>
          (let combined = dict_get_or env ''LNCLIENT_SERVER'' [] in
           if combined \<noteq> [] \<and> CHR '':'' \<in> set combined
           then
             (case rpartition (CHR '':'') combined of (host', port) \<Rightarrow>
                (case to_int (SStr port) of
                   Inl e \<Rightarrow> Inl e
                 | Inr p \<Rightarrow> Inr (setdefault ''server_port'' p (setdefault ''server_host'' (SStr host') values))))
           else Inr values))"

definition truthy :: "setting \<Rightarrow> bool" where
  "truthy v = (case v of SNone \<Rightarrow> False | SStr s \<Rightarrow> s \<noteq> [] | SInt i \<Rightarrow> i \<noteq> 0 | SBool b \<Rightarrow> b | SFloat r \<Rightarrow> r \<noteq> 0
     | SCaps _ \<Rightarrow> True | SDict \<Rightarrow> False)"

text \<open>\<^verbatim>\<open>tun_enabled and caps.tun_mode_enabled\<close> is \<^verbatim>\<open>tun_enabled\<close> itself when that is false, and
  \<^verbatim>\<open>caps\<close> is not asked.\<close>

definition resolve_capabilities :: "settings \<Rightarrow> settings result" where
  "resolve_capabilities cfg =
     (if \<not> truthy (field cfg ''tun_enabled'') then Inr (dict_set ''tun_mode_active'' (field cfg ''tun_enabled'') cfg)
      else
        (case field cfg ''capabilities'' of
           SCaps caps \<Rightarrow>
             Inr (if tun_mode_enabled caps then dict_set ''tun_mode_active'' (SBool True) cfg
                  else dict_set ''tun_mode_active'' (SBool False) (dict_set ''tun_enabled'' (SBool False) cfg))
         | _ \<Rightarrow> Inl (AttributeError ''tun_mode_enabled'')))"

definition client_from_env :: "machine \<Rightarrow> settings \<Rightarrow> settings result" where
  "client_from_env m overrides =
     (case client_env (m_environ m) of
        Inl e \<Rightarrow> Inl e
      | Inr values \<Rightarrow>
          (case build_config (client_defaults m) client_int_fields values overrides of
             Inl e \<Rightarrow> Inl e
           | Inr cfg \<Rightarrow> resolve_capabilities cfg))"

record client_args =
  a_server :: "string option"
  a_identity_dir :: "string option"
  a_virtual_ip :: "string option"
  a_tun :: bool
  a_no_tun :: bool
  a_web_port :: "int option"
  a_log_level :: "string option"

definition given :: "string option \<Rightarrow> bool" where
  "given x = (case x of None \<Rightarrow> False | Some s \<Rightarrow> s \<noteq> [])"

definition client_overrides :: "client_args \<Rightarrow> settings result" where
  "client_overrides args =
     (case (if \<not> given (a_server args) then Inr []
            else if CHR '':'' \<in> set (the (a_server args)) then
              (case rpartition (CHR '':'') (the (a_server args)) of (host', port) \<Rightarrow>
                 (case to_int (SStr port) of Inl e \<Rightarrow> Inl e | Inr p \<Rightarrow> Inr [(''server_host'', SStr host'), (''server_port'', p)]))
            else Inr [(''server_host'', SStr (the (a_server args)))]) of
        Inl e \<Rightarrow> Inl e
      | Inr o1 \<Rightarrow>
          Inr (o1
            @ (if given (a_identity_dir args) then [(''identity_dir'', SStr (the (a_identity_dir args)))] else [])
            @ (if given (a_virtual_ip args) then [(''virtual_ip'', SStr (the (a_virtual_ip args))), (''request_virtual_ip'', SBool True)] else [])
            @ (case a_web_port args of None \<Rightarrow> [] | Some p \<Rightarrow> [(''web_port'', SInt p)])
            @ (if given (a_log_level args) then [(''log_level'', SStr (the (a_log_level args)))] else [])
            @ (if a_no_tun args then [(''tun_enabled'', SBool False)]
               else if a_tun args then [(''tun_enabled'', SBool True)] else [])))"

definition client_main_config :: "machine \<Rightarrow> client_args \<Rightarrow> settings result" where
  "client_main_config m args = (case client_overrides args of Inl e \<Rightarrow> Inl e | Inr ov \<Rightarrow> client_from_env m ov)"

definition make_session :: "machine \<Rightarrow> string \<Rightarrow> int \<Rightarrow> settings result" where
  "make_session m host' port = client_from_env m [(''server_host'', SStr host'), (''server_port'', SInt port)]"

section \<open>Precedence\<close>

lemma get_update: "dict_wf e \<Longrightarrow> dict_get (dict_update d e) k = (case dict_get e k of Some v \<Rightarrow> Some v | None \<Rightarrow> dict_get d k)"
  unfolding dict_update_def
proof (induction e arbitrary: d)
  case (Cons kv e)
  then have "dict_get e (fst kv) = None" by (simp add: map_of_eq_None_iff)
  then show ?case using Cons by (auto split: option.splits)
qed simp

lemma wf_update: "dict_wf d \<Longrightarrow> dict_wf (dict_update d e)"
  unfolding dict_update_def by (induction e arbitrary: d) auto

definition coerced :: "string list \<Rightarrow> string \<Rightarrow> setting \<Rightarrow> setting" where
  "coerced int_fields k v = (if k \<in> set int_fields then (case to_int v of Inr w \<Rightarrow> w | Inl _ \<Rightarrow> v) else v)"

lemma make_kwargs_get:
  "make_kwargs ints d = Inr kw \<Longrightarrow> dict_wf d \<Longrightarrow>
     dict_get kw k = (case dict_get d k of None \<Rightarrow> None | Some v \<Rightarrow> if v = SNone then None else Some (coerced ints k v))
     \<and> set (dict_keys kw) \<subseteq> set (dict_keys d) \<and> dict_wf kw"
proof (induction d arbitrary: kw)
  case (Cons p d)
  obtain x v where p: "p = (x, v)" by fastforce
  show ?case
  proof (cases "v = SNone")
    case True
    then have "make_kwargs ints d = Inr kw" "dict_wf d" "dict_get d x = None" using Cons.prems p by (auto simp: map_of_eq_None_iff)
    then show ?thesis using Cons.IH True p by auto
  next
    case False
    then obtain w e where w: "(if x \<in> set ints then to_int v else Inr v) = Inr w" "make_kwargs ints d = Inr e" "kw = (x, w) # e"
      using Cons.prems(1) p by (auto split: sum.splits)
    then have "w = coerced ints x v" by (auto simp: coerced_def split: if_splits)
    then show ?thesis using Cons.IH [OF w(2)] Cons.prems(2) w(3) p False by auto
  qed
qed simp

lemma build_config_get:
  assumes "build_config defaults ints values overrides = Inr cfg"
    and "dict_wf defaults" "dict_wf values" "dict_wf overrides"
  shows "field cfg k = (let v = (case dict_get overrides k of Some v \<Rightarrow> v | None \<Rightarrow> field values k) in
     if v = SNone then field defaults k else coerced ints k v)"
proof -
  obtain kw where kw: "make_kwargs ints (dict_update values overrides) = Inr kw" "cfg = dict_update defaults kw"
    using assms(1) by (auto simp: build_config_def construct_config_def split: sum.splits if_splits)
  note get = make_kwargs_get [OF kw(1) wf_update [OF assms(3)], of k]
  then have "dict_get cfg k = (case dict_get kw k of Some v \<Rightarrow> Some v | None \<Rightarrow> dict_get defaults k)"
    by (simp add: kw(2) get_update)
  then show ?thesis using get get_update [OF assms(4), of "values" k]
    by (auto simp: field_def dict_get_or_def Let_def split: option.splits)
qed

lemma eval_dict_get:
  "eval_dict xs = Inr d \<Longrightarrow> map fst d = map fst xs \<and>
     dict_get d k = (case dict_get xs k of None \<Rightarrow> None | Some r \<Rightarrow> (case r of Inl _ \<Rightarrow> None | Inr v \<Rightarrow> Some v))"
  by (induction xs arbitrary: d rule: eval_dict.induct) (auto split: sum.splits)

section \<open>The configuration of the server\<close>

definition server_variables :: "(string, string) dict" where
  "server_variables =
     [(''host'', ''LNSERVER_HOST''), (''port'', ''LNSERVER_PORT''), (''web_port'', ''LNSERVER_WEB_PORT''),
      (''max_clients'', ''LNSERVER_MAX_CLIENTS''), (''heartbeat_timeout'', ''LNSERVER_HEARTBEAT_TIMEOUT''),
      (''log_level'', ''LNSERVER_LOG_LEVEL''), (''admin_user'', ''LNSERVER_ADMIN_USER''), (''admin_password'', ''LNSERVER_ADMIN_PASS'')]"

text \<open>The value an environment variable gives to a field; blank numbers count as absent.\<close>

definition server_env_value :: "environ \<Rightarrow> string \<Rightarrow> setting" where
  "server_env_value env k =
     (case dict_get server_variables k of
        None \<Rightarrow> SNone
      | Some var \<Rightarrow>
          (case dict_get env var of
             None \<Rightarrow> SNone
           | Some s \<Rightarrow> if k \<in> set server_int_fields \<and> strip s = [] then SNone else coerced server_int_fields k (SStr s)))"

lemma env_int_Inr: "env_int env var = Inr v \<Longrightarrow>
   v = (case dict_get env var of None \<Rightarrow> SNone | Some s \<Rightarrow> if strip s = [] then SNone else (case to_int (SStr s) of Inr w \<Rightarrow> w | Inl _ \<Rightarrow> SStr s))"
  by (auto simp: env_int_def split: option.splits if_splits sum.splits)

lemma server_env_variables:
  "server_env env = eval_dict (map (\<lambda>kv. (fst kv,
     if fst kv \<in> set server_int_fields then env_int env (snd kv) else Inr (getenv env (snd kv)))) server_variables)"
  by (simp add: server_env_def server_variables_def server_int_fields_def)

lemma server_env_get:
  assumes "server_env env = Inr values"
  shows "field values k = server_env_value env k" and "dict_wf values"
proof -
  let ?r = "\<lambda>k var. if k \<in> set server_int_fields then env_int env var else Inr (getenv env var)"
  let ?xs = "map (\<lambda>kv. (fst kv, ?r (fst kv) (snd kv))) server_variables"
  have e: "eval_dict ?xs = Inr values" using assms by (simp only: server_env_variables)
  have g: "dict_get ?xs k = map_option (?r k) (dict_get server_variables k)" for k by (rule map_of_map_vals)
  have "dict_wf server_variables" by code_simp
  moreover have "map fst values = map fst server_variables" using eval_dict_get [OF e, THEN conjunct1] by (simp add: comp_def)
  ultimately show "dict_wf values" by simp
  show "field values k = server_env_value env k"
  proof (cases "dict_get server_variables k")
    case None
    then have "dict_get values k = None" using eval_dict_get [OF e, of k] g [of k] by simp
    then show ?thesis using None by (simp add: field_def dict_get_or_def server_env_value_def)
  next
    case (Some var)
    have "k \<in> fst ` set values" using Some \<open>map fst values = _\<close> map_of_SomeD [OF Some] by (metis image_eqI list.set_map fst_conv)
    then obtain v where v: "dict_get values k = Some v" by (metis map_of_eq_None_iff not_Some_eq)
    then have "?r k var = Inr v" using eval_dict_get [OF e, of k] g [of k] Some by (auto split: sum.splits)
    then show ?thesis using v Some
      by (cases "k \<in> set server_int_fields")
        (auto simp: field_def dict_get_or_def server_env_value_def coerced_def getenv_def dest!: env_int_Inr split: option.splits)
  qed
qed

lemma coerced_int: "to_int v = Inr w \<Longrightarrow> \<exists>i. w = SInt i"
  by (auto simp: to_int_def split: setting.splits option.splits)

lemma to_int_SInt [simp]: "to_int (SInt i) = Inr (SInt i)"
  by (simp add: to_int_def)

lemma coerced_idem [simp]: "coerced ints k (coerced ints k v) = coerced ints k v" "coerced ints k SNone = SNone"
  using coerced_int by (auto simp: coerced_def to_int_def [of SNone] split: sum.splits) fastforce

lemma env_value_coerced: "coerced server_int_fields k (server_env_value env k) = server_env_value env k"
  by (auto simp: server_env_value_def split: option.splits)

lemma validate_Inr:
  assumes "validate cfg = Inr u"
    and "\<And>k. k \<in> set server_int_fields \<Longrightarrow> \<exists>i. field cfg k = SInt i"
  shows "\<exists>port web clients heartbeat level. field cfg ''port'' = SInt port \<and> 0 \<le> port \<and> port < 65536
    \<and> field cfg ''web_port'' = SInt web \<and> 0 \<le> web \<and> web < 65536 \<and> field cfg ''max_clients'' = SInt clients \<and> 1 \<le> clients
    \<and> field cfg ''heartbeat_timeout'' = SInt heartbeat \<and> 1 \<le> heartbeat
    \<and> field cfg ''log_level'' = SStr level \<and> upper level \<in> set [''DEBUG'', ''INFO'', ''WARNING'', ''ERROR'']"
proof -
  obtain port web clients heartbeat where f: "field cfg ''port'' = SInt port" "field cfg ''web_port'' = SInt web"
      "field cfg ''max_clients'' = SInt clients" "field cfg ''heartbeat_timeout'' = SInt heartbeat"
    using assms(2) [of "''port''"] assms(2) [of "''web_port''"] assms(2) [of "''max_clients''"] assms(2) [of "''heartbeat_timeout''"]
    by (auto simp: server_int_fields_def)
  show ?thesis using assms(1) f
    by (auto simp: validate_def number_def simp del: set_simps split: if_splits setting.splits)
qed

lemma make_kwargs_ints: "make_kwargs ints d = Inr kw \<Longrightarrow> (k, w) \<in> set kw \<Longrightarrow> k \<in> set ints \<Longrightarrow> \<exists>i. w = SInt i"
  by (induction ints d arbitrary: kw rule: make_kwargs.induct) (auto split: if_splits sum.splits dest: coerced_int)

lemma build_config_ints:
  assumes "build_config defaults ints values overrides = Inr cfg" "dict_wf values" "k \<in> set ints" "\<exists>i. field defaults k = SInt i"
  shows "\<exists>i. field cfg k = SInt i"
proof -
  obtain kw where kw: "make_kwargs ints (dict_update values overrides) = Inr kw" "cfg = dict_update defaults kw"
    using assms(1) by (auto simp: build_config_def construct_config_def split: sum.splits if_splits)
  have "dict_wf kw" using make_kwargs_get [OF kw(1) wf_update [OF assms(2)]] by blast
  then have "field cfg k = (case dict_get kw k of Some v \<Rightarrow> v | None \<Rightarrow> field defaults k)"
    by (auto simp: kw(2) field_def dict_get_or_def get_update split: option.splits)
  then show ?thesis using assms(3,4) make_kwargs_ints [OF kw(1)] by (auto split: option.splits dest: map_of_SomeD)
qed

text \<open>C38: what the server runs with.  When the command line and the environment give a configuration that
  the server accepts, every field has the value of the command line if it gives one, else that of its environment
  variable (blank numbers count as absent), else the default; ports are within 16 bits, at least one client and
  a heartbeat of a second are allowed and the log level is one of the four.\<close>

theorem server_configuration:
  assumes "server_main_config env args = Inr cfg" and "dict_wf args"
  shows "field cfg k =
       (if field args k \<noteq> SNone then coerced server_int_fields k (field args k)
        else if server_env_value env k \<noteq> SNone then server_env_value env k
        else field server_defaults k)
    \<and> (\<exists>port web clients heartbeat level. field cfg ''port'' = SInt port \<and> 0 \<le> port \<and> port < 65536
      \<and> field cfg ''web_port'' = SInt web \<and> 0 \<le> web \<and> web < 65536 \<and> field cfg ''max_clients'' = SInt clients \<and> 1 \<le> clients
      \<and> field cfg ''heartbeat_timeout'' = SInt heartbeat \<and> 1 \<le> heartbeat
      \<and> field cfg ''log_level'' = SStr level \<and> upper level \<in> set [''DEBUG'', ''INFO'', ''WARNING'', ''ERROR''])"
proof -
  let ?ov = "filter (\<lambda>kv. snd kv \<noteq> SNone) args"
  obtain vs where vs: "server_env env = Inr vs" "build_config server_defaults server_int_fields vs ?ov = Inr cfg"
    using assms(1) by (auto simp: server_main_config_def server_from_env_def split: sum.splits)
  have "dict_wf server_defaults" by code_simp
  note get = build_config_get [OF vs(2) this server_env_get(2) [OF vs(1)] wf_dict_filter [OF assms(2)]]
  have ov: "dict_get ?ov k = (if field args k = SNone then None else Some (field args k))" for k
    using map_of_filter_vals [OF assms(2), of "\<lambda>_ v. v \<noteq> SNone" k] by (auto simp: field_def dict_get_or_def split: option.splits)
  have val: "field cfg k =
       (if field args k \<noteq> SNone then coerced server_int_fields k (field args k)
        else if server_env_value env k \<noteq> SNone then server_env_value env k
        else field server_defaults k)" for k
    using get [of k] ov server_env_get(1) [OF vs(1), of k] by (auto simp: Let_def env_value_coerced)
  have "\<exists>i. field cfg k = SInt i" if "k \<in> set server_int_fields" for k
    using that by (intro build_config_ints [OF vs(2) server_env_get(2) [OF vs(1)]])
      (auto simp: server_int_fields_def field_def server_defaults_def dict_get_or_def)
  moreover have "validate cfg = Inr ()" using assms(1) vs
    by (auto simp: server_main_config_def server_from_env_def split: sum.splits)
  ultimately show ?thesis using val [of k] validate_Inr [of cfg "()"] by blast
qed

theorem server_configuration_witness:
  "server_main_config [(''LNSERVER_PORT'', ''8000''), (''LNSERVER_LOG_LEVEL'', ''debug'')] [(''port'', SInt 9000), (''web_port'', SNone)]
     = Inr (dict_set ''log_level'' (SStr ''debug'') (dict_set ''port'' (SInt 9000) server_defaults))
   \<and> field (dict_set ''log_level'' (SStr ''debug'') (dict_set ''port'' (SInt 9000) server_defaults)) ''port'' = SInt 9000"
proof -
  let ?env = "[(''LNSERVER_PORT'', ''8000''), (''LNSERVER_LOG_LEVEL'', ''debug'')]" and ?args = "[(''port'', SInt 9000), (''web_port'', SNone)]"
  have m: "server_main_config ?env ?args = Inr (dict_set ''log_level'' (SStr ''debug'') (dict_set ''port'' (SInt 9000) server_defaults))"
    by code_simp
  have "field ?args ''port'' = SInt 9000" by (simp add: field_def dict_get_or_def)
  then show ?thesis using m server_configuration [OF m, of "''port''"] by (simp add: coerced_def)
qed

section \<open>The configuration of the client\<close>

definition client_env_vals :: "environ \<Rightarrow> (string \<times> setting result) list" where
  "client_env_vals env =
     [(''server_host'', Inr (getenv env ''LNCLIENT_SERVER_HOST'')), (''server_port'', env_int env ''LNCLIENT_SERVER_PORT''),
      (''identity_dir'', Inr (getenv env ''LNCLIENT_IDENTITY_DIR'')), (''virtual_ip'', Inr (getenv env ''LNCLIENT_VIRTUAL_IP'')),
      (''web_port'', env_int env ''LNCLIENT_WEB_PORT''), (''log_level'', Inr (getenv env ''LNCLIENT_LOG_LEVEL''))]"

lemma client_defaults_kept: "eval_dict (client_env_vals env) = Inr d \<Longrightarrow>
   setdefault ''server_port'' p (setdefault ''server_host'' h d) = d"
  using eval_dict_get [of "client_env_vals env" d, THEN conjunct1] by (simp add: client_env_vals_def setdefault_def dict_has_iff)

lemma client_env_Inr: "client_env env = Inr vs \<Longrightarrow> eval_dict (client_env_vals env) = Inr vs"
  using client_defaults_kept [of env] unfolding client_env_def client_env_vals_def [symmetric]
  by (auto simp: Let_def split: sum.splits if_splits prod.splits)

text \<open>The combined variable \<^verbatim>\<open>LNCLIENT_SERVER\<close> has no effect on the configuration (its port must be a number):
  its parts are defaults for keys that are always present.\<close>

lemma combined_variable_ignored:
  assumes "client_env (dict_set ''LNCLIENT_SERVER'' server env) = Inr values"
  shows "client_env (dict_del ''LNCLIENT_SERVER'' env) = Inr values"
proof -
  have "client_env_vals (dict_set ''LNCLIENT_SERVER'' server env) = client_env_vals (dict_del ''LNCLIENT_SERVER'' env)"
    by (simp add: client_env_vals_def getenv_def env_int_def)
  then have "eval_dict (client_env_vals (dict_del ''LNCLIENT_SERVER'' env)) = Inr values"
    using client_env_Inr [OF assms] by simp
  then show ?thesis by (simp add: client_env_def client_env_vals_def [symmetric] dict_get_or_def)
qed

lemma field_set [simp]: "field (dict_set k v d) k' = (if k' = k then v else field d k')"
  by (simp add: field_def dict_get_or_def)

text \<open>TUN mode is used exactly when it was asked for and the platform has it, whatever the environment
  says; in particular it never is inside Termux, and a request that cannot be met is dropped.\<close>

theorem tun_mode_sound:
  assumes "client_from_env m overrides = Inr cfg" and "dict_wf overrides" and "\<not> dict_has overrides ''capabilities''"
  shows "(truthy (field cfg ''tun_mode_active'') \<longleftrightarrow>
       truthy (field overrides ''tun_enabled'') \<and> tun_available (detect_platform m) \<and> \<not> detect_termux m)
    \<and> (truthy (field cfg ''tun_enabled'') \<longleftrightarrow> truthy (field cfg ''tun_mode_active''))"
proof -
  obtain vs c where v: "client_env (m_environ m) = Inr vs" "build_config (client_defaults m) client_int_fields vs overrides = Inr c"
      "resolve_capabilities c = Inr cfg"
    using assms(1) by (auto simp: client_from_env_def split: sum.splits)
  have keys: "map fst vs = map fst (client_env_vals (m_environ m))"
    using eval_dict_get [OF client_env_Inr [OF v(1)]] by blast
  then have "dict_wf vs" by (simp add: client_env_vals_def)
  have "''tun_enabled'' \<notin> set (map fst vs)" "''capabilities'' \<notin> set (map fst vs)" unfolding keys by (simp_all add: client_env_vals_def)
  then have none: "field vs ''tun_enabled'' = SNone" "field vs ''capabilities'' = SNone"
    by (auto simp: field_def dict_get_or_def split: option.splits dest!: map_of_SomeD intro: rev_image_eqI)
  have "dict_wf (client_defaults m)" by (simp add: client_defaults_def)
  note get = build_config_get [OF v(2) this \<open>dict_wf vs\<close> assms(2)]
  have def: "field (client_defaults m) ''capabilities'' = SCaps (detect_platform m)" "field (client_defaults m) ''tun_enabled'' = SBool False"
    by (simp_all add: field_def client_defaults_def dict_get_or_def)
  have caps: "field c ''capabilities'' = SCaps (detect_platform m)"
    using get [of "''capabilities''"] none(2) assms(3) def(1) by (simp add: dict_has_def)
  have "truthy (field c ''tun_enabled'') \<longleftrightarrow> truthy (field overrides ''tun_enabled'')"
    using get [of "''tun_enabled''"] none(1) def(2)
    by (auto simp: field_def [of overrides] dict_get_or_def coerced_def client_int_fields_def truthy_def Let_def split: option.splits)
  moreover have "is_termux (detect_platform m) = detect_termux m" by (simp add: detect_platform_def Let_def)
  ultimately show ?thesis using v(3) caps
    by (auto simp: resolve_capabilities_def tun_mode_enabled_def truthy_def split: if_splits)
qed

definition demo_machine :: machine where
  "demo_machine = \<lparr>m_system = ''Linux'', m_platform = ''linux'', m_environ = [(''LNCLIENT_SERVER'', ''example.org:8000'')],
     m_is_admin = None, m_geteuid = Some 0, m_open_tun = True, m_wintun = [], m_raw_socket = True, m_bind_80 = True, m_version = ''3.12''\<rparr>"

theorem tun_mode_sound_witness:
  "\<exists>cfg. client_from_env demo_machine [(''tun_enabled'', SBool True)] = Inr cfg
     \<and> truthy (field cfg ''tun_mode_active'') \<and> field cfg ''server_host'' = SStr ''localhost''"
proof -
  let ?cfg = "dict_set ''tun_mode_active'' (SBool True) (dict_set ''tun_enabled'' (SBool True) (client_defaults demo_machine))"
  have c: "client_from_env demo_machine [(''tun_enabled'', SBool True)] = Inr ?cfg" by code_simp
  have "field [(''tun_enabled'', SBool True)] ''tun_enabled'' = SBool True" "tun_available (detect_platform demo_machine)"
    "\<not> detect_termux demo_machine" by code_simp+
  then have "truthy (field ?cfg ''tun_mode_active'')"
    using tun_mode_sound [OF c] by (simp add: dict_has_def truthy_def)
  moreover have "field ?cfg ''server_host'' = SStr ''localhost''" by (simp add: client_defaults_def field_def dict_get_or_def)
  ultimately show ?thesis using c by blast
qed

text \<open>The management command line always passes its host and port, so that the environment never applies.\<close>

lemma cli_server_from_arguments:
  assumes "make_session m host' port = Inr cfg"
  shows "field cfg ''server_host'' = SStr host' \<and> field cfg ''server_port'' = SInt port"
proof -
  let ?ov = "[(''server_host'', SStr host'), (''server_port'', SInt port)]"
  obtain vs c where v: "client_env (m_environ m) = Inr vs" "build_config (client_defaults m) client_int_fields vs ?ov = Inr c"
      "resolve_capabilities c = Inr cfg"
    using assms by (auto simp: make_session_def client_from_env_def split: sum.splits)
  have "dict_wf vs" using eval_dict_get [OF client_env_Inr [OF v(1)], THEN conjunct1] by (simp add: client_env_vals_def)
  moreover have "dict_wf (client_defaults m)" "dict_wf ?ov" by (simp_all add: client_defaults_def)
  ultimately have "field c ''server_host'' = SStr host'" "field c ''server_port'' = SInt port"
    using build_config_get [OF v(2), of "''server_host''"] build_config_get [OF v(2), of "''server_port''"]
    by (simp_all add: coerced_def client_int_fields_def)
  then show ?thesis using v(3) by (auto simp: resolve_capabilities_def split: if_splits setting.splits)
qed

end
