(* ===== verification/Identity.thy ===== *)
theory Identity
  imports Handshake Text
begin

text \<open>
  Client identities (\<^verbatim>\<open>client/identity.py\<close>, \<^verbatim>\<open>ensure_identity\<close> of \<^verbatim>\<open>client/main.py\<close>).  The
  \<^verbatim>\<open>cryptography\<close> package extends the parameter of the server's verification by the operations on private
  keys, with \<^verbatim>\<open>hashlib.sha256\<close>.  The file system is a dictionary from paths to contents with their
  permission bits; a path is its root and its components, as \<^verbatim>\<open>pathlib\<close> normalises it.  Failures of the disk
  are left out, apart from a file system without permissions.
\<close>

section \<open>Library\<close>

record ('k, 'p) key_lib = "'k rsa_lib" +
  load_pem_private_key :: "bytes \<Rightarrow> 'p result"
  is_rsa_private :: "'p \<Rightarrow> bool"
  public_of :: "'p \<Rightarrow> 'k"
  private_bytes :: "'p \<Rightarrow> bytes"
  public_bytes :: "'k \<Rightarrow> bytes"
  rsa_sign :: "'p \<Rightarrow> bytes \<Rightarrow> bytes"
  sha256 :: "bytes \<Rightarrow> bytes"

text \<open>Documented behaviour: keys read back from their PEM form, which for public keys is a short ASCII text with
  the standard header; the public key verifies what the private key signs; a SHA-256 digest has 32 bytes.\<close>

definition key_laws :: "('k, 'p) key_lib \<Rightarrow> 'p \<Rightarrow> bool" where
  "key_laws lib p \<longleftrightarrow>
     load_pem_private_key lib (private_bytes lib p) = Inr p \<and> is_rsa_private lib p
     \<and> load_pem_public_key lib (public_bytes lib (public_of lib p)) = Inr (public_of lib p) \<and> is_rsa_key lib (public_of lib p)
     \<and> (\<forall>m. m \<noteq> [] \<longrightarrow> rsa_verify lib (public_of lib p) (rsa_sign lib p m) m = Inr () \<and> rsa_sign lib p m \<noteq> []
            \<and> length (rsa_sign lib p m) \<le> 1024)
     \<and> (\<exists>body. public_bytes lib (public_of lib p) = encode (''-----BEGIN PUBLIC KEY-----'' @ body)
            \<and> list_all (\<lambda>c. (of_char c :: nat) < 128) body \<and> length body \<le> 10000)"

section \<open>Paths and files\<close>

type_synonym path = "string \<times> string list"

definition path_of :: "string \<Rightarrow> path" where
  "path_of s =
     (if starts_with ''//'' s \<and> \<not> starts_with ''///'' s then ''//'' else if starts_with ''/'' s then ''/'' else [],
      filter (\<lambda>c. c \<noteq> [] \<and> c \<noteq> ''.'') (split_on ''/'' s))"

definition path_join :: "path \<Rightarrow> string \<Rightarrow> path" where
  "path_join p name = (fst p, snd p @ [name])"

text \<open>\<^verbatim>\<open>os.path.expanduser\<close>; \<open>home\<close> is the home directory of the user, \<open>users\<close> looks up the one of another.\<close>

definition expanduser :: "string \<Rightarrow> (string \<Rightarrow> string option) \<Rightarrow> string \<Rightarrow> string" where
  "expanduser home users s =
     (case s of
        [] \<Rightarrow> s
      | c # t \<Rightarrow>
          if c \<noteq> CHR ''~'' then s
          else
            (let name = takeWhile (\<lambda>x. x \<noteq> CHR ''/'') t; rest = dropWhile (\<lambda>x. x \<noteq> CHR ''/'') t in
             case (if name = [] then Some home else users name) of
               None \<Rightarrow> s
             | Some h \<Rightarrow>
                 (let r = rev (dropWhile (\<lambda>x. x = CHR ''/'') (rev h)) @ rest in if r = [] then ''/'' else r)))"

record disk =
  dk_files :: "(path, bytes \<times> nat) dict"
  dk_dirs :: "path list"
  dk_umask_mode :: nat
  dk_permissions :: bool

definition file_exists :: "disk \<Rightarrow> path \<Rightarrow> bool" where
  "file_exists d p \<longleftrightarrow> dict_has (dk_files d) p \<or> p \<in> set (dk_dirs d)"

definition write_bytes :: "path \<Rightarrow> bytes \<Rightarrow> disk \<Rightarrow> disk" where
  "write_bytes p bs d =
     d\<lparr>dk_files := dict_set p (bs, case dict_get (dk_files d) p of Some (_, m) \<Rightarrow> m | None \<Rightarrow> dk_umask_mode d) (dk_files d)\<rparr>"

definition S_IRUSR :: nat where "S_IRUSR = 256"
definition S_IWUSR :: nat where "S_IWUSR = 128"

definition chmod_private :: "path \<Rightarrow> disk \<Rightarrow> disk" where
  "chmod_private p d = (if dk_permissions d then d\<lparr>dk_files := dict_upd p (\<lambda>(bs, m). (bs, S_IRUSR + S_IWUSR)) (dk_files d)\<rparr> else d)"

definition mkdir :: "path \<Rightarrow> disk \<Rightarrow> disk" where
  "mkdir p d = d\<lparr>dk_dirs := set_add p (dk_dirs d)\<rparr>"

section \<open>Identity files\<close>

definition PRIVATE_KEY_FILENAME :: string where "PRIVATE_KEY_FILENAME = ''identity.pem''"
definition PUBLIC_KEY_FILENAME :: string where "PUBLIC_KEY_FILENAME = ''identity.pub''"
definition DEFAULT_IDENTITY_DIR :: string where "DEFAULT_IDENTITY_DIR = ''~/.localnetwork''"

definition identity_error :: "string \<Rightarrow> py_exc" where
  "identity_error msg = OtherError ''IdentityError'' msg"

definition save_identity :: "('k, 'p) key_lib \<Rightarrow> 'p \<Rightarrow> 'k \<Rightarrow> path \<Rightarrow> disk \<Rightarrow> (path \<times> path) \<times> disk" where
  "save_identity lib private_key public_key dir d =
     (let private_path = path_join dir PRIVATE_KEY_FILENAME; public_path = path_join dir PUBLIC_KEY_FILENAME;
          d = write_bytes private_path (private_bytes lib private_key) (mkdir dir d);
          d = write_bytes public_path (public_bytes lib public_key) d
      in ((private_path, public_path), chmod_private private_path d))"

definition parse_failure :: "py_exc \<Rightarrow> py_exc" where
  "parse_failure e =
     (case e of ValueError m \<Rightarrow> identity_error (''failed to parse identity files: '' @ m)
      | TypeError m \<Rightarrow> identity_error (''failed to parse identity files: '' @ m) | _ \<Rightarrow> e)"

definition read_bytes :: "disk \<Rightarrow> path \<Rightarrow> bytes result" where
  "read_bytes d p = (case dict_get (dk_files d) p of None \<Rightarrow> Inl (OtherError ''IsADirectoryError'' []) | Some (bs, _) \<Rightarrow> Inr bs)"

definition load_identity :: "('k, 'p) key_lib \<Rightarrow> path \<Rightarrow> disk \<Rightarrow> ('p \<times> 'k) result" where
  "load_identity lib dir d =
     (let private_path = path_join dir PRIVATE_KEY_FILENAME; public_path = path_join dir PUBLIC_KEY_FILENAME in
      if \<not> file_exists d private_path \<or> \<not> file_exists d public_path then Inl (identity_error ''no identity found'')
      else
        (case read_bytes d private_path of
           Inl e \<Rightarrow> Inl e
         | Inr priv_pem \<Rightarrow>
             (case load_pem_private_key lib priv_pem of
                Inl e \<Rightarrow> Inl (parse_failure e)
              | Inr private_key \<Rightarrow>
                  (case read_bytes d public_path of
                     Inl e \<Rightarrow> Inl e
                   | Inr pub_pem \<Rightarrow>
                       (case load_pem_public_key lib pub_pem of
                          Inl e \<Rightarrow> Inl (parse_failure e)
                        | Inr public_key \<Rightarrow>
                            if \<not> is_rsa_private lib private_key then Inl (identity_error ''identity.pem does not contain an RSA private key'')
                            else if \<not> is_rsa_key lib public_key then Inl (identity_error ''identity.pub does not contain an RSA public key'')
                            else Inr (private_key, public_key))))))"

text \<open>\<open>resolve\<close> is \<^verbatim>\<open>_resolve_dir\<close>.\<close>

definition load_public_key :: "('k, 'p) key_lib \<Rightarrow> (string \<Rightarrow> path) \<Rightarrow> string \<Rightarrow> disk \<Rightarrow> 'k result" where
  "load_public_key lib resolve s d =
     (let p = (if file_exists d (path_of s) then path_of s else resolve s);
          p = (if p \<in> set (dk_dirs d) then path_join p PUBLIC_KEY_FILENAME else p)
      in if \<not> file_exists d p then Inl (identity_error ''public key file not found'')
         else
           (case read_bytes d p of
              Inl e \<Rightarrow> Inl e
            | Inr pem \<Rightarrow>
                (case load_pem_public_key lib pem of
                   Inl e \<Rightarrow> Inl e
                 | Inr key \<Rightarrow> if \<not> is_rsa_key lib key then Inl (identity_error ''does not contain an RSA public key'') else Inr key)))"

definition resolve_dir :: "string \<Rightarrow> (string \<Rightarrow> string option) \<Rightarrow> string \<Rightarrow> path" where
  "resolve_dir home users s = path_of (expanduser home users s)"

section \<open>Names and signatures\<close>

definition public_key_fingerprint :: "('k, 'p) key_lib \<Rightarrow> 'k \<Rightarrow> string" where
  "public_key_fingerprint lib key = join '':'' (map hex2 (take 16 (sha256 lib (public_bytes lib key))))"

definition client_id_for_public_key :: "('k, 'p) key_lib \<Rightarrow> 'k \<Rightarrow> string" where
  "client_id_for_public_key lib key = filter (\<lambda>c. c \<noteq> CHR '':'') (public_key_fingerprint lib key)"

definition sign_challenge :: "('k, 'p) key_lib \<Rightarrow> 'p \<Rightarrow> bytes \<Rightarrow> bytes result" where
  "sign_challenge lib private_key challenge =
     (if challenge = [] then Inl (identity_error ''challenge must be non-empty bytes'') else Inr (rsa_sign lib private_key challenge))"

definition verify_challenge :: "('k, 'p) key_lib \<Rightarrow> 'k \<Rightarrow> bytes \<Rightarrow> bytes \<Rightarrow> bool result" where
  "verify_challenge lib public_key challenge signature =
     (case rsa_verify lib public_key signature challenge of
        Inr _ \<Rightarrow> Inr True
      | Inl (ValueError _) \<Rightarrow> Inr False
      | Inl (OtherError c m) \<Rightarrow> if c = ''InvalidSignature'' then Inr False else Inl (OtherError c m)
      | Inl e \<Rightarrow> Inl e)"

text \<open>\<open>fresh\<close> is the key that \<^verbatim>\<open>generate_identity\<close> would make.\<close>

definition ensure_identity :: "('k, 'p) key_lib \<Rightarrow> 'p \<Rightarrow> path \<Rightarrow> disk \<Rightarrow> (string \<times> 'p \<times> 'k) result \<times> disk" where
  "ensure_identity lib fresh dir d =
     (case load_identity lib dir d of
        Inr (private_key, public_key) \<Rightarrow> (Inr (client_id_for_public_key lib public_key, private_key, public_key), d)
      | Inl (OtherError c m) \<Rightarrow>
          if c = ''IdentityError''
          then (Inr (client_id_for_public_key lib (public_of lib fresh), fresh, public_of lib fresh),
                snd (save_identity lib fresh (public_of lib fresh) dir d))
          else (Inl (OtherError c m), d)
      | Inl e \<Rightarrow> (Inl e, d))"

section \<open>Saved identities\<close>

lemma paths_differ: "path_join dir PRIVATE_KEY_FILENAME \<noteq> path_join dir PUBLIC_KEY_FILENAME"
  by (simp add: path_join_def PRIVATE_KEY_FILENAME_def PUBLIC_KEY_FILENAME_def)

lemma save_files:
  assumes "save_identity lib priv pub dir d = (paths, d')" "dk_permissions d"
  shows "dict_get (dk_files d') (path_join dir PRIVATE_KEY_FILENAME) = Some (private_bytes lib priv, S_IRUSR + S_IWUSR)"
    and "\<exists>m. dict_get (dk_files d') (path_join dir PUBLIC_KEY_FILENAME) = Some (public_bytes lib pub, m)"
    and "p \<noteq> path_join dir PRIVATE_KEY_FILENAME \<Longrightarrow> p \<noteq> path_join dir PUBLIC_KEY_FILENAME \<Longrightarrow>
      dict_get (dk_files d') p = dict_get (dk_files d) p"
  using assms paths_differ [of dir]
  by (auto simp: save_identity_def Let_def write_bytes_def chmod_private_def mkdir_def)

lemma saved_bytes:
  assumes "save_identity lib priv pub dir d = (paths, d')"
  shows "\<exists>m. dict_get (dk_files d') (path_join dir PRIVATE_KEY_FILENAME) = Some (private_bytes lib priv, m)"
    and "\<exists>m. dict_get (dk_files d') (path_join dir PUBLIC_KEY_FILENAME) = Some (public_bytes lib pub, m)"
proof -
  have d: "d' = chmod_private (path_join dir PRIVATE_KEY_FILENAME) (write_bytes (path_join dir PUBLIC_KEY_FILENAME) (public_bytes lib pub)
      (write_bytes (path_join dir PRIVATE_KEY_FILENAME) (private_bytes lib priv) (mkdir dir d)))"
    using assms by (simp add: save_identity_def Let_def)
  show "\<exists>m. dict_get (dk_files d') (path_join dir PRIVATE_KEY_FILENAME) = Some (private_bytes lib priv, m)"
    "\<exists>m. dict_get (dk_files d') (path_join dir PUBLIC_KEY_FILENAME) = Some (public_bytes lib pub, m)"
    using paths_differ [of dir] unfolding d chmod_private_def write_bytes_def by simp_all
qed

lemma load_saved:
  assumes "save_identity lib priv (public_of lib priv) dir d = (paths, d')" "key_laws lib priv"
  shows "load_identity lib dir d' = Inr (priv, public_of lib priv)"
proof -
  obtain m n where f: "dict_get (dk_files d') (path_join dir PRIVATE_KEY_FILENAME) = Some (private_bytes lib priv, m)"
    "dict_get (dk_files d') (path_join dir PUBLIC_KEY_FILENAME) = Some (public_bytes lib (public_of lib priv), n)"
    using saved_bytes [OF assms(1)] by blast
  have l: "load_pem_private_key lib (private_bytes lib priv) = Inr priv" "is_rsa_private lib priv"
    "load_pem_public_key lib (public_bytes lib (public_of lib priv)) = Inr (public_of lib priv)" "is_rsa_key lib (public_of lib priv)"
    using assms(2) by (simp_all add: key_laws_def)
  show ?thesis by (simp add: load_identity_def Let_def file_exists_def dict_has_def read_bytes_def f l)
qed

lemma client_id_hex: "client_id_for_public_key lib key = hexlify (take 16 (sha256 lib (public_bytes lib key)))"
proof -
  have plain: "filter (\<lambda>c. c \<noteq> CHR '':'') (hex2 b) = hex2 b" for b
    by (rule hex2_val [of b]) (use hex_val_plain in force)
  have "filter (\<lambda>c. c \<noteq> CHR '':'') (join '':'' ss) = concat (map (filter (\<lambda>c. c \<noteq> CHR '':'')) ss)" for ss
    by (induction "'':''" ss rule: join.induct) auto
  then show ?thesis by (simp add: client_id_for_public_key_def public_key_fingerprint_def hexlify_def plain comp_def)
qed

lemma hexlify_id: "length bs = 16 \<Longrightarrow> ID_RE (hexlify bs)"
proof -
  assume l: "length bs = 16"
  have id: "is_id_char c \<and> c \<noteq> CHR 0x0A" if "hex_val c \<noteq> None" for c
    using that by (auto simp: hex_val_def is_id_char_def Let_def split: if_splits)
  have "list_all (\<lambda>c. hex_val c \<noteq> None) (hex2 b)" for b by (rule hex2_val [of b]) simp
  then have all: "list_all (\<lambda>c. hex_val c \<noteq> None) (hexlify bs)" by (auto simp: hexlify_def list_all_iff)
  then have "chomp (hexlify bs) = hexlify bs" using id last_in_set [of "hexlify bs"] by (force simp: chomp_def list_all_iff)
  then show ?thesis using all id l by (auto simp: ID_RE_def Let_def list_all_iff)
qed

text \<open>C37: identities persist.  After \<open>ensure_identity\<close> has succeeded, on whatever disk, it returns the same
  client identifier and the same keys every time and changes nothing, whatever key a new generation would give;
  a private key it stored is readable by its owner only, and no other file was touched.\<close>

theorem identity_persists:
  assumes "ensure_identity lib fresh dir d = (Inr (cid, priv, pub), d')" and "key_laws lib fresh" and "dk_permissions d"
  shows "ensure_identity lib other dir d' = (Inr (cid, priv, pub), d')
    \<and> (d' = d \<or> priv = fresh \<and> dict_get (dk_files d') (path_join dir PRIVATE_KEY_FILENAME) = Some (private_bytes lib fresh, S_IRUSR + S_IWUSR))
    \<and> (\<forall>p. p \<noteq> path_join dir PRIVATE_KEY_FILENAME \<and> p \<noteq> path_join dir PUBLIC_KEY_FILENAME \<longrightarrow> dict_get (dk_files d') p = dict_get (dk_files d) p)"
proof (cases "load_identity lib dir d")
  case (Inr r)
  then show ?thesis using assms(1) by (auto simp: ensure_identity_def split: prod.splits)
next
  case (Inl e)
  obtain paths d1 where s: "save_identity lib fresh (public_of lib fresh) dir d = (paths, d1)" by fastforce
  have e: "cid = client_id_for_public_key lib (public_of lib fresh)" "priv = fresh" "pub = public_of lib fresh" "d' = d1"
    using assms(1) Inl s by (auto simp: ensure_identity_def split: py_exc.splits if_splits)
  have "load_identity lib dir d1 = Inr (fresh, public_of lib fresh)" by (rule load_saved [OF s assms(2)])
  then show ?thesis using e save_files [OF s assms(3)] by (auto simp: ensure_identity_def)
qed

section \<open>Registration with a derived identity\<close>

lemma rstrip_prefix: "p \<noteq> [] \<Longrightarrow> \<not> is_space (last p) \<Longrightarrow> \<exists>b. rstrip (p @ body) = p @ b"
proof (cases "list_all is_space body")
  case True
  moreover assume "p \<noteq> []" "\<not> is_space (last p)"
  ultimately have "rstrip (p @ body) = p"
    by (cases p rule: rev_cases) (auto simp: rstrip_def dropWhile_append list_all_iff)
  then show ?thesis by simp
next
  case False
  then obtain x where "x \<in> set body" "\<not> is_space x" by (auto simp: list_all_iff)
  then have "rstrip (p @ body) = p @ rev (dropWhile is_space (rev body))" by (auto simp: rstrip_def dropWhile_append)
  then show ?thesis by blast
qed

lemma pem_strip: "PEM_RE (strip (''-----BEGIN PUBLIC KEY-----'' @ body))"
proof -
  have l: "lstrip (''-----BEGIN PUBLIC KEY-----'' @ body) = ''-----BEGIN PUBLIC KEY-----'' @ body"
    by (simp add: lstrip_def is_space_def)
  have "\<not> is_space (last ''-----BEGIN PUBLIC KEY-----'')" by code_simp
  then obtain b where "rstrip (''-----BEGIN PUBLIC KEY-----'' @ body) = ''-----BEGIN PUBLIC KEY-----'' @ b"
    using rstrip_prefix [of "''-----BEGIN PUBLIC KEY-----''" body] by auto
  then show ?thesis unfolding strip_def l by (simp add: PEM_RE_def starts_with_append del: append.simps)
qed

lemma register_ok:
  assumes "ID_RE cid" "list_all (\<lambda>c. (of_char c :: nat) < 128) cid" "list_all (\<lambda>c. (of_char c :: nat) < 128) pem" "length pem \<le> 11000"
    and "register_request cid pem = Inr m"
  shows "message_ok m"
proof -
  have m: "m = \<lparr>m_type = ''REGISTER'', m_payload = [(''type'', JStr ''REGISTER''), (''client_id'', JStr cid),
      (''public_key'', JStr pem), (''version'', JStr ''0.1.0'')]\<rparr>"
    using assms(5) by (simp add: register_message)
  show ?thesis using length_dump_str [of cid] length_dump_str [of pem] id_length [OF assms(1)] assms(2-4)
    by (simp add: m message_ok_def message_body_def text_ok_ascii MAX_MESSAGE_SIZE_def) (simp add: dump_str_def escape_char_def)
qed

definition signing :: "('k, 'p) key_lib \<Rightarrow> 'p \<Rightarrow> bytes \<Rightarrow> bytes" where
  "signing lib priv m = (case sign_challenge lib priv m of Inl _ \<Rightarrow> [] | Inr s \<Rightarrow> s)"

definition registered_pem :: "('k, 'p) key_lib \<Rightarrow> 'k \<Rightarrow> string" where
  "registered_pem lib key = decode_raw (public_bytes lib key)"

lemma encode_decode_id: "encode (decode_raw bs) = bs"
  by (simp add: encode_def decode_raw_def comp_def)

lemma identity_signs:
  assumes "key_laws lib priv"
  shows "signs (rsa_lib.truncate lib) (registered_pem lib (public_of lib priv)) (signing lib priv)"
  unfolding signs_def
proof (intro exI conjI allI impI)
  show "load_pem_public_key (rsa_lib.truncate lib) (encode (registered_pem lib (public_of lib priv))) = Inr (public_of lib priv)"
    "is_rsa_key (rsa_lib.truncate lib) (public_of lib priv)"
    using assms by (simp_all add: key_laws_def registered_pem_def encode_decode_id rsa_lib.truncate_def)
  fix m :: bytes assume "length m = 32"
  then have "m \<noteq> []" by auto
  then show "rsa_verify (rsa_lib.truncate lib) (public_of lib priv) (signing lib priv m) m = Inr ()"
    "signing lib priv m \<noteq> []" "length (signing lib priv m) \<le> 1024"
    using assms by (simp_all add: key_laws_def signing_def sign_challenge_def rsa_lib.truncate_def)
qed

text \<open>What the server may do between the challenge and the response: anything that leaves the connection, the
  pending challenge and the record of the client as they are, with announcements that can be delivered.\<close>

definition untouched :: "string \<Rightarrow> nat \<Rightarrow> server \<Rightarrow> server \<Rightarrow> bool" where
  "untouched cid w s t \<longleftrightarrow>
     dict_get (sv_conns t) w = dict_get (sv_conns s) w
     \<and> dict_get (auth_pending (sv_auth t)) cid = dict_get (auth_pending (sv_auth s)) cid
     \<and> auth_ttl (sv_auth t) = auth_ttl (sv_auth s) \<and> registry_get (sv_registry t) cid = registry_get (sv_registry s) cid
     \<and> list_all (\<lambda>vm. deliverable (snd vm)) (announce_peer_online cid t)"

text \<open>C5: a generated identity gets in.  The identifier and the public key that the daemon derives from its key
  files pass the validation of the server; a server with room for the client that uses the same library answers
  the bytes of its registration with a challenge, and the response the client computes from it, sent within the
  lifetime of the challenge and whatever else the server did meanwhile for other clients, makes the server
  reply with AUTH\_OK and mark the connection as authenticated for that identifier.\<close>

theorem derived_identity_authenticates:
  assumes "ensure_identity lib fresh dir d = (Inr (cid, priv, public_of lib priv), d')"
    and "key_laws lib priv" and "length (sha256 lib (public_bytes lib (public_of lib priv))) = 32"
    and "ev_rsa ev2 = rsa_lib.truncate lib"
    and "dict_get (sv_conns s) w = Some cn" and "\<not> cn_registered cn" and "\<not> cn_authenticated cn"
    and "int (length (sv_writers s)) < sv_max_clients s" and "\<not> is_banned (sv_registry s) cid" and "length (ev_nonce ev1) = 32"
    and "ev_now ev2 - ev_now ev1 \<le> auth_ttl (sv_auth s)"
  shows "\<exists>m1 challenge m2 s1. register_request cid (registered_pem lib (public_of lib priv)) = Inr m1
    \<and> server_step s (Receive ev1 w (wire_of m1)) = ([(w, challenge)], s1)
    \<and> auth_request (signing lib priv) (challenge_received (register_started c cid (registered_pem lib (public_of lib priv))) challenge)
        = Inr (Inr m2)
    \<and> (\<forall>t. untouched cid w s1 t \<longrightarrow>
        (\<exists>os2 t' cn'. server_step t (Receive ev2 w (wire_of m2)) = (os2, t') \<and> (w, accepted_message) \<in> set os2
          \<and> dict_get (sv_conns t') w = Some cn' \<and> cn_authenticated cn' \<and> cn_client_id cn' = Some cid))"
proof -
  let ?pem = "registered_pem lib (public_of lib priv)"
  have cid: "cid = hexlify (take 16 (sha256 lib (public_bytes lib (public_of lib priv))))"
    using assms(1) by (auto simp: ensure_identity_def client_id_hex split: sum.splits py_exc.splits if_splits prod.splits)
  then have id: "ID_RE cid" "list_all (\<lambda>c. (of_char c :: nat) < 128) cid" using assms(3) by (simp_all add: hexlify_id hexlify_ascii)
  obtain body where body: "?pem = ''-----BEGIN PUBLIC KEY-----'' @ body" "list_all (\<lambda>c. (of_char c :: nat) < 128) body" "length body \<le> 10000"
    using assms(2) unfolding key_laws_def registered_pem_def by (metis decode_raw_encode)
  have pem: "PEM_RE (strip ?pem)" unfolding body(1) by (rule pem_strip)
  obtain m1 where m1: "register_request cid ?pem = Inr m1" by (simp add: register_message)
  have ok: "message_ok m1" by (rule register_ok [OF id _ _ m1]) (use body in \<open>simp_all add: list_all_iff\<close>)
  obtain os1 s1 where st: "server_step s (Receive ev1 w (wire_of m1)) = (os1, s1)" by fastforce
  note reg = register_step [OF id(1) pem m1 ok assms(5-10) st]
  have req: "auth_request (signing lib priv) (challenge_received (register_started c cid ?pem) (challenge_message cid (ev_nonce ev1)))
      = Inr (Inr (response_message (signing lib priv (ev_nonce ev1)) (hexlify (ev_nonce ev1))))"
    by (simp add: auth_request_def challenge_received_def challenge_message_def response_made del: unhexlify.simps)
  have sg: "signs (ev_rsa ev2) ?pem (signing lib priv)" unfolding assms(4) by (rule identity_signs [OF assms(2)])
  have "\<exists>os2 t' cn'. server_step t (Receive ev2 w (wire_of (response_message (signing lib priv (ev_nonce ev1)) (hexlify (ev_nonce ev1))))) = (os2, t')
      \<and> (w, accepted_message) \<in> set os2 \<and> dict_get (sv_conns t') w = Some cn' \<and> cn_authenticated cn' \<and> cn_client_id cn' = Some cid"
    if "untouched cid w s1 t" for t
  proof -
    have "\<forall>(v, m) \<in> set (announce_peer_online cid t). deliverable m" using that by (auto simp: untouched_def list_all_iff)
    from handshake_authenticates [OF sg id(1) pem m1 ok assms(5-10) st _ _ _ _ assms(11) this, of c] that show ?thesis
      using reg req by (auto simp: untouched_def simp del: server_step.simps)
  qed
  then show ?thesis using m1 st reg req by blast
qed

section \<open>Witnesses\<close>

definition demo_keys :: "(unit, unit) key_lib" where
  "demo_keys = \<lparr>load_pem_public_key = (\<lambda>_. Inr ()), is_rsa_key = (\<lambda>_. True), rsa_verify = (\<lambda>_ _ _. Inr ()),
     load_pem_private_key = (\<lambda>_. Inr ()), is_rsa_private = (\<lambda>_. True), public_of = id, private_bytes = (\<lambda>_. encode ''key''),
     public_bytes = (\<lambda>_. encode ''-----BEGIN PUBLIC KEY-----''), rsa_sign = (\<lambda>_. take 1), sha256 = (\<lambda>_. replicate 32 7)\<rparr>"

definition demo_disk :: disk where
  "demo_disk = \<lparr>dk_files = [], dk_dirs = [], dk_umask_mode = 420, dk_permissions = True\<rparr>"

lemma demo_keys_laws: "key_laws demo_keys p"
  by (auto simp: key_laws_def demo_keys_def intro!: exI [of _ "[]"])

lemma demo_ensure: "\<exists>d'. ensure_identity demo_keys () (''/'', [''k'']) demo_disk = (Inr (hexlify (replicate 16 7), (), ()), d')"
  by (simp add: ensure_identity_def load_identity_def Let_def file_exists_def demo_disk_def dict_has_def identity_error_def
      client_id_hex demo_keys_def)

theorem identity_persists_witness:
  "\<exists>d'. ensure_identity demo_keys () (''/'', [''k'']) demo_disk = (Inr (hexlify (replicate 16 7), (), ()), d')
     \<and> ensure_identity demo_keys () (''/'', [''k'']) d' = (Inr (hexlify (replicate 16 7), (), ()), d')"
proof -
  obtain d' where d: "ensure_identity demo_keys () (''/'', [''k'']) demo_disk = (Inr (hexlify (replicate 16 7), (), ()), d')"
    using demo_ensure by blast
  then show ?thesis using identity_persists [OF d demo_keys_laws, of "()"] by (auto simp: demo_disk_def)
qed

theorem derived_identity_authenticates_witness:
  "\<exists>m1 m2 cn. register_request (hexlify (replicate 16 7)) demo_pem = Inr m1
    \<and> dict_get (sv_conns (snd (server_step (snd (server_step fresh_server (Receive (demo_env\<lparr>ev_rsa := rsa_lib.truncate demo_keys\<rparr>) 1 (wire_of m1))))
        (Receive (demo_env\<lparr>ev_rsa := rsa_lib.truncate demo_keys\<rparr>) 1 (wire_of m2))))) 1 = Some cn
    \<and> cn_authenticated cn \<and> cn_client_id cn = Some (hexlify (replicate 16 7))"
proof -
  let ?ev = "demo_env\<lparr>ev_rsa := rsa_lib.truncate demo_keys\<rparr>"
  let ?cid = "hexlify (replicate 16 (7 :: 8 word))"
  obtain d' where d: "ensure_identity demo_keys () (''/'', [''k'']) demo_disk = (Inr (?cid, (), ()), d')"
    using demo_ensure by blast
  have pub: "public_of demo_keys () = ()" "registered_pem demo_keys () = demo_pem"
    by (simp_all add: registered_pem_def demo_keys_def demo_pem_def)
  have srv: "dict_get (sv_conns fresh_server) 1 = Some \<lparr>cn_peer = (''10.0.0.1'', 4000), cn_client_id = None,
      cn_registered = False, cn_authenticated = False\<rparr>" "sv_writers fresh_server = []" "sv_max_clients fresh_server = 10"
    "auth_ttl (sv_auth fresh_server) = 60" "sv_registry fresh_server = []"
    by (simp_all add: fresh_server_def server_init_def auth_init_def nm_init_def registry_init_def)
  have env: "ev_now ?ev = 20" "ev_nonce ?ev = auth_demo_nonce" by (simp_all add: demo_env_def)
  have len: "length (sha256 demo_keys b) = 32" for b by (simp add: demo_keys_def)
  obtain m1 challenge m2 s1 where h: "register_request ?cid demo_pem = Inr m1"
    "server_step fresh_server (Receive ?ev 1 (wire_of m1)) = ([(1, challenge)], s1)"
    "\<And>t. untouched ?cid 1 s1 t \<Longrightarrow> \<exists>os2 t' cn'. server_step t (Receive ?ev 1 (wire_of m2)) = (os2, t')
        \<and> dict_get (sv_conns t') 1 = Some cn' \<and> cn_authenticated cn' \<and> cn_client_id cn' = Some ?cid"
    using derived_identity_authenticates [of demo_keys "()" "(''/'', [''k''])" demo_disk ?cid "()" d' ?ev fresh_server 1 _ ?ev undefined,
        unfolded pub, OF d demo_keys_laws len _ srv(1)]
    by (simp add: srv env is_banned_def registry_get_def auth_demo_nonce_def del: server_step.simps) blast
  have ids: "ID_RE ?cid" "PEM_RE (strip demo_pem)" by (simp add: hexlify_id) code_simp
  have ok: "message_ok m1"
    by (rule register_ok [OF ids(1) hexlify_ascii _ _ h(1)]) (simp_all add: demo_pem_def)
  have "sv_writers s1 = dict_set ?cid 1 (sv_writers fresh_server)"
    using register_step [OF ids h(1) ok srv(1) _ _ _ _ _ h(2)] by (simp add: srv env is_banned_def registry_get_def auth_demo_nonce_def)
  then have "announce_peer_online ?cid s1 = []"
    by (auto simp: announce_peer_online_def member_writers_def List.map_filter_def srv(2))
  then have "untouched ?cid 1 s1 s1" by (simp add: untouched_def)
  from h(3) [OF this] show ?thesis using h(1,2) by (metis snd_conv)
qed

end
