(* ===== verification/Security.thy ===== *)
theory Security
  imports Network_Manager Text
begin

text \<open>
  Access control and basic authentication of the proxy (\<^verbatim>\<open>proxy/security/access.py\<close>,
  \<^verbatim>\<open>proxy/security/auth.py\<close>), with the parsers of the standard module \<^verbatim>\<open>ipaddress\<close> that the rules go
  through.  An address is its version and its number.  bcrypt is the parameter of the network manager.
\<close>

section \<open>Addresses\<close>

record ip_address =
  ip_version :: nat
  ip_value :: nat

record ip_network =
  net_version :: nat
  net_address :: nat
  net_prefix :: nat

definition all_digits :: "string \<Rightarrow> bool" where
  "all_digits s \<longleftrightarrow> s \<noteq> [] \<and> list_all is_digit s"

definition parse_octet :: "string \<Rightarrow> nat option" where
  "parse_octet s =
     (if \<not> all_digits s \<or> length s > 3 then None
      else if s \<noteq> ''0'' \<and> hd s = CHR ''0'' then None
      else (let n = nat_of_digits s in if n > 255 then None else Some n))"

fun traverse :: "('a \<Rightarrow> 'b option) \<Rightarrow> 'a list \<Rightarrow> 'b list option" where
  "traverse f [] = Some []"
| "traverse f (x # xs) = (case f x of None \<Rightarrow> None | Some y \<Rightarrow> map_option (\<lambda>ys. y # ys) (traverse f xs))"

definition digits_in :: "nat \<Rightarrow> nat list \<Rightarrow> nat" where
  "digits_in base ns = foldl (\<lambda>a n. a * base + n) 0 ns"

definition parse_ipv4 :: "string \<Rightarrow> nat option" where
  "parse_ipv4 s =
     (let octets = split_on ''.'' s in
      if length octets \<noteq> 4 then None else map_option (digits_in 256) (traverse parse_octet octets))"

definition parse_hextet :: "string \<Rightarrow> nat option" where
  "parse_hextet s = (if s = [] \<or> length s > 4 then None else map_option (digits_in 16) (traverse hex_val s))"

text \<open>The two groups that replace a dotted quad at the end of an IPv6 address.\<close>

definition split_ipv4_tail :: "string list \<Rightarrow> (string + nat) list option" where
  "split_ipv4_tail parts =
     (if CHR ''.'' \<in> set (last parts)
      then (case parse_ipv4 (last parts) of
              None \<Rightarrow> None
            | Some v \<Rightarrow> Some (map Inl (butlast parts) @ [Inr (v div 65536), Inr (v mod 65536)]))
      else Some (map Inl parts))"

definition group_value :: "string + nat \<Rightarrow> nat option" where
  "group_value p = (case p of Inl s \<Rightarrow> parse_hextet s | Inr n \<Rightarrow> Some n)"

definition parse_groups :: "(string + nat) list \<Rightarrow> nat option" where
  "parse_groups parts =
     (let n = length parts; empties = filter (\<lambda>i. parts ! i = Inl []) [1..<n - 1] in
      if n > 9 then None
      else
        (case empties of
           [] \<Rightarrow>
             if n \<noteq> 8 \<or> hd parts = Inl [] \<or> last parts = Inl [] then None
             else map_option (digits_in 65536) (traverse group_value parts)
         | [skip] \<Rightarrow>
             (let hi = (if hd parts = Inl [] then skip - 1 else skip);
                  lo = (if last parts = Inl [] then n - skip - 2 else n - skip - 1)
              in if hd parts = Inl [] \<and> hi \<noteq> 0 then None
                 else if last parts = Inl [] \<and> lo \<noteq> 0 then None
                 else if hi + lo \<ge> 8 then None
                 else
                   (case traverse group_value (take hi parts) of
                      None \<Rightarrow> None
                    | Some hs \<Rightarrow>
                        map_option (\<lambda>ls. digits_in 65536 (hs @ replicate (8 - (hi + lo)) 0 @ ls))
                          (traverse group_value (drop (n - lo) parts))))
         | _ \<Rightarrow> None))"

definition parse_ipv6 :: "string \<Rightarrow> nat option" where
  "parse_ipv6 s =
     (case partition ''%'' s of (addr, sep, scope) \<Rightarrow>
        if sep \<noteq> [] \<and> (scope = [] \<or> CHR ''%'' \<in> set scope) then None
        else if addr = [] then None
        else
          (let parts = split_on '':'' addr in
           if length parts < 3 then None
           else (case split_ipv4_tail parts of None \<Rightarrow> None | Some gs \<Rightarrow> parse_groups gs)))"

definition parse_ip_address :: "string \<Rightarrow> ip_address option" where
  "parse_ip_address s =
     (case parse_ipv4 s of
        Some v \<Rightarrow> Some \<lparr>ip_version = 4, ip_value = v\<rparr>
      | None \<Rightarrow> if CHR ''/'' \<in> set s then None else map_option (\<lambda>v. \<lparr>ip_version = 6, ip_value = v\<rparr>) (parse_ipv6 s))"

section \<open>Networks\<close>

definition width :: "nat \<Rightarrow> nat" where
  "width version = (if version = 4 then 32 else 128)"

definition netmask :: "nat \<Rightarrow> nat \<Rightarrow> nat" where
  "netmask w p = 2 ^ w - 2 ^ (w - p)"

text \<open>\<^verbatim>\<open>_prefix_from_ip_int\<close>: the prefix length whose netmask is the given number.\<close>

definition prefix_of_mask :: "nat \<Rightarrow> nat option" where
  "prefix_of_mask m = find (\<lambda>p. netmask 32 p = m) [0..<33]"

definition prefix_of_string :: "nat \<Rightarrow> string \<Rightarrow> nat option" where
  "prefix_of_string w s = (if \<not> all_digits s then None else (let n = nat_of_digits s in if n > w then None else Some n))"

definition make_prefix :: "nat \<Rightarrow> string option \<Rightarrow> nat option" where
  "make_prefix version given =
     (case given of
        None \<Rightarrow> Some (width version)
      | Some s \<Rightarrow>
          (case prefix_of_string (width version) s of
             Some p \<Rightarrow> Some p
           | None \<Rightarrow>
               if version \<noteq> 4 then None
               else
                 (case parse_ipv4 s of
                    None \<Rightarrow> None
                  | Some m \<Rightarrow>
                      (case prefix_of_mask m of Some p \<Rightarrow> Some p | None \<Rightarrow> prefix_of_mask (2 ^ 32 - 1 - m)))))"

definition network_of :: "nat \<Rightarrow> (string \<Rightarrow> nat option) \<Rightarrow> string \<Rightarrow> ip_network option" where
  "network_of version parse s =
     (let parts = split_on ''/'' s in
      if length parts > 2 then None
      else
        (case parse (hd parts) of
           None \<Rightarrow> None
         | Some a \<Rightarrow>
             map_option (\<lambda>p. \<lparr>net_version = version, net_address = a AND netmask (width version) p, net_prefix = p\<rparr>)
               (make_prefix version (if length parts = 2 then Some (parts ! 1) else None))))"

definition parse_ip_network :: "string \<Rightarrow> ip_network option" where
  "parse_ip_network s = (case network_of 4 parse_ipv4 s of Some n \<Rightarrow> Some n | None \<Rightarrow> network_of 6 parse_ipv6 s)"

definition ip_in_network :: "ip_address \<Rightarrow> ip_network \<Rightarrow> bool" where
  "ip_in_network ip n \<longleftrightarrow> ip_version ip = net_version n
     \<and> ip_value ip AND netmask (width (net_version n)) (net_prefix n) = net_address n"

section \<open>Access control\<close>

type_synonym access_control = "(string \<times> string) list"

definition access_init :: access_control where "access_init = []"

definition access_allow :: "string \<Rightarrow> access_control \<Rightarrow> access_control" where
  "access_allow network rules = rules @ [(''allow'', network)]"

definition access_deny :: "string \<Rightarrow> access_control \<Rightarrow> access_control" where
  "access_deny network rules = rules @ [(''deny'', network)]"

definition access_clear :: "access_control \<Rightarrow> access_control" where
  "access_clear rules = []"

fun check_rules :: "ip_address \<Rightarrow> access_control \<Rightarrow> bool" where
  "check_rules ip [] = True"
| "check_rules ip ((action, network) # rules) =
     (case parse_ip_network network of
        None \<Rightarrow> check_rules ip rules
      | Some n \<Rightarrow> if ip_in_network ip n then action = ''allow'' else check_rules ip rules)"

definition access_check :: "string \<Rightarrow> access_control \<Rightarrow> bool" where
  "access_check client rules =
     (if rules = [] then True
      else (case parse_ip_address client of None \<Rightarrow> True | Some ip \<Rightarrow> check_rules ip rules))"

section \<open>Basic authentication\<close>

record basic_auth =
  ba_realm :: string
  ba_users :: "(string, string) dict"
  ba_plain_users :: "(string, string) dict"

text \<open>The lines of a text file opened with universal newlines.\<close>

fun unify_newlines :: "string \<Rightarrow> string" where
  "unify_newlines [] = []"
| "unify_newlines [c] = [if c = CHR 0x0D then CHR 0x0A else c]"
| "unify_newlines (c # d # s) =
     (if c = CHR 0x0D then CHR 0x0A # (if d = CHR 0x0A then unify_newlines s else unify_newlines (d # s))
      else c # unify_newlines (d # s))"

definition load_htpasswd :: "string \<Rightarrow> (string, string) dict \<Rightarrow> (string, string) dict" where
  "load_htpasswd text users =
     foldl (\<lambda>users line.
        let line = strip line in
        if line = [] \<or> starts_with ''#'' line then users
        else if CHR '':'' \<notin> set line then users
        else (case partition '':'' line of (user, _, pwd_hash) \<Rightarrow> dict_set user pwd_hash users))
      users (split_on [CHR 0x0A] (unify_newlines text))"

text \<open>\<open>file\<close> is the content of the password file when the path is not empty and the file can be read.\<close>

definition basic_auth_init :: "string \<Rightarrow> string option \<Rightarrow> basic_auth" where
  "basic_auth_init realm file =
     \<lparr>ba_realm = realm, ba_users = (case file of None \<Rightarrow> [] | Some text \<Rightarrow> load_htpasswd text []), ba_plain_users = []\<rparr>"

definition set_user :: "string \<Rightarrow> string \<Rightarrow> basic_auth \<Rightarrow> basic_auth" where
  "set_user username password b = b\<lparr>ba_plain_users := dict_set username password (ba_plain_users b)\<rparr>"

definition check_credentials :: "bcrypt \<Rightarrow> string \<Rightarrow> string \<Rightarrow> basic_auth \<Rightarrow> bool" where
  "check_credentials bc username password b =
     (case dict_get (ba_plain_users b) username of
        Some p \<Rightarrow> p = password
      | None \<Rightarrow>
          (case dict_get (ba_users b) username of
             Some h \<Rightarrow> (case checkpw bc (encode password) (encode h) of Some ok \<Rightarrow> ok | None \<Rightarrow> False)
           | None \<Rightarrow> False))"

definition basic_check :: "bcrypt \<Rightarrow> string option \<Rightarrow> basic_auth \<Rightarrow> bool" where
  "basic_check bc header b =
     (case header of
        None \<Rightarrow> False
      | Some h \<Rightarrow>
          if h = [] \<or> \<not> starts_with ''Basic '' h then False
          else
            (case b64decode (drop 6 h) of
               Inl _ \<Rightarrow> False
             | Inr bs \<Rightarrow>
                 (case utf8_decode bs of
                    None \<Rightarrow> False
                  | Some decoded \<Rightarrow>
                      if CHR '':'' \<notin> set decoded then False
                      else (case partition '':'' decoded of (username, _, password) \<Rightarrow> check_credentials bc username password b))))"

definition authenticate_header :: "basic_auth \<Rightarrow> string" where
  "authenticate_header b = ''Basic realm='' @ [quote] @ ba_realm b @ [quote]"

section \<open>Prefix matching\<close>

lemma netmask_push: "p \<le> w \<Longrightarrow> netmask w p = push_bit (w - p) (mask p)"
  by (simp add: netmask_def push_bit_eq_mult mask_eq_exp_minus_1 algebra_simps flip: power_add)

lemma and_netmask:
  assumes "p \<le> w" "a < 2 ^ w"
  shows "a AND netmask w p = a div 2 ^ (w - p) * 2 ^ (w - p)"
proof -
  have "a AND push_bit (w - p) (mask p) = push_bit (w - p) (take_bit p (drop_bit (w - p) a))"
    by (rule bit_eqI) (auto simp: bit_simps)
  moreover have "a div 2 ^ (w - p) < 2 ^ p"
    using assms by (simp add: less_mult_imp_div_less flip: power_add)
  ultimately show ?thesis using assms(1)
    by (simp add: netmask_push push_bit_eq_mult drop_bit_eq_div take_bit_nat_eq_self)
qed

lemma digits_bound: "list_all (\<lambda>n. n < base) ns \<Longrightarrow> 0 < base \<Longrightarrow> digits_in base ns < base ^ length ns"
proof (induction ns rule: rev_induct)
  case (snoc n ns)
  then have "digits_in base ns + 1 \<le> base ^ length ns" by simp
  then have "(digits_in base ns + 1) * base \<le> base ^ length ns * base" by (rule mult_le_mono1)
  moreover have "digits_in base (ns @ [n]) < (digits_in base ns + 1) * base" using snoc.prems by (simp add: digits_in_def)
  ultimately show ?case by (simp add: mult.commute)
qed (simp add: digits_in_def)

lemma traverse_all: "traverse f xs = Some ys \<Longrightarrow> (\<And>x y. f x = Some y \<Longrightarrow> P y) \<Longrightarrow> list_all P ys \<and> length ys = length xs"
  by (induction xs arbitrary: ys) (auto split: option.splits)

lemma ipv4_bound: "parse_ipv4 s = Some v \<Longrightarrow> v < 2 ^ 32"
  using traverse_all [of parse_octet "split_on ''.'' s" _ "\<lambda>n. n < 256"] digits_bound [of 256]
  by (fastforce simp: parse_ipv4_def parse_octet_def Let_def split: if_splits)

lemma hextet_bound: "parse_hextet s = Some v \<Longrightarrow> v < 65536"
proof -
  assume a: "parse_hextet s = Some v"
  then obtain ns where ns: "traverse hex_val s = Some ns" "v = digits_in 16 ns" "length s \<le> 4" by (auto simp: parse_hextet_def split: if_splits)
  have "list_all (\<lambda>n. n < 16) ns \<and> length ns = length s"
    by (rule traverse_all [OF ns(1)]) (auto simp: hex_val_def Let_def split: if_splits)
  then have "v < 16 ^ length ns" "length ns \<le> 4" using digits_bound [of 16 ns] ns by simp_all
  moreover have "16 ^ length ns \<le> (16 :: nat) ^ 4" using \<open>length ns \<le> 4\<close> by (rule power_increasing) simp
  ultimately show ?thesis by simp
qed

lemma groups_bound:
  assumes "parse_groups gs = Some v" "\<And>n. Inr n \<in> set gs \<Longrightarrow> n < 65536"
  shows "v < 2 ^ 128"
proof -
  have grp: "list_all (\<lambda>n. n < 65536) ns \<and> length ns = length xs" if "traverse group_value xs = Some ns" "set xs \<subseteq> set gs" for xs ns
    using that
  proof (induction xs arbitrary: ns)
    case (Cons x xs)
    then show ?case using assms(2) hextet_bound
      by (cases x) (auto simp: group_value_def split: option.splits)
  qed simp
  have "\<exists>ns. v = digits_in 65536 ns \<and> list_all (\<lambda>n. n < 65536) ns \<and> length ns = 8"
  proof (cases "filter (\<lambda>i. gs ! i = Inl []) [1..<length gs - 1]")
    case Nil
    then show ?thesis using assms(1) grp [of gs] by (auto simp: parse_groups_def Let_def split: if_splits)
  next
    case (Cons skip rest)
    then have "rest = []" using assms(1) by (auto simp: parse_groups_def Let_def split: if_splits list.splits)
    let ?n = "length gs"
    let ?hi = "if hd gs = Inl [] then skip - 1 else skip" and ?lo = "if last gs = Inl [] then ?n - skip - 2 else ?n - skip - 1"
    have "skip \<in> set [1..<?n - 1]" using Cons by (metis filter_is_subset list.set_intros(1) subsetD)
    then have le: "?hi \<le> ?n" "?lo \<le> ?n" by auto
    obtain hs ls where hl: "traverse group_value (take ?hi gs) = Some hs" "traverse group_value (drop (?n - ?lo) gs) = Some ls"
        "?hi + ?lo < 8" "v = digits_in 65536 (hs @ replicate (8 - (?hi + ?lo)) 0 @ ls)"
      using assms(1) Cons \<open>rest = []\<close> by (auto simp: parse_groups_def Let_def not_le split: if_splits option.splits)
    have "list_all (\<lambda>n. n < 65536) hs \<and> length hs = ?hi" using grp [OF hl(1) set_take_subset] le(1) by simp
    moreover have "list_all (\<lambda>n. n < 65536) ls \<and> length ls = ?lo" using grp [OF hl(2) set_drop_subset] le(2) by simp
    moreover have "list_all (\<lambda>n. n < 65536) (replicate k (0 :: nat))" for k by (simp add: list_all_iff)
    ultimately show ?thesis using hl(3,4) by (intro exI [of _ "hs @ replicate (8 - (?hi + ?lo)) 0 @ ls"]) (simp del: replicate.simps)
  qed
  then show ?thesis using digits_bound [of 65536] by fastforce
qed

lemma ipv6_bound: "parse_ipv6 s = Some v \<Longrightarrow> v < 2 ^ 128"
proof -
  assume "parse_ipv6 s = Some v"
  then obtain parts gs where g: "split_ipv4_tail parts = Some gs" "parse_groups gs = Some v"
    by (auto simp: parse_ipv6_def Let_def split: prod.splits if_splits option.splits)
  show "v < 2 ^ 128"
  proof (rule groups_bound [OF g(2)])
    fix n assume "Inr n \<in> set gs"
    then obtain x where "parse_ipv4 (last parts) = Some x" "n = x div 65536 \<or> n = x mod 65536"
      using g(1) by (auto simp: split_ipv4_tail_def split: if_splits option.splits)
    then show "n < 65536" using ipv4_bound [of "last parts" x] by auto
  qed
qed

text \<open>The specification of a rule's network: version, address as written and prefix length.\<close>

definition cidr_of :: "nat \<Rightarrow> (string \<Rightarrow> nat option) \<Rightarrow> string \<Rightarrow> (nat \<times> nat \<times> nat) option" where
  "cidr_of version parse s =
     (let parts = split_on ''/'' s in
      if length parts > 2 then None
      else (case parse (hd parts) of
              None \<Rightarrow> None
            | Some a \<Rightarrow> map_option (\<lambda>p. (version, a, p)) (make_prefix version (if length parts = 2 then Some (parts ! 1) else None))))"

definition cidr :: "string \<Rightarrow> (nat \<times> nat \<times> nat) option" where
  "cidr s = (case cidr_of 4 parse_ipv4 s of Some c \<Rightarrow> Some c | None \<Rightarrow> cidr_of 6 parse_ipv6 s)"

text \<open>A rule covers an address when both agree in the leading bits the prefix counts.\<close>

definition covers :: "ip_address \<Rightarrow> string \<Rightarrow> bool" where
  "covers ip s \<longleftrightarrow> (case cidr s of None \<Rightarrow> False
     | Some (v, a, p) \<Rightarrow> ip_version ip = v \<and> ip_value ip div 2 ^ (width v - p) = a div 2 ^ (width v - p))"

lemma make_prefix_le: "make_prefix v m = Some p \<Longrightarrow> p \<le> width v"
  by (auto simp: make_prefix_def prefix_of_string_def prefix_of_mask_def find_Some_iff width_def Let_def split: option.splits if_splits)

lemma network_of_cidr:
  assumes "\<forall>s a. parse s = Some a \<longrightarrow> a < 2 ^ width v" "ip_value ip < 2 ^ width (ip_version ip)"
  shows "(case network_of v parse s of None \<Rightarrow> cidr_of v parse s = None
    | Some n \<Rightarrow> \<exists>a p. cidr_of v parse s = Some (v, a, p) \<and>
        (ip_in_network ip n \<longleftrightarrow> ip_version ip = v \<and> ip_value ip div 2 ^ (width v - p) = a div 2 ^ (width v - p)))"
  using assms make_prefix_le
  by (auto simp: network_of_def cidr_of_def Let_def ip_in_network_def and_netmask split: option.splits)

lemma in_network_covers:
  assumes "ip_value ip < 2 ^ width (ip_version ip)"
  shows "(case parse_ip_network s of None \<Rightarrow> \<not> covers ip s | Some n \<Rightarrow> ip_in_network ip n = covers ip s)"
proof -
  have b: "\<forall>s a. parse_ipv4 s = Some a \<longrightarrow> a < 2 ^ width 4" "\<forall>s a. parse_ipv6 s = Some a \<longrightarrow> a < 2 ^ width 6"
    using ipv4_bound ipv6_bound by (auto simp: width_def)
  show ?thesis
    using network_of_cidr [where parse = parse_ipv4 and v = 4 and s = s, OF b(1) assms]
      network_of_cidr [where parse = parse_ipv6 and v = 6 and s = s, OF b(2) assms]
    by (auto simp: parse_ip_network_def covers_def cidr_def split: option.splits)
qed

lemma check_rules_find:
  assumes "ip_value ip < 2 ^ width (ip_version ip)"
  shows "check_rules ip rules = (case find (\<lambda>r. covers ip (snd r)) rules of None \<Rightarrow> True | Some r \<Rightarrow> fst r = ''allow'')"
proof (induction rules)
  case (Cons r rules)
  obtain a n where "r = (a, n)" by fastforce
  then show ?case using Cons in_network_covers [OF assms, of n] by (auto split: option.splits)
qed simp


section \<open>Credentials\<close>

text \<open>Basic authentication accepts exactly the right credentials: for every header that carries a user name
  without a colon and a password in the standard encoding, the answer is that of the password table for this
  name and password, and a header of any other scheme is refused.\<close>

theorem basic_auth_exact:
  assumes "CHR '':'' \<notin> set user" and "text_ok user" and "text_ok password" and "\<not> starts_with ''Basic '' other"
  shows "basic_check bc (Some (''Basic '' @ b64encode (encode (user @ '':'' @ password)))) b = check_credentials bc user password b
    \<and> \<not> basic_check bc (Some other) b \<and> \<not> basic_check bc None b"
proof -
  have "text_ok (user @ '':'' @ password)" using assms(2,3) by (simp add: text_ok_append text_ok_ascii_Cons)
  then have "utf8_decode (encode (user @ '':'' @ password)) = Some (user @ '':'' @ password)"
    by (simp add: utf8_decode_def text_ok_def del: encode_append encode_Cons)
  moreover have "partition '':'' (user @ '':'' @ password) = (user, '':'', password)"
    using cut_char [OF assms(1), of password] by (simp add: partition_def)
  ultimately show ?thesis using assms(4) by (simp add: basic_check_def starts_with_def del: encode_append encode_Cons)
qed

theorem basic_auth_exact_witness:
  "basic_check toy_bcrypt (Some (''Basic '' @ b64encode (encode (''ann'' @ '':'' @ ''s:t'')))) (set_user ''ann'' ''s:t'' (basic_auth_init ''r'' None))"
proof -
  have "text_ok ''ann''" "text_ok ''s:t''" "\<not> starts_with ''Basic '' ''Bearer x''" by code_simp+
  moreover have "check_credentials toy_bcrypt ''ann'' ''s:t'' (set_user ''ann'' ''s:t'' (basic_auth_init ''r'' None))" by code_simp
  ultimately show ?thesis
    using basic_auth_exact [of "''ann''" "''s:t''" "''Bearer x''" toy_bcrypt "set_user ''ann'' ''s:t'' (basic_auth_init ''r'' None)"]
    by simp
qed

end
