(* ===== verification/Admin.thy ===== *)
theory Admin
  imports Network_Manager Daemon
begin

text \<open>
  The web panels: sessions and login of the server panel (\<^verbatim>\<open>server/web/auth.py\<close>), what the handlers of
  the server and client panels compute (\<^verbatim>\<open>server/web/app.py\<close>, \<^verbatim>\<open>client/web/app.py\<close>) and the switches of
  the client's features.  Routing, templates and cookies belong to aiohttp and jinja2: a handler here is a
  function of the path, the cookie and the state it reads, and returns the data it renders.  Tokens are
  arguments, as \<^verbatim>\<open>secrets\<close> makes them.
\<close>

section \<open>Sessions of the server panel\<close>

type_synonym sessions = "(string, time) dict"

definition SESSION_TIMEOUT :: time where "SESSION_TIMEOUT = 3600"

text \<open>\<open>generated\<close> is the random password.\<close>

definition get_admin_credentials :: "(string, string) dict \<Rightarrow> string \<Rightarrow> string \<times> string" where
  "get_admin_credentials env generated =
     (let user = dict_get_or env ''LNSERVER_ADMIN_USER'' ''admin''; password = dict_get_or env ''LNSERVER_ADMIN_PASS'' [] in
      (user, if password = [] then generated else password))"

definition create_session :: "string \<Rightarrow> time \<Rightarrow> sessions \<Rightarrow> sessions" where
  "create_session token now s = dict_set token now s"

definition validate_session :: "string option \<Rightarrow> time \<Rightarrow> sessions \<Rightarrow> bool \<times> sessions" where
  "validate_session token now s =
     (case token of
        None \<Rightarrow> (False, s)
      | Some t \<Rightarrow>
          if t = [] then (False, s)
          else
            (case dict_get s t of
               None \<Rightarrow> (False, s)
             | Some created \<Rightarrow> if now - created > SESSION_TIMEOUT then (False, dict_del t s) else (True, s)))"

definition destroy_session :: "string \<Rightarrow> sessions \<Rightarrow> sessions" where
  "destroy_session token s = dict_del token s"

datatype gate = Handled | Unauthorized | ToLogin

definition auth_middleware :: "string \<Rightarrow> string option \<Rightarrow> time \<Rightarrow> sessions \<Rightarrow> gate \<times> sessions" where
  "auth_middleware path cookie now s =
     (if path = ''/login'' \<or> starts_with ''/static/'' path then (Handled, s)
      else
        (case validate_session cookie now s of
           (True, s) \<Rightarrow> (Handled, s)
         | (False, s) \<Rightarrow> (if starts_with ''/api/'' path then Unauthorized else ToLogin, s)))"

definition login_handler :: "string \<times> string \<Rightarrow> string \<Rightarrow> string \<Rightarrow> string \<Rightarrow> time \<Rightarrow> sessions \<Rightarrow> string option \<times> sessions" where
  "login_handler credentials username password token now s =
     (if username = fst credentials \<and> password = snd credentials then (Some token, create_session token now s) else (None, s))"

definition logout_handler :: "string option \<Rightarrow> sessions \<Rightarrow> sessions" where
  "logout_handler cookie s = (case cookie of None \<Rightarrow> s | Some t \<Rightarrow> if t = [] then s else destroy_session t s)"

datatype panel_event =
    Login string string string time
  | Visit string "string option" time
  | Logout "string option" time

text \<open>The logout page is itself behind the middleware.\<close>

fun panel_step :: "string \<times> string \<Rightarrow> sessions \<Rightarrow> panel_event \<Rightarrow> sessions" where
  "panel_step cr s (Login u p token now) = snd (login_handler cr u p token now s)"
| "panel_step cr s (Visit path cookie now) = snd (auth_middleware path cookie now s)"
| "panel_step cr s (Logout cookie now) =
     (case auth_middleware ''/logout'' cookie now s of (Handled, s) \<Rightarrow> logout_handler cookie s | (_, s) \<Rightarrow> s)"

section \<open>Pages of the server panel\<close>

definition uptime_short :: "int \<Rightarrow> string" where
  "uptime_short seconds =
     (if seconds < 60 then str_int seconds @ ''s''
      else
        (let minutes = seconds div 60; secs = seconds mod 60 in
         if minutes < 60 then str_int minutes @ ''m '' @ str_int secs @ ''s''
         else str_int (minutes div 60) @ ''h '' @ str_int (minutes mod 60) @ ''m''))"

definition uptime :: "int \<Rightarrow> string" where
  "uptime seconds =
     (if seconds < 60 then str_int seconds @ ''s''
      else
        (let minutes = seconds div 60; secs = seconds mod 60 in
         if minutes < 60 then str_int minutes @ ''m '' @ str_int secs @ ''s''
         else
           (let hours = minutes div 60; mins = minutes mod 60 in
            if hours < 24 then str_int hours @ ''h '' @ str_int mins @ ''m''
            else str_int (hours div 24) @ ''d '' @ str_int (hours mod 24) @ ''h'')))"

text \<open>\<open>None\<close> is a panel started without the object.  The registry has no method \<^verbatim>\<open>list_all\<close> or
  \<^verbatim>\<open>list_online\<close> and the network manager no \<^verbatim>\<open>list_networks\<close>; both are false in a condition when they
  are empty, because they define \<^verbatim>\<open>__len__\<close>.\<close>

definition clients_page :: "registry option \<Rightarrow> json list result" where
  "clients_page reg = (case reg of None \<Rightarrow> Inr [] | Some _ \<Rightarrow> Inl (AttributeError ''list_all''))"

definition client_detail :: "registry option \<Rightarrow> string \<Rightarrow> client_record option" where
  "client_detail reg cid = (case reg of None \<Rightarrow> None | Some r \<Rightarrow> registry_get r cid)"

definition networks_page :: "network_manager option \<Rightarrow> json list result" where
  "networks_page nm = (case nm of None \<Rightarrow> Inr [] | Some _ \<Rightarrow> Inl (AttributeError ''list_networks''))"

definition api_dashboard :: "int \<Rightarrow> registry option \<Rightarrow> network_manager option \<Rightarrow> json result" where
  "api_dashboard seconds reg nm =
     (if (case reg of None \<Rightarrow> False | Some r \<Rightarrow> registry_len r \<noteq> 0) then Inl (AttributeError ''list_online'')
      else if (case nm of None \<Rightarrow> False | Some m \<Rightarrow> nm_len m \<noteq> 0) then Inl (AttributeError ''list_networks'')
      else Inr (JObj [(''uptime'', JStr (uptime seconds)), (''clients_online'', JInt 0), (''clients_total'', JInt 0), (''networks'', JInt 0)]))"

definition api_clients :: "registry option \<Rightarrow> json result" where
  "api_clients reg = (case reg of None \<Rightarrow> Inr (JArr []) | Some _ \<Rightarrow> Inl (AttributeError ''list_all''))"

definition api_networks :: "network_manager option \<Rightarrow> json result" where
  "api_networks nm = (case nm of None \<Rightarrow> Inr (JArr []) | Some _ \<Rightarrow> Inl (AttributeError ''list_networks''))"

definition api_relay :: json where
  "api_relay = JObj [(''paths'', JArr []), (''bytes_relayed'', JInt 0)]"

section \<open>Client panel\<close>

fun state_value :: "punch_state \<Rightarrow> string" where
  "state_value IDLE = ''IDLE''"
| "state_value PUNCHING = ''PUNCHING''"
| "state_value CONNECTED = ''CONNECTED''"
| "state_value FAILED = ''FAILED''"
| "state_value CLOSED = ''CLOSED''"

fun nat_value :: "nat_type \<Rightarrow> string" where
  "nat_value OPEN = ''open''"
| "nat_value FULL_CONE = ''full_cone''"
| "nat_value RESTRICTED = ''restricted''"
| "nat_value PORT_RESTRICTED = ''port_restricted''"
| "nat_value SYMMETRIC = ''symmetric''"
| "nat_value UNKNOWN = ''unknown''"

definition opt_str :: "string option \<Rightarrow> json" where
  "opt_str x = (case x of None \<Rightarrow> JNull | Some s \<Rightarrow> JStr s)"

definition api_peers :: "'p tunnel_manager option \<Rightarrow> json" where
  "api_peers tm =
     (case tm of
        None \<Rightarrow> JArr []
      | Some m \<Rightarrow> JArr (map (\<lambda>t. JObj [(''peer_id'', JStr (peer_id t)), (''peer_ip'', opt_str (peer_ip t)),
                                        (''state'', JStr (state_value (t_state t)))]) (list_tunnels m)))"

definition api_tunnels :: "'p tunnel_manager option \<Rightarrow> json" where
  "api_tunnels tm =
     (case tm of
        None \<Rightarrow> JArr []
      | Some m \<Rightarrow> JArr (map (\<lambda>t. JObj [(''peer_id'', JStr (peer_id t)), (''state'', JStr (state_value (t_state t))),
                                        (''tx_seq'', JInt (tx_seq t)), (''rx_seq'', JInt (rx_seq t))]) (list_tunnels m)))"

definition client_api_dashboard :: "int \<Rightarrow> bool option \<Rightarrow> 'p tunnel_manager option \<Rightarrow> json" where
  "client_api_dashboard seconds authenticated tm =
     JObj [(''connected'', JBool (case authenticated of None \<Rightarrow> False | Some b \<Rightarrow> b)),
           (''tunnels_active'', JInt (case tm of None \<Rightarrow> 0 | Some m \<Rightarrow> int (length (list_tunnels m)))),
           (''uptime'', JStr (uptime_short seconds))]"

section \<open>Features\<close>

record feature =
  f_name :: string
  f_running :: bool
  f_config :: "(string, json) dict"
  f_requires :: "string list"

type_synonym features = "(string, feature) dict"

definition feature_states :: features where
  "feature_states =
     [(''tun'', \<lparr>f_name = ''TUN Mode'', f_running = False,
         f_config = [(''virtual_ip'', JStr ''25.1.0.1''), (''subnet'', JStr ''25.0.0.0/8''), (''mtu'', JInt 1400)],
         f_requires = [''root'', ''tun_available'']\<rparr>),
      (''service_exposure'', \<lparr>f_name = ''Service Exposure'', f_running = False,
         f_config = [(''exposed_services'', JArr []), (''mapped_services'', JArr [])], f_requires = []\<rparr>),
      (''nat_traversal'', \<lparr>f_name = ''NAT Traversal'', f_running = False,
         f_config = [(''nat_type'', JStr ''Unknown''), (''stun_server'', JStr ''stun.l.google.com:19302'')], f_requires = []\<rparr>),
      (''connection'', \<lparr>f_name = ''VPN Connection'', f_running = False,
         f_config = [(''server_host'', JStr ''localhost''), (''server_port'', JInt 54000), (''heartbeat_interval'', JInt 30), (''reconnect'', JBool True)],
         f_requires = []\<rparr>),
      (''topology'', \<lparr>f_name = ''Network Topology'', f_running = False,
         f_config = [(''mode'', JStr ''mesh''), (''hub_id'', JStr []), (''gateway_subnet'', JStr [])], f_requires = []\<rparr>)]"

definition set_running :: "string \<Rightarrow> bool \<Rightarrow> features \<Rightarrow> features" where
  "set_running fid b fs = dict_upd fid (\<lambda>f. f\<lparr>f_running := b\<rparr>) fs"

definition set_config :: "string \<Rightarrow> string \<Rightarrow> json \<Rightarrow> features \<Rightarrow> features" where
  "set_config fid key v fs = dict_upd fid (\<lambda>f. f\<lparr>f_config := dict_set key v (f_config f)\<rparr>) fs"

definition update_config :: "string \<Rightarrow> (string \<times> json) list \<Rightarrow> features \<Rightarrow> features" where
  "update_config fid items fs =
     dict_upd fid (\<lambda>f. f\<lparr>f_config := foldl (\<lambda>c kv. if dict_has c (fst kv) then dict_set (fst kv) (snd kv) c else c) (f_config f) items\<rparr>) fs"

text \<open>\<^verbatim>\<open>data.get("config", {}).items()\<close>.\<close>

definition config_items :: "json \<Rightarrow> (string \<times> json) list result" where
  "config_items data =
     (case data of
        JObj kvs \<Rightarrow>
          (case dict_get kvs ''config'' of
             None \<Rightarrow> Inr []
           | Some (JObj items) \<Rightarrow> Inr items
           | Some _ \<Rightarrow> Inl (AttributeError ''items''))
      | _ \<Rightarrow> Inl (AttributeError ''get''))"

datatype panel_effect = SetupTun | RequestShutdown | CloseTun

datatype reply = NotFound | Failed500 string | Ok string | Crash py_exc

text \<open>\<open>data\<close> is the body of the request when it is JSON.  \<open>daemon\<close> tells whether the panel has the daemon, \<open>setup\<close>
  is the outcome of its \<^verbatim>\<open>_setup_tun\<close>, \<open>detected\<close> the one of the detection of the NAT type, if there is a detector.\<close>

definition api_feature_start :: "string \<Rightarrow> json option \<Rightarrow> bool \<Rightarrow> unit result \<Rightarrow> nat_type result option \<Rightarrow> features
    \<Rightarrow> reply \<times> features \<times> panel_effect list" where
  "api_feature_start fid data daemon setup detected fs =
     (if \<not> dict_has fs fid then (NotFound, fs, [])
      else
        (case config_items (case data of None \<Rightarrow> JObj [] | Some j \<Rightarrow> j) of
           Inl e \<Rightarrow> (Crash e, fs, [])
         | Inr items \<Rightarrow>
             (let fs = set_running fid True (update_config fid items fs) in
              if fid = ''tun'' \<and> daemon then
                (case setup of
                   Inr _ \<Rightarrow> (Ok ''TUN interface created'', fs, [SetupTun])
                 | Inl e \<Rightarrow> (Failed500 ''error'', set_running fid False fs, [SetupTun]))
              else if fid = ''connection'' \<and> daemon then (Ok ''Reconnecting'', fs, [RequestShutdown])
              else if fid = ''nat_traversal'' then
                (case detected of
                   None \<Rightarrow> (Ok ''started'', fs, [])
                 | Some (Inr t) \<Rightarrow> (Ok (''NAT type: '' @ nat_value t), set_config fid ''nat_type'' (JStr (nat_value t)) fs, [])
                 | Some (Inl e) \<Rightarrow> (Ok ''Detection failed'', fs, []))
              else (Ok ''started'', fs, []))))"

text \<open>\<open>tun\<close> tells whether the daemon has an open interface, whose \<^verbatim>\<open>close\<close> does not raise.\<close>

definition api_feature_stop :: "string \<Rightarrow> bool \<Rightarrow> bool \<Rightarrow> features \<Rightarrow> reply \<times> features \<times> panel_effect list" where
  "api_feature_stop fid daemon tun fs =
     (if \<not> dict_has fs fid then (NotFound, fs, [])
      else if fid = ''tun'' \<and> daemon \<and> tun then (Ok ''TUN interface removed'', set_running fid False fs, [CloseTun])
      else (Ok ''stopped'', set_running fid False fs, []))"

text \<open>What the dashboard of the client shows, and the flags it brings up to date: whether the channel is
  authenticated, and with a daemon its server, its virtual address and whether it has an interface.\<close>

definition dashboard :: "bool option \<Rightarrow> (string \<times> string option \<times> bool) option \<Rightarrow> features \<Rightarrow> (string \<times> string \<times> nat) \<times> features" where
  "dashboard authenticated daemon fs =
     (let connected = (authenticated = Some True);
          fs = (if connected
                then set_config ''connection'' ''server_host'' (JStr (case daemon of None \<Rightarrow> ''localhost'' | Some (h, _) \<Rightarrow> h))
                       (set_running ''connection'' True fs)
                else fs);
          vip = (case daemon of Some (_, Some v, _) \<Rightarrow> if v = [] then ''-'' else v | _ \<Rightarrow> ''-'');
          fs = (case daemon of Some (_, _, True) \<Rightarrow> set_running ''tun'' True fs | _ \<Rightarrow> fs)
      in ((if connected then ''connected'' else ''disconnected'', vip, length (filter f_running (dict_values fs))), fs))"

section \<open>Sessions\<close>

text \<open>Every session was opened by a login with the credentials and has not been closed since.\<close>

definition sessions_from :: "string \<times> string \<Rightarrow> panel_event list \<Rightarrow> sessions \<Rightarrow> bool" where
  "sessions_from cr es s \<longleftrightarrow> (\<forall>token t. token \<noteq> [] \<and> dict_get s token = Some t \<longrightarrow>
     (\<exists>i < length es. es ! i = Login (fst cr) (snd cr) token t
        \<and> (\<forall>j. i < j \<and> j < length es \<longrightarrow> (\<forall>now. es ! j \<noteq> Logout (Some token) now))))"

lemma middleware_sessions: "dict_get (snd (auth_middleware path cookie now s)) token = Some t \<Longrightarrow> dict_get s token = Some t"
  by (auto simp: auth_middleware_def validate_session_def split: if_splits option.splits prod.splits)

lemma logout_removes:
  assumes "dict_get (panel_step cr s (Logout cookie now)) token = Some t"
  shows "dict_get s token = Some t \<and> (cookie = Some token \<longrightarrow> token = [])"
  using assms
  by (auto simp: auth_middleware_def validate_session_def logout_handler_def destroy_session_def starts_with_def
      split: if_splits option.splits prod.splits gate.splits)

lemma sessions_from_snoc:
  assumes "sessions_from cr es s"
    and "\<And>token t. token \<noteq> [] \<Longrightarrow> dict_get s' token = Some t \<Longrightarrow>
      (dict_get s token = Some t \<and> (\<forall>now. e \<noteq> Logout (Some token) now)) \<or> e = Login (fst cr) (snd cr) token t"
  shows "sessions_from cr (es @ [e]) s'"
  unfolding sessions_from_def
proof (intro allI impI)
  fix token t
  assume a: "token \<noteq> [] \<and> dict_get s' token = Some t"
  then consider (old) "dict_get s token = Some t" "\<forall>now. e \<noteq> Logout (Some token) now" | (new) "e = Login (fst cr) (snd cr) token t"
    using assms(2) by blast
  then show "\<exists>i < length (es @ [e]). (es @ [e]) ! i = Login (fst cr) (snd cr) token t
      \<and> (\<forall>j. i < j \<and> j < length (es @ [e]) \<longrightarrow> (\<forall>now. (es @ [e]) ! j \<noteq> Logout (Some token) now))"
  proof cases
    case old
    then obtain i where "i < length es" "es ! i = Login (fst cr) (snd cr) token t"
        "\<forall>j. i < j \<and> j < length es \<longrightarrow> (\<forall>now. es ! j \<noteq> Logout (Some token) now)"
      using assms(1) a unfolding sessions_from_def by blast
    then show ?thesis using old(2) by (intro exI [of _ i]) (auto simp: nth_append less_Suc_eq)
  next
    case new
    then show ?thesis by (intro exI [of _ "length es"]) auto
  qed
qed

lemma panel_run: "sessions_from cr es (foldl (panel_step cr) [] es)"
proof (induction es rule: rev_induct)
  case (snoc e es)
  let ?s = "foldl (panel_step cr) [] es"
  have "sessions_from cr (es @ [e]) (panel_step cr ?s e)"
  proof (rule sessions_from_snoc [OF snoc])
    fix token t
    assume a: "token \<noteq> []" "dict_get (panel_step cr ?s e) token = Some t"
    show "(dict_get ?s token = Some t \<and> (\<forall>now. e \<noteq> Logout (Some token) now)) \<or> e = Login (fst cr) (snd cr) token t"
    proof (cases e)
      case (Login u p tk now)
      then show ?thesis using a by (auto simp: login_handler_def create_session_def split: if_splits)
    next
      case (Visit path cookie now)
      then show ?thesis using a middleware_sessions [of path cookie now ?s token t] by simp
    next
      case (Logout cookie now)
      then show ?thesis using a logout_removes [of cr ?s cookie now token t] by auto
    qed
  qed
  then show ?case by simp
qed (simp add: sessions_from_def)

text \<open>C34: the server panel admits only logged-in administrators: after any sequence of logins, visits and logouts,
  a request for anything but the login page and static files is handled only if its cookie is a token that a
  login with the right user and password was given at most an hour before, and that was not logged out since.\<close>

theorem panel_access_authorised:
  assumes "fst (auth_middleware path cookie now (foldl (panel_step cr) [] es)) = Handled"
    and "path \<noteq> ''/login''" and "\<not> starts_with ''/static/'' path"
  shows "\<exists>token t i. cookie = Some token \<and> i < length es \<and> es ! i = Login (fst cr) (snd cr) token t \<and> now - t \<le> 3600
    \<and> (\<forall>j. i < j \<and> j < length es \<longrightarrow> (\<forall>at'. es ! j \<noteq> Logout (Some token) at'))"
proof -
  let ?s = "foldl (panel_step cr) [] es"
  have "fst (validate_session cookie now ?s)"
    using assms by (auto simp: auth_middleware_def split: prod.splits bool.splits if_splits)
  then obtain token t where "cookie = Some token" "token \<noteq> []" "dict_get ?s token = Some t" "now - t \<le> 3600"
    by (auto simp: validate_session_def SESSION_TIMEOUT_def split: option.splits if_splits)
  then show ?thesis using panel_run [of cr es] unfolding sessions_from_def by blast
qed

theorem panel_access_authorised_witness:
  "\<exists>token t i. Some ''tok'' = Some token \<and> i < 2 \<and> [Login ''admin'' ''x'' ''bad'' 0, Login ''admin'' ''pw'' ''tok'' 5] ! i = Login ''admin'' ''pw'' token t"
proof -
  let ?es = "[Login ''admin'' ''x'' ''bad'' 0, Login ''admin'' ''pw'' ''tok'' 5]"
  have h: "fst (auth_middleware ''/clients'' (Some ''tok'') 100 (foldl (panel_step (''admin'', ''pw'')) [] ?es)) = Handled"
    by (simp add: auth_middleware_def validate_session_def login_handler_def create_session_def SESSION_TIMEOUT_def starts_with_def)
  have "''/clients'' \<noteq> ''/login''" "\<not> starts_with ''/static/'' ''/clients''" by code_simp+
  from panel_access_authorised [OF h this] obtain token t i where
    "Some ''tok'' = Some token" "i < length ?es" "?es ! i = Login (fst (''admin'', ''pw'')) (snd (''admin'', ''pw'')) token t"
    by blast
  then show ?thesis by - (rule exI [of _ token], rule exI [of _ t], rule exI [of _ i], simp)
qed

section \<open>Features\<close>

text \<open>Requests never add or remove features or settings, and change only the feature they name.\<close>

lemma keys_dict_set_old: "dict_has d k \<Longrightarrow> dict_keys (dict_set k v d) = dict_keys d"
  by (induction d) (auto simp: dict_has_def split: if_splits)

lemma foldl_known_keys:
  "dict_keys (foldl (\<lambda>c kv. if dict_has c (fst kv) then dict_set (fst kv) (snd kv) c else c) c items) = dict_keys c"
  by (induction items arbitrary: c) (simp_all add: keys_dict_set_old)

text \<open>The settings of a feature keep their names, whatever a request sends.\<close>

lemma update_config_keys: "dict_get fs fid = Some f \<Longrightarrow>
   \<exists>f'. dict_get (update_config fid items fs) fid = Some f' \<and> dict_keys (f_config f') = dict_keys (f_config f)"
  by (simp add: update_config_def foldl_known_keys)

lemma feature_start_frame:
  assumes "api_feature_start fid data daemon setup detected fs = (r, fs', eff)" "fid' \<noteq> fid"
  shows "dict_keys fs' = dict_keys fs \<and> dict_get fs' fid' = dict_get fs fid'"
  using assms
  by (auto simp: api_feature_start_def update_config_def set_running_def set_config_def Let_def
      split: if_splits sum.splits option.splits)

section \<open>Defects\<close>

text \<open>The pages of the server panel fail as soon as there is anything to show.\<close>

lemma dashboard_fails: "registry_len r \<noteq> 0 \<Longrightarrow> \<exists>e. api_dashboard seconds (Some r) nm = Inl e"
  by (simp add: api_dashboard_def)

text \<open>Starting the connection from the client panel requests the shutdown of the daemon.\<close>

lemma connection_start_shuts_down:
  "api_feature_start ''connection'' None True setup detected feature_states
     = (Ok ''Reconnecting'', set_running ''connection'' True feature_states, [RequestShutdown])"
  by (simp add: api_feature_start_def config_items_def feature_states_def dict_has_def update_config_def set_running_def dict_upd_def)

end
