(* ===== verification/Master.thy ===== *)
theory Master
  imports Connection
begin

text \<open>
  The processes and auxiliary services of the proxy: the master with its listening sockets and workers
  (\<^verbatim>\<open>proxy/master.py\<close>), the proxying of TCP and UDP streams (\<^verbatim>\<open>proxy/stream_proxy.py\<close>), the table of
  TLS contexts (\<^verbatim>\<open>proxy/ssl/terminator.py\<close>) and the queue of the access log (\<^verbatim>\<open>proxy/logging.py\<close>).
  Process identifiers, sockets and TLS contexts are numbers or values the system hands out; a process that was
  sent SIGTERM, waited for and then killed if need be is dead.
\<close>

section \<open>Master\<close>

record master =
  ms_http :: "int list"
  ms_https :: "int list"
  ms_worker_count :: int
  ms_workers :: "nat list"
  ms_alive :: "nat list"
  ms_sockets :: "(int, nat) dict"
  ms_closed :: "nat list"
  ms_running :: bool

definition master_init :: "int list \<Rightarrow> int list \<Rightarrow> int \<Rightarrow> master" where
  "master_init http https workers = \<lparr>ms_http = http, ms_https = https, ms_worker_count = workers, ms_workers = [], ms_alive = [],
     ms_sockets = [], ms_closed = [], ms_running = False\<rparr>"

text \<open>\<open>bound\<close> gives the socket of a port or the error of binding it.\<close>

definition bind_port :: "(int \<Rightarrow> nat result) \<Rightarrow> int \<Rightarrow> unit result \<times> master \<Rightarrow> unit result \<times> master" where
  "bind_port bound port st =
     (case st of
        (Inl e, m) \<Rightarrow> (Inl e, m)
      | (Inr _, m) \<Rightarrow>
          (case bound port of
             Inl e \<Rightarrow> (Inl e, m)
           | Inr sock \<Rightarrow> (Inr (), m\<lparr>ms_sockets := dict_set port sock (ms_sockets m)\<rparr>)))"

definition spawn_worker :: "nat \<Rightarrow> master \<Rightarrow> master" where
  "spawn_worker pid m = m\<lparr>ms_workers := ms_workers m @ [pid], ms_alive := pid # ms_alive m\<rparr>"

definition worker_count :: "int \<Rightarrow> nat option \<Rightarrow> nat" where
  "worker_count workers cpu =
     (if workers \<noteq> 0 then nat workers else (case cpu of Some n \<Rightarrow> if n \<noteq> 0 then n else 1 | None \<Rightarrow> 1))"

definition master_start :: "(int \<Rightarrow> nat result) \<Rightarrow> nat option \<Rightarrow> nat list \<Rightarrow> master \<Rightarrow> unit result \<times> master" where
  "master_start bound cpu pids m =
     (case fold (bind_port bound) (ms_http m @ ms_https m) (Inr (), m\<lparr>ms_running := True\<rparr>) of
        (Inl e, m) \<Rightarrow> (Inl e, m)
      | (Inr _, m) \<Rightarrow> (Inr (), fold spawn_worker (take (worker_count (ms_worker_count m) cpu) pids) m))"

fun reap_loop :: "nat list \<Rightarrow> nat list \<Rightarrow> nat list \<Rightarrow> nat list \<times> nat list" where
  "reap_loop [] pids alive = ([], alive)"
| "reap_loop (w # ws) pids alive =
     (if w \<in> set alive then (case reap_loop ws pids alive of (ws', a) \<Rightarrow> (w # ws', a))
      else
        (case pids of
           [] \<Rightarrow> (w # ws, alive)
         | pid # pids \<Rightarrow> (case reap_loop ws pids (pid # alive) of (ws', a) \<Rightarrow> (pid # ws', a))))"

text \<open>\<open>pids\<close> are the identifiers the system will give to new processes.\<close>

definition reap_workers :: "nat list \<Rightarrow> master \<Rightarrow> master" where
  "reap_workers pids m = (case reap_loop (ms_workers m) pids (ms_alive m) of (ws, a) \<Rightarrow> m\<lparr>ms_workers := ws, ms_alive := a\<rparr>)"

definition stop_process :: "nat \<Rightarrow> master \<Rightarrow> master" where
  "stop_process pid m = m\<lparr>ms_alive := filter (\<lambda>p. p \<noteq> pid) (ms_alive m)\<rparr>"

definition reload :: "nat list \<Rightarrow> master \<Rightarrow> master" where
  "reload pids m =
     (let old = ms_workers m; m = fold spawn_worker (take (length old) pids) (m\<lparr>ms_workers := []\<rparr>)
      in fold stop_process old m)"

definition master_shutdown :: "master \<Rightarrow> master" where
  "master_shutdown m =
     (let m = fold stop_process (ms_workers m) (m\<lparr>ms_running := False\<rparr>) in m\<lparr>ms_closed := ms_closed m @ dict_values (ms_sockets m)\<rparr>)"

section \<open>Supervision\<close>

datatype master_event = Crash nat | Reap "nat list" | Reload "nat list" | ShutdownAll

fun master_step :: "master \<Rightarrow> master_event \<Rightarrow> master" where
  "master_step m (Crash pid) = m\<lparr>ms_alive := filter (\<lambda>p. p \<noteq> pid) (ms_alive m)\<rparr>"
| "master_step m (Reap pids) = reap_workers pids m"
| "master_step m (Reload pids) = reload pids m"
| "master_step m ShutdownAll = master_shutdown m"

text \<open>The system never gives a new process the number of a live one or of one whose object is still kept.\<close>

fun master_may :: "master \<Rightarrow> master_event \<Rightarrow> bool" where
  "master_may m (Reap pids) \<longleftrightarrow> distinct pids \<and> set pids \<inter> (set (ms_workers m) \<union> set (ms_alive m)) = {} \<and> length (ms_workers m) \<le> length pids"
| "master_may m (Reload pids) \<longleftrightarrow> distinct pids \<and> set pids \<inter> (set (ms_workers m) \<union> set (ms_alive m)) = {} \<and> length (ms_workers m) \<le> length pids"
| "master_may m _ \<longleftrightarrow> True"

definition master_inv :: "nat \<Rightarrow> master \<Rightarrow> bool" where
  "master_inv n m \<longleftrightarrow> length (ms_workers m) = n \<and> set (ms_alive m) \<subseteq> set (ms_workers m)"

lemma spawn_all: "fold spawn_worker pids m = m\<lparr>ms_workers := ms_workers m @ pids, ms_alive := rev pids @ ms_alive m\<rparr>"
  by (induction pids arbitrary: m) (simp_all add: spawn_worker_def)

lemma stop_all: "fold stop_process ps m = m\<lparr>ms_alive := filter (\<lambda>p. p \<notin> set ps) (ms_alive m)\<rparr>"
  by (induction ps arbitrary: m) (simp_all add: stop_process_def conj_commute)

lemma reap_exact:
  assumes "reap_loop ws pids alive = (ws', alive')" "length ws \<le> length pids"
  shows "length ws' = length ws \<and> set ws' \<subseteq> set alive' \<and> set alive \<subseteq> set alive'
    \<and> set alive' \<subseteq> set alive \<union> set ws' \<and> set ws \<inter> set alive \<subseteq> set ws'"
  using assms
proof (induction ws pids alive arbitrary: ws' alive' rule: reap_loop.induct)
  case (2 w ws pids alive)
  then show ?case by (cases pids) (fastforce split: if_splits prod.splits)+
qed simp

lemma reap_all_alive:
  assumes "master_inv n m" "master_may m (Reap pids)"
  shows "length (ms_workers (reap_workers pids m)) = n \<and> set (ms_workers (reap_workers pids m)) = set (ms_alive (reap_workers pids m))"
proof -
  obtain ws a where r: "reap_loop (ms_workers m) pids (ms_alive m) = (ws, a)" by fastforce
  have "length ws = n" "set ws = set a" using assms reap_exact [OF r] unfolding master_inv_def by (simp, simp, blast)
  then show ?thesis using r by (simp add: reap_workers_def)
qed

interpretation supervision: guarded_machine master_step master_may "master_inv n" for n
proof
  fix m e
  assume inv: "master_inv n m" and may: "master_may m e"
  show "master_inv n (master_step m e)"
  proof (cases e)
    case (Reap pids)
    then show ?thesis using reap_all_alive [OF inv, of pids] may by (simp add: master_inv_def)
  qed (use inv may in \<open>auto simp: master_inv_def reload_def master_shutdown_def spawn_all stop_all Let_def\<close>)
qed

text \<open>C39: the master keeps its workers.  After a start that could bind its ports, in every sequence of crashes,
  inspections, reloads and shutdowns the number of workers stays the configured one and every live process is one
  of them, so that none is orphaned; an inspection leaves all of them alive, and a shutdown leaves none and closes
  every listening socket.\<close>

theorem master_supervises:
  assumes "master_start bound cpu pids (master_init http https workers) = (Inr (), m0)"
    and "worker_count workers cpu \<le> length pids"
    and "\<forall>i < length es. master_may (foldl master_step m0 (take i es)) (es ! i)"
    and "m = foldl master_step m0 es"
  shows "length (ms_workers m) = worker_count workers cpu \<and> set (ms_alive m) \<subseteq> set (ms_workers m)
    \<and> (\<forall>new. master_may m (Reap new) \<longrightarrow> set (ms_workers (reap_workers new m)) = set (ms_alive (reap_workers new m)))
    \<and> ms_alive (master_shutdown m) = [] \<and> set (dict_values (ms_sockets m)) \<subseteq> set (ms_closed (master_shutdown m))"
proof -
  have bound_frame: "ms_workers (snd (fold (bind_port bound) ports st)) = ms_workers (snd st) \<and> ms_alive (snd (fold (bind_port bound) ports st)) = ms_alive (snd st)
      \<and> ms_worker_count (snd (fold (bind_port bound) ports st)) = ms_worker_count (snd st)" for ports st
    by (induction ports arbitrary: st) (auto simp: bind_port_def split: sum.splits prod.splits)
  have "master_inv (worker_count workers cpu) m0"
    using assms(1,2) bound_frame [of "http @ https" "(Inr (), (master_init http https workers)\<lparr>ms_running := True\<rparr>)"]
    by (auto simp: master_start_def master_init_def spawn_all master_inv_def split: prod.splits sum.splits)
  then have inv: "master_inv (worker_count workers cpu) m" unfolding assms(4)
    by (rule supervision.guarded_run) (use assms(3) in \<open>simp add: supervision.run_ok_iff\<close>)
  then show ?thesis using reap_all_alive [OF inv] inv by (auto simp: master_inv_def master_shutdown_def stop_all Let_def filter_empty_conv)
qed

theorem master_supervises_witness:
  "length (ms_workers (foldl master_step (snd (master_start (\<lambda>p. Inr (nat p)) (Some 2) [10, 11] (master_init [80] [443] 0)))
     [Crash 10, Reap [20, 21], Reload [30, 31]])) = 2"
proof -
  let ?m0 = "snd (master_start (\<lambda>p. Inr (nat p)) (Some 2) [10, 11] (master_init [80] [443] 0))"
  let ?es = "[Crash 10, Reap [20, 21], Reload [30, 31]]"
  have s: "master_start (\<lambda>p. Inr (nat p)) (Some 2) [10, 11] (master_init [80] [443] 0) = (Inr (), ?m0)"
    by (simp add: master_start_def master_init_def bind_port_def worker_count_def)
  have "\<forall>i < length ?es. master_may (foldl master_step ?m0 (take i ?es)) (?es ! i)"
    by (simp add: all_less_Suc_split master_start_def master_init_def bind_port_def worker_count_def spawn_worker_def reap_workers_def)
  then show ?thesis using master_supervises [OF s _ _ refl, of ?es] by (simp add: worker_count_def)
qed

section \<open>Streams\<close>

text \<open>Choosing the server of a raw stream.  \<open>None\<close> means that the client is dropped.\<close>

definition stream_target :: "(bytes \<Rightarrow> nat) \<Rightarrow> real \<Rightarrow> (string, balancer) dict \<Rightarrow> upstream_block list \<Rightarrow> string \<Rightarrow> string
    \<Rightarrow> upstream_server option result \<times> (string, balancer) dict" where
  "stream_target md5 rnd balancers upstreams upstream_name ip =
     (case dict_get balancers upstream_name of
        None \<Rightarrow> (Inr None, balancers)
      | Some b \<Rightarrow>
          (case find (\<lambda>u. ub_name u = upstream_name) upstreams of
             None \<Rightarrow> (Inr None, balancers)
           | Some u \<Rightarrow>
               (case balancer_select md5 rnd b (ub_servers u) ip of (sel, b') \<Rightarrow> (sel, dict_set upstream_name b' balancers))))"

datatype pipe_read = Data bytes | ReadError

text \<open>One direction: what is written to the other side, given the results of the reads (an empty one is the end of
  the stream).\<close>

fun pipe :: "pipe_read list \<Rightarrow> bytes" where
  "pipe [] = []"
| "pipe (ReadError # rs) = []"
| "pipe (Data d # rs) = (if d = [] then [] else d @ pipe rs)"

record stream_result =
  sr_to_upstream :: bytes
  sr_to_client :: bytes
  sr_client_closed :: bool
  sr_upstream_closed :: bool

definition handle_tcp :: "(bytes \<Rightarrow> nat) \<Rightarrow> real \<Rightarrow> (string, balancer) dict \<Rightarrow> upstream_block list \<Rightarrow> string \<Rightarrow> (string \<times> int) option
    \<Rightarrow> (string \<Rightarrow> int \<Rightarrow> bool) \<Rightarrow> pipe_read list \<Rightarrow> pipe_read list \<Rightarrow> stream_result result \<times> (string, balancer) dict" where
  "handle_tcp md5 rnd balancers upstreams name peername dial from_client from_upstream =
     (let ip = (case peername of Some (h, _) \<Rightarrow> h | None \<Rightarrow> ''127.0.0.1'');
          dropped = \<lparr>sr_to_upstream = [], sr_to_client = [], sr_client_closed = True, sr_upstream_closed = True\<rparr>
      in case stream_target md5 rnd balancers upstreams name ip of
           (Inl e, bs) \<Rightarrow> (Inl e, bs)
         | (Inr None, bs) \<Rightarrow> (Inr dropped, bs)
         | (Inr (Some s), bs) \<Rightarrow>
             if dial (us_host s) (us_port s)
             then (Inr \<lparr>sr_to_upstream = pipe from_client, sr_to_client = pipe from_upstream, sr_client_closed = True, sr_upstream_closed = True\<rparr>, bs)
             else (Inr dropped, bs))"

text \<open>\<open>answer\<close> is the datagram that the server sends back, if one arrives within the time.\<close>

definition handle_udp :: "(bytes \<Rightarrow> nat) \<Rightarrow> real \<Rightarrow> (string, balancer) dict \<Rightarrow> upstream_block list \<Rightarrow> string \<Rightarrow> string \<times> int
    \<Rightarrow> (string \<Rightarrow> int \<Rightarrow> bytes option) \<Rightarrow> bytes option result \<times> (string, balancer) dict" where
  "handle_udp md5 rnd balancers upstreams name client_addr answer =
     (case stream_target md5 rnd balancers upstreams name (fst client_addr) of
        (Inl e, bs) \<Rightarrow> (Inl e, bs)
      | (Inr None, bs) \<Rightarrow> (Inr None, bs)
      | (Inr (Some s), bs) \<Rightarrow> (Inr (answer (us_host s) (us_port s)), bs))"

text \<open>However the stream arrives in pieces, the other side receives it whole, up to its end.\<close>

lemma pipe_transparent: "list_all (\<lambda>d. d \<noteq> []) ds \<Longrightarrow> pipe (map Data ds @ Data [] # rest) = concat ds"
  by (induction ds) auto

lemma find_in: "find P xs = Some x \<Longrightarrow> x \<in> set xs \<and> P x"
  by (induction xs) (auto split: if_splits)

lemma stream_target_Some:
  assumes "stream_target md5 rnd balancers upstreams name ip = (Inr (Some s), bs)"
  shows "\<exists>b u b'. dict_get balancers name = Some b \<and> u \<in> set upstreams \<and> ub_name u = name
    \<and> balancer_select md5 rnd b (ub_servers u) ip = (Inr (Some s), b')"
  using assms by (auto simp: stream_target_def split: option.splits prod.splits dest!: find_in)

text \<open>Bytes reach an upstream only after its balancer chose the server from the configured group of the name.\<close>

lemma stream_to_chosen_server:
  assumes "handle_tcp md5 rnd balancers upstreams name peername dial rs ws = (Inr r, bs)" "sr_to_upstream r \<noteq> []"
  shows "\<exists>ip s bs'. stream_target md5 rnd balancers upstreams name ip = (Inr (Some s), bs') \<and> dial (us_host s) (us_port s)
    \<and> sr_to_upstream r = pipe rs"
proof -
  let ?ip = "case peername of Some (h, _) \<Rightarrow> h | None \<Rightarrow> ''127.0.0.1''"
  obtain sel bs' where t: "stream_target md5 rnd balancers upstreams name ?ip = (sel, bs')" by fastforce
  then obtain s where "sel = Inr (Some s)" "dial (us_host s) (us_port s)" "sr_to_upstream r = pipe rs"
    using assms by (cases sel) (auto simp: handle_tcp_def Let_def split: option.splits if_splits)
  then show ?thesis using t by blast
qed

section \<open>TLS contexts\<close>

record 'c ssl_manager =
  sm_contexts :: "(int, 'c) dict"
  sm_sni_contexts :: "(string, 'c) dict"

definition ssl_init :: "'c ssl_manager" where
  "ssl_init = \<lparr>sm_contexts = [], sm_sni_contexts = []\<rparr>"

datatype tls_version = TLSv1_2 | TLSv1_3

record tls_context =
  tc_cert :: string
  tc_key :: string
  tc_minimum :: "tls_version option"
  tc_ciphers :: "string option"

definition load_certificate :: "(string \<Rightarrow> bool) \<Rightarrow> (string \<Rightarrow> string \<Rightarrow> unit result) \<Rightarrow> string \<Rightarrow> string \<Rightarrow> string list \<Rightarrow> string \<Rightarrow> tls_context result" where
  "load_certificate path_exists load_chain cert_path key_path protocols ciphers =
     (if \<not> path_exists cert_path then Inl (OtherError ''FileNotFoundError'' (''certificate not found: '' @ cert_path))
      else if \<not> path_exists key_path then Inl (OtherError ''FileNotFoundError'' (''private key not found: '' @ key_path))
      else
        (case load_chain cert_path key_path of
           Inl e \<Rightarrow> Inl e
         | Inr _ \<Rightarrow>
             Inr \<lparr>tc_cert = cert_path, tc_key = key_path,
                  tc_minimum = (if protocols = [] then None else if ''TLSv1.2'' \<notin> set protocols then Some TLSv1_3 else Some TLSv1_2),
                  tc_ciphers = (if ciphers = [] then None else Some ciphers)\<rparr>))"

definition add_context :: "int \<Rightarrow> 'c \<Rightarrow> string list \<Rightarrow> 'c ssl_manager \<Rightarrow> 'c ssl_manager" where
  "add_context port ctx server_names m =
     m\<lparr>sm_contexts := dict_set port ctx (sm_contexts m),
       sm_sni_contexts := foldl (\<lambda>d name. dict_set name ctx d) (sm_sni_contexts m) server_names\<rparr>"

definition get_context :: "int \<Rightarrow> string \<Rightarrow> 'c ssl_manager \<Rightarrow> 'c option" where
  "get_context port server_name m =
     (if server_name \<noteq> [] \<and> dict_has (sm_sni_contexts m) server_name then dict_get (sm_sni_contexts m) server_name
      else dict_get (sm_contexts m) port)"

definition wrap_socket :: "int \<Rightarrow> string \<Rightarrow> 'c ssl_manager \<Rightarrow> 'c result" where
  "wrap_socket port server_name m =
     (case get_context port server_name m of None \<Rightarrow> Inl (ValueError ''no SSL context for port'') | Some ctx \<Rightarrow> Inr ctx)"

lemma sni_names: "dict_get (foldl (\<lambda>d name. dict_set name ctx d) d names) k = (if k \<in> set names then Some ctx else dict_get d k)"
  by (induction names arbitrary: d) auto

text \<open>A registered name gets its certificate on every port, every other name the one of the port.\<close>

lemma get_added_context:
  "get_context port' name (add_context port ctx names m) =
     (if name \<noteq> [] \<and> name \<in> set names then Some ctx
      else if name \<noteq> [] \<and> dict_has (sm_sni_contexts m) name then dict_get (sm_sni_contexts m) name
      else if port' = port then Some ctx else dict_get (sm_contexts m) port')"
  by (auto simp: get_context_def add_context_def sni_names dict_has_def)

section \<open>Access log\<close>

record access_logger =
  lg_path :: string
  lg_queue :: "access_entry list"
  lg_lines :: "access_entry list"
  lg_running :: bool

definition logger_init :: "string \<Rightarrow> access_logger" where
  "logger_init log_path = \<lparr>lg_path = log_path, lg_queue = [], lg_lines = [], lg_running = False\<rparr>"

definition logger_start :: "access_logger \<Rightarrow> access_logger" where
  "logger_start l = l\<lparr>lg_running := True\<rparr>"

definition logger_log :: "access_entry \<Rightarrow> access_logger \<Rightarrow> access_logger" where
  "logger_log e l = l\<lparr>lg_queue := lg_queue l @ [e]\<rparr>"

text \<open>One turn of the writer task; an entry that cannot be written is dropped.\<close>

definition logger_turn :: "bool \<Rightarrow> access_logger \<Rightarrow> access_logger" where
  "logger_turn writable l =
     (if \<not> lg_running l then l
      else
        (case lg_queue l of
           [] \<Rightarrow> l
         | e # es \<Rightarrow> l\<lparr>lg_queue := es, lg_lines := (if lg_path l = [] \<or> writable then lg_lines l @ [e] else lg_lines l)\<rparr>))"

definition logger_stop :: "access_logger \<Rightarrow> access_logger" where
  "logger_stop l = l\<lparr>lg_running := False\<rparr>"

text \<open>The log is in order and nothing is lost while the writer runs on a writable file.\<close>

lemma logger_fifo:
  "lg_lines (logger_turn True l) @ lg_queue (logger_turn True l) = lg_lines l @ lg_queue l"
  "lg_lines (logger_log e l) @ lg_queue (logger_log e l) = lg_lines l @ lg_queue l @ [e]"
  by (auto simp: logger_turn_def logger_log_def split: list.splits)

text \<open>Stopping does not drain the queue: what was queued is never written.\<close>

lemma stopped_logger_loses: "lg_lines (logger_turn w (logger_stop l)) = lg_lines l"
  by (simp add: logger_turn_def logger_stop_def)

end
