(* ===== verification/Proxy_Config.thy ===== *)
theory Proxy_Config
  imports Proxy_Status Http
begin

text \<open>
  The configuration file of the proxy (\<^verbatim>\<open>proxy/config.py\<close>): from the parsed JSON or YAML document, both of
  which give the same values, to the dataclasses.  The parser does not check types, so an instance is the list of
  its fields with whatever values the document has; \<open>typed_server\<close> and \<open>typed_location\<close> are the readings
  of an instance as the records that the balancers and the HTTP engine work on, when its values have the right types.
\<close>

section \<open>Dynamic values\<close>

text \<open>\<^verbatim>\<open>d.get(key, default)\<close>, \<^verbatim>\<open>int(value)\<close> and iteration over a value.\<close>

definition get_or :: "json \<Rightarrow> string \<Rightarrow> json \<Rightarrow> json result" where
  "get_or d key def =
     (case d of JObj kvs \<Rightarrow> Inr (case dict_get kvs key of Some v \<Rightarrow> v | None \<Rightarrow> def) | _ \<Rightarrow> Inl (AttributeError ''get''))"

definition json_int :: "(string \<Rightarrow> int) \<Rightarrow> json \<Rightarrow> int result" where
  "json_int trunc v =
     (case v of
        JInt i \<Rightarrow> Inr i
      | JBool b \<Rightarrow> Inr (of_bool b)
      | JFloat f \<Rightarrow> Inr (trunc f)
      | JStr s \<Rightarrow> (case py_int s of Some i \<Rightarrow> Inr i | None \<Rightarrow> Inl (ValueError ''invalid literal for int()''))
      | _ \<Rightarrow> Inl (TypeError ''int() argument''))"

definition iterate :: "json \<Rightarrow> json list result" where
  "iterate v =
     (case v of
        JArr xs \<Rightarrow> Inr xs
      | JObj kvs \<Rightarrow> Inr (map (\<lambda>kv. JStr (fst kv)) kvs)
      | JStr s \<Rightarrow> Inr (map (\<lambda>c. JStr [c]) s)
      | _ \<Rightarrow> Inl (TypeError ''object is not iterable''))"

definition json_items :: "json \<Rightarrow> (string \<times> json) list result" where
  "json_items v = (case v of JObj kvs \<Rightarrow> Inr kvs | _ \<Rightarrow> Inl (AttributeError ''items''))"

fun map_r :: "('a \<Rightarrow> 'b result) \<Rightarrow> 'a list \<Rightarrow> 'b list result" where
  "map_r f [] = Inr []"
| "map_r f (x # xs) = (case f x of Inl e \<Rightarrow> Inl e | Inr y \<Rightarrow> (case map_r f xs of Inl e \<Rightarrow> Inl e | Inr ys \<Rightarrow> Inr (y # ys)))"

definition bind_r :: "'a result \<Rightarrow> ('a \<Rightarrow> 'b result) \<Rightarrow> 'b result" where
  "bind_r m f = (case m of Inl e \<Rightarrow> Inl e | Inr x \<Rightarrow> f x)"

type_synonym inst = "(string, json) dict"

text \<open>The fields of an instance, each with its key in the document and its default.\<close>

definition read_fields :: "(string \<times> json) list \<Rightarrow> json \<Rightarrow> inst result" where
  "read_fields spec d = map_r (\<lambda>kd. bind_r (get_or d (fst kd) (snd kd)) (\<lambda>v. Inr (fst kd, v))) spec"

section \<open>Blocks\<close>

definition server_spec :: "(string \<times> json) list" where
  "server_spec = [(''host'', JStr []), (''port'', JInt 80), (''weight'', JInt 1), (''max_conns'', JInt 0),
     (''backup'', JBool False), (''down'', JBool False)]"

definition location_spec :: "(string \<times> json) list" where
  "location_spec = [(''path'', JStr ''/''), (''upstream'', JStr []), (''root'', JStr []), (''ssl'', JBool False),
     (''cache'', JBool False), (''cache_ttl'', JInt 300), (''compress'', JBool True), (''rate_limit'', JInt 0),
     (''basic_auth'', JStr []), (''ws_enabled'', JBool True), (''ws_timeout'', JFloat ''300.0''),
     (''ws_max_message_size'', JInt 1048576), (''ws_ping_interval'', JFloat ''30.0'')]"

text \<open>A server is a text \<^verbatim>\<open>host:port\<close> or a mapping; anything else is passed over.\<close>

definition parse_server :: "json \<Rightarrow> inst option result" where
  "parse_server s =
     (case s of
        JStr text \<Rightarrow>
          (case partition '':'' text of (h, _, port) \<Rightarrow>
             bind_r (if port = [] then Inr 80
                     else (case py_int port of Some i \<Rightarrow> Inr i | None \<Rightarrow> Inl (ValueError ''invalid literal for int()'')))
               (\<lambda>p. Inr (Some [(''host'', JStr h), (''port'', JInt p), (''weight'', JInt 1), (''max_conns'', JInt 0),
                               (''backup'', JBool False), (''down'', JBool False)])))
      | JObj _ \<Rightarrow> bind_r (read_fields server_spec s) (\<lambda>i. Inr (Some i))
      | _ \<Rightarrow> Inr None)"

record upstream_inst =
  ui_servers :: "inst list"
  ui_fields :: inst

definition upstream_spec :: "(string \<times> json) list" where
  "upstream_spec = [(''name'', JStr []), (''algorithm'', JStr ''round_robin''), (''max_failures'', JInt 3), (''fail_timeout'', JInt 10)]"

definition parse_upstream :: "json \<Rightarrow> upstream_inst result" where
  "parse_upstream u =
     bind_r (get_or u ''servers'' (JArr [])) (\<lambda>ss.
     bind_r (iterate ss) (\<lambda>ss.
     bind_r (map_r parse_server ss) (\<lambda>servers.
     bind_r (read_fields upstream_spec u) (\<lambda>fs.
     Inr \<lparr>ui_servers = List.map_filter id servers, ui_fields = fs\<rparr>))))"

definition parse_ssl :: "(string \<Rightarrow> int option) \<Rightarrow> string \<times> json \<Rightarrow> (int \<times> inst) result" where
  "parse_ssl to_port kv =
     (case to_port (fst kv) of
        None \<Rightarrow> Inl (ValueError ''invalid literal for int()'')
      | Some port \<Rightarrow>
          bind_r (read_fields [(''cert'', JStr []), (''key'', JStr []), (''protocols'', JArr [JStr ''TLSv1.2'', JStr ''TLSv1.3''])] (snd kv))
            (\<lambda>i. Inr (port, i)))"

definition parse_port_list :: "(string \<Rightarrow> int) \<Rightarrow> json \<Rightarrow> int list result" where
  "parse_port_list trunc value =
     (case value of
        JInt i \<Rightarrow> Inr [i]
      | JBool b \<Rightarrow> Inr [of_bool b]
      | JArr xs \<Rightarrow> map_r (json_int trunc) xs
      | JStr s \<Rightarrow> map_r (\<lambda>p. json_int trunc (JStr p)) (split_on '','' s)
      | _ \<Rightarrow> Inr [80])"

section \<open>The whole configuration\<close>

record proxy_config =
  px_workers :: int
  px_worker_connections :: int
  px_http :: "int list"
  px_https :: "int list"
  px_upstreams :: "upstream_inst list"
  px_locations :: "inst list"
  px_ssl_blocks :: "(int, inst) dict"
  px_cache :: "bool \<times> json \<times> json"
  px_gzip :: "json \<times> json \<times> json"
  px_logs :: "json \<times> json \<times> json"
  px_admin_port :: int

definition default_config :: proxy_config where
  "default_config = \<lparr>px_workers = 0, px_worker_connections = 1024, px_http = [80], px_https = [443], px_upstreams = [],
     px_locations = [], px_ssl_blocks = [], px_cache = (False, JStr ''/tmp/lnproxy-cache'', JInt 104857600),
     px_gzip = (JBool True, JInt 256, JInt 6), px_logs = (JStr [], JStr [], JStr ''combined''), px_admin_port = 54010\<rparr>"

text \<open>\<open>if key in raw: ...\<close>: the value of a key through a reader, or the default.\<close>

definition opt_key :: "(string \<times> json) list \<Rightarrow> string \<Rightarrow> (json \<Rightarrow> 'a result) \<Rightarrow> 'a \<Rightarrow> 'a result" where
  "opt_key raw key rd def = (case dict_get raw key of None \<Rightarrow> Inr def | Some v \<Rightarrow> rd v)"

definition parse_config :: "(string \<Rightarrow> int) \<Rightarrow> (string \<times> json) list \<Rightarrow> proxy_config result" where
  "parse_config trunc raw =
     bind_r (opt_key raw ''workers'' (json_int trunc) 0) (\<lambda>workers.
     bind_r (opt_key raw ''worker_connections'' (json_int trunc) 1024) (\<lambda>conns.
     bind_r (opt_key raw ''http'' (parse_port_list trunc) [80]) (\<lambda>http.
     bind_r (opt_key raw ''https'' (parse_port_list trunc) [443]) (\<lambda>https.
     bind_r (opt_key raw ''upstreams'' (\<lambda>v. bind_r (iterate v) (map_r parse_upstream)) []) (\<lambda>ups.
     bind_r (opt_key raw ''locations'' (\<lambda>v. bind_r (iterate v) (map_r (read_fields location_spec))) []) (\<lambda>locs.
     bind_r (opt_key raw ''ssl'' (\<lambda>v. bind_r (json_items v) (map_r (parse_ssl py_int))) []) (\<lambda>ssl.
     bind_r (opt_key raw ''cache'' (\<lambda>c. bind_r (get_or c ''path'' (JStr ''/tmp/lnproxy-cache'')) (\<lambda>p.
        bind_r (get_or c ''max_size'' (JInt 104857600)) (\<lambda>m. Inr (True, p, m)))) (px_cache default_config)) (\<lambda>cache.
     bind_r (opt_key raw ''gzip'' (\<lambda>g. bind_r (get_or g ''enabled'' (JBool True)) (\<lambda>e.
        bind_r (get_or g ''min_length'' (JInt 256)) (\<lambda>m. bind_r (get_or g ''level'' (JInt 6)) (\<lambda>l. Inr (e, m, l))))) (px_gzip default_config)) (\<lambda>gzip.
     bind_r (opt_key raw ''access_log'' Inr (JStr [])) (\<lambda>alog.
     bind_r (opt_key raw ''error_log'' Inr (JStr [])) (\<lambda>elog.
     bind_r (opt_key raw ''log_format'' Inr (JStr ''combined'')) (\<lambda>fmt.
     bind_r (opt_key raw ''admin'' (\<lambda>a. bind_r (get_or a ''port'' (JInt 54010)) (json_int trunc)) 54010) (\<lambda>admin.
     Inr \<lparr>px_workers = workers, px_worker_connections = conns, px_http = http, px_https = https, px_upstreams = ups,
          px_locations = locs, px_ssl_blocks = foldl (\<lambda>d kv. dict_set (fst kv) (snd kv) d) [] ssl, px_cache = cache,
          px_gzip = gzip, px_logs = (alog, elog, fmt), px_admin_port = admin\<rparr>)))))))))))))"

text \<open>A document that is no mapping: the first test \<^verbatim>\<open>"workers" in raw\<close> that holds leads to an index with a
  text, and else \<^verbatim>\<open>raw.get\<close> is missing.\<close>

definition bad_document :: "json \<Rightarrow> py_exc" where
  "bad_document doc =
     (let keys = [''workers'', ''worker_connections'', ''http'', ''https''] in
      case doc of
        JArr xs \<Rightarrow> if list_ex (\<lambda>k. JStr k \<in> set xs) keys then TypeError ''indices must be integers'' else AttributeError ''get''
      | JStr s \<Rightarrow> if list_ex (\<lambda>k. contains k s) keys then TypeError ''indices must be integers'' else AttributeError ''get''
      | _ \<Rightarrow> TypeError ''argument is not iterable'')"

text \<open>\<^verbatim>\<open>load_config\<close>, given what the file holds: missing, empty (null), a mapping or another document.\<close>

definition load_config :: "(string \<Rightarrow> int) \<Rightarrow> json result option \<Rightarrow> proxy_config result" where
  "load_config trunc file =
     (case file of
        None \<Rightarrow> Inl (OtherError ''FileNotFoundError'' ''config file not found'')
      | Some (Inl e) \<Rightarrow> Inl e
      | Some (Inr JNull) \<Rightarrow> parse_config trunc []
      | Some (Inr (JObj raw)) \<Rightarrow> parse_config trunc raw
      | Some (Inr doc) \<Rightarrow> Inl (bad_document doc))"

section \<open>Typed readings\<close>

definition typed_server :: "inst \<Rightarrow> upstream_server option" where
  "typed_server i =
     (case map (dict_get i) [''host'', ''port'', ''weight'', ''max_conns'', ''backup'', ''down''] of
        [Some (JStr h), Some (JInt p), Some (JInt w), Some (JInt m), Some (JBool b), Some (JBool d)] \<Rightarrow>
          Some \<lparr>us_host = h, us_port = p, us_weight = w, us_max_conns = m, us_backup = b, us_down = d\<rparr>
      | _ \<Rightarrow> None)"

definition server_json :: "upstream_server \<Rightarrow> json" where
  "server_json s = JObj [(''host'', JStr (us_host s)), (''port'', JInt (us_port s)), (''weight'', JInt (us_weight s)),
     (''max_conns'', JInt (us_max_conns s)), (''backup'', JBool (us_backup s)), (''down'', JBool (us_down s))]"

definition typed_upstream :: "upstream_inst \<Rightarrow> upstream_block option" where
  "typed_upstream u =
     (if None \<in> set (map typed_server (ui_servers u)) then None
      else
        (case map (dict_get (ui_fields u)) [''name'', ''algorithm'', ''max_failures'', ''fail_timeout''] of
           [Some (JStr n), Some (JStr a), Some (JInt f), Some (JInt t)] \<Rightarrow>
             Some \<lparr>ub_name = n, ub_servers = map (the \<circ> typed_server) (ui_servers u), ub_algorithm = a, ub_max_failures = f,
                   ub_fail_timeout = t, ub_keepalive = 32\<rparr>
         | _ \<Rightarrow> None))"

definition upstream_json :: "upstream_block \<Rightarrow> json" where
  "upstream_json u = JObj [(''name'', JStr (ub_name u)), (''servers'', JArr (map server_json (ub_servers u))),
     (''algorithm'', JStr (ub_algorithm u)), (''max_failures'', JInt (ub_max_failures u)), (''fail_timeout'', JInt (ub_fail_timeout u))]"

definition typed_location :: "(string \<Rightarrow> real) \<Rightarrow> inst \<Rightarrow> location_block option" where
  "typed_location fl i =
     (case map (dict_get i) (map fst location_spec) of
        [Some (JStr path), Some (JStr up), Some (JStr rt), Some (JBool ssl), Some (JBool cache), Some (JInt ttl), Some (JBool gz),
         Some (JInt rate), Some (JStr auth), Some (JBool ws), Some (JFloat wt), Some (JInt wm), Some (JFloat wp)] \<Rightarrow>
          Some \<lparr>loc_path = path, loc_upstream = up, loc_root = rt, loc_ssl = ssl, loc_cache = cache, loc_cache_ttl = ttl,
                loc_compress = gz, loc_rate_limit = rate, loc_basic_auth = auth, loc_ws_enabled = ws, loc_ws_timeout = fl wt,
                loc_ws_max_message_size = wm, loc_ws_ping_interval = fl wp\<rparr>
      | _ \<Rightarrow> None)"

definition location_fields :: "(real \<Rightarrow> string) \<Rightarrow> location_block \<Rightarrow> inst" where
  "location_fields pr l = [(''path'', JStr (loc_path l)), (''upstream'', JStr (loc_upstream l)), (''root'', JStr (loc_root l)),
     (''ssl'', JBool (loc_ssl l)), (''cache'', JBool (loc_cache l)), (''cache_ttl'', JInt (loc_cache_ttl l)),
     (''compress'', JBool (loc_compress l)), (''rate_limit'', JInt (loc_rate_limit l)), (''basic_auth'', JStr (loc_basic_auth l)),
     (''ws_enabled'', JBool (loc_ws_enabled l)), (''ws_timeout'', JFloat (pr (loc_ws_timeout l))),
     (''ws_max_message_size'', JInt (loc_ws_max_message_size l)), (''ws_ping_interval'', JFloat (pr (loc_ws_ping_interval l)))]"

section \<open>Reading back\<close>

lemma map_r_all: "(\<And>x. x \<in> set xs \<Longrightarrow> f x = Inr (g x)) \<Longrightarrow> map_r f xs = Inr (map g xs)"
  by (induction xs) simp_all

lemma map_r_map: "map_r f (map g xs) = map_r (f \<circ> g) xs"
  by (induction xs) (simp_all cong: sum.case_cong)

lemma read_fields_all:
  assumes "map fst d = map fst spec" "dict_wf d"
  shows "read_fields spec (JObj d) = Inr d"
proof -
  have "map_r (\<lambda>kd. bind_r (get_or (JObj d) (fst kd) (snd kd)) (\<lambda>v. Inr (fst kd, v))) spec
      = Inr (map (\<lambda>kd. (fst kd, the (dict_get d (fst kd)))) spec)"
  proof (rule map_r_all)
    fix kd assume "kd \<in> set spec"
    then have "fst kd \<in> set (map fst d)" using assms(1) by simp
    then obtain v where "dict_get d (fst kd) = Some v" by (metis map_of_eq_None_iff not_Some_eq list.set_map)
    then show "bind_r (get_or (JObj d) (fst kd) (snd kd)) (\<lambda>v. Inr (fst kd, v)) = Inr (fst kd, the (dict_get d (fst kd)))"
      by (simp add: get_or_def bind_r_def)
  qed
  also have "map (\<lambda>kd. (fst kd, the (dict_get d (fst kd)))) spec = map (\<lambda>k. (k, the (dict_get d k))) (map fst d)"
    unfolding assms(1) by simp
  also have "\<dots> = d" using assms(2) by (auto intro!: map_idI simp: comp_def)
  finally show ?thesis by (simp add: read_fields_def)
qed

lemma server_back: "parse_server (server_json s) = Inr (Some (case server_json s of JObj d \<Rightarrow> d))"
    "typed_server (case server_json s of JObj d \<Rightarrow> d) = Some s"
  by (simp_all add: parse_server_def server_json_def server_spec_def read_fields_def get_or_def bind_r_def typed_server_def)

lemma upstream_back:
  assumes "ub_keepalive u = 32"
  shows "\<exists>i. parse_upstream (upstream_json u) = Inr i \<and> typed_upstream i = Some u"
proof -
  let ?d = "\<lambda>s. case server_json s of JObj d \<Rightarrow> d"
  have "map_r parse_server (map server_json (ub_servers u)) = Inr (map (\<lambda>s. Some (?d s)) (ub_servers u))"
    unfolding map_r_map by (rule map_r_all) (simp add: server_back(1))
  moreover have "List.map_filter id (map (\<lambda>s. Some (?d s)) xs) = map ?d xs" for xs by (induction xs) (simp_all add: List.map_filter_def)
  ultimately show ?thesis using assms
    by (simp add: parse_upstream_def upstream_json_def get_or_def bind_r_def iterate_def read_fields_def upstream_spec_def
        typed_upstream_def server_back(2) comp_def image_iff)
qed

lemma location_read: "read_fields location_spec (JObj (location_fields pr l)) = Inr (location_fields pr l)"
  by (rule read_fields_all) (simp_all add: location_fields_def location_spec_def)

lemma location_typed:
  assumes "fl (pr (loc_ws_timeout l)) = loc_ws_timeout l" "fl (pr (loc_ws_ping_interval l)) = loc_ws_ping_interval l"
  shows "typed_location fl (location_fields pr l) = Some l"
  using assms by (simp add: typed_location_def location_fields_def location_spec_def)



section \<open>Defects\<close>

text \<open>The number of kept connections of a group is never read from the document.\<close>

lemma keepalive_ignored: "typed_upstream i = Some u \<Longrightarrow> ub_keepalive u = 32"
  by (auto simp: typed_upstream_def split: if_splits list.splits option.splits json.splits)

text \<open>Nothing is validated: a location may name a group that does not exist.\<close>

lemma unknown_upstream_accepted:
  "\<exists>c. load_config trunc (Some (Inr (JObj [(''locations'', JArr [JObj [(''upstream'', JStr ''nowhere'')]])]))) = Inr c \<and> px_upstreams c = []"
  by (simp add: load_config_def parse_config_def opt_key_def bind_r_def iterate_def read_fields_def location_spec_def get_or_def)

end
