(* ===== verification/Cli.thy ===== *)
theory Cli
  imports Identity Settings
begin

text \<open>
  The management command line (\<^verbatim>\<open>cli_main\<close>, \<^verbatim>\<open>_run_cli_command\<close> of \<^verbatim>\<open>client/main.py\<close>).  A
  command makes a session with the server: it loads the identity, connects, registers, answers the challenge and
  sends one request.  The outcomes of connecting and of the three requests, as the control channel defines them,
  are arguments; the messages sent are part of the result.  A program run is the lines it prints on both
  streams and its exit code, or the exception that ends it.
\<close>

section \<open>Session\<close>

datatype cli_error = Raised py_exc | Channel channel_error

record cli_session =
  cs_connect :: "unit result"
  cs_challenge :: "channel_error + message"
  cs_accepted :: "channel_error + message"
  cs_reply :: "channel_error + message"

record cli_place =
  cp_machine :: machine
  cp_home :: string
  cp_users :: "string \<Rightarrow> string option"
  cp_disk :: disk
  cp_host :: string
  cp_port :: int
  cp_uuid :: string

text \<open>\<^verbatim>\<open>authenticate\<close> of a channel whose identifier is \<open>uuid\<close>: it is created without one, so it draws a random
  one.\<close>

definition cli_authenticate :: "('k, 'p) key_lib \<Rightarrow> 'p \<Rightarrow> string \<Rightarrow> string \<Rightarrow> cli_session \<Rightarrow> cli_error option \<times> message list" where
  "cli_authenticate lib priv uuid pem ses =
     (case register_request uuid pem of
        Inl e \<Rightarrow> (Some (Raised e), [])
      | Inr m1 \<Rightarrow>
          (case cs_challenge ses of
             Inl e \<Rightarrow> (Some (Channel e), [m1])
           | Inr reply \<Rightarrow>
               (let c = challenge_received (register_started (channel_init uuid 1 60) uuid pem) reply in
                case unhexlify (ch_challenge c) of
                  None \<Rightarrow> (Some (Channel BadHex), [m1])
                | Some challenge \<Rightarrow>
                    (case sign_challenge lib priv challenge of
                       Inl e \<Rightarrow> (Some (Raised e), [m1])
                     | Inr _ \<Rightarrow>
                         (case auth_request (signing lib priv) c of
                            Inl e \<Rightarrow> (Some (Channel e), [m1])
                          | Inr (Inl e) \<Rightarrow> (Some (Raised e), [m1])
                          | Inr (Inr m2) \<Rightarrow>
                              (case cs_accepted ses of Inl e \<Rightarrow> (Some (Channel e), [m1, m2]) | Inr _ \<Rightarrow> (None, [m1, m2])))))))"

definition run_cli_command :: "('k, 'p) key_lib \<Rightarrow> cli_place \<Rightarrow> message result \<Rightarrow> cli_session \<Rightarrow> (cli_error + message) \<times> message list" where
  "run_cli_command lib pl request ses =
     (case make_session (cp_machine pl) (cp_host pl) (cp_port pl) of
        Inl e \<Rightarrow> (Inl (Raised e), [])
      | Inr cfg \<Rightarrow>
          (case field cfg ''identity_dir'' of
             SStr dir \<Rightarrow>
               (case load_identity lib (resolve_dir (cp_home pl) (cp_users pl) dir) (cp_disk pl) of
                  Inl e \<Rightarrow> (Inl (Raised e), [])
                | Inr (priv, pub) \<Rightarrow>
                    (case cs_connect ses of
                       Inl e \<Rightarrow> (Inl (Raised e), [])
                     | Inr _ \<Rightarrow>
                         (case cli_authenticate lib priv (cp_uuid pl) (registered_pem lib pub) ses of
                            (Some e, sent) \<Rightarrow> (Inl e, sent)
                          | (None, sent) \<Rightarrow>
                              (case request of
                                 Inl e \<Rightarrow> (Inl (Raised e), sent)
                               | Inr m \<Rightarrow> (case cs_reply ses of Inl e \<Rightarrow> Inl (Channel e) | Inr reply \<Rightarrow> Inr reply, sent @ [m])))))
           | _ \<Rightarrow> (Inl (Raised (TypeError ''identity_dir'')), [])))"

section \<open>Rows\<close>

text \<open>\<^verbatim>\<open>network[key]\<close> and \<^verbatim>\<open>f"{value:<24}"\<close>, which only strings and numbers support.\<close>

definition json_item :: "json \<Rightarrow> string \<Rightarrow> json result" where
  "json_item v key =
     (case v of
        JObj kvs \<Rightarrow> (case dict_get kvs key of None \<Rightarrow> Inl (KeyError key) | Some x \<Rightarrow> Inr x)
      | _ \<Rightarrow> Inl (TypeError ''not subscriptable by a string''))"

definition pad_left :: "nat \<Rightarrow> string \<Rightarrow> string" where
  "pad_left n s = s @ replicate (n - py_len s) (CHR '' '')"

definition format_left :: "nat \<Rightarrow> json \<Rightarrow> string result" where
  "format_left n v =
     (case v of
        JStr s \<Rightarrow> Inr (pad_left n s)
      | JInt i \<Rightarrow> Inr (pad_left n (str_int i))
      | JBool b \<Rightarrow> Inr (pad_left n (if b then ''1'' else ''0''))
      | JFloat l \<Rightarrow> Inr (pad_left n l)
      | _ \<Rightarrow> Inl (TypeError ''unsupported format string''))"

definition row_head :: "json \<Rightarrow> string result" where
  "row_head v =
     (case json_item v ''name'' of Inl e \<Rightarrow> Inl e | Inr name \<Rightarrow>
      (case format_left 24 name of Inl e \<Rightarrow> Inl e | Inr text \<Rightarrow>
       (case json_item v ''network_id'' of Inl e \<Rightarrow> Inl e | Inr nid \<Rightarrow> Inr (''  '' @ text @ '' '' @ py_str nid @ ''  ''))))"

definition list_row :: "json \<Rightarrow> string result" where
  "list_row v =
     (case row_head v of Inl e \<Rightarrow> Inl e | Inr text \<Rightarrow>
      (case json_item v ''topology'' of Inl e \<Rightarrow> Inl e | Inr topo \<Rightarrow>
       (case json_item v ''member_count'' of Inl e \<Rightarrow> Inl e | Inr n \<Rightarrow>
          Inr (text @ ''topology='' @ py_str topo @ ''  members='' @ py_str n))))"

definition status_row :: "json \<Rightarrow> string result" where
  "status_row v =
     (case row_head v of Inl e \<Rightarrow> Inl e | Inr text \<Rightarrow>
      (case json_item v ''member_count'' of Inl e \<Rightarrow> Inl e | Inr n \<Rightarrow> Inr (text @ ''members='' @ py_str n)))"

text \<open>Lines are printed until a row fails.\<close>

fun print_rows :: "('a \<Rightarrow> string result) \<Rightarrow> 'a list \<Rightarrow> string list \<times> py_exc option" where
  "print_rows row [] = ([], None)"
| "print_rows row (v # vs) =
     (case row v of Inl e \<Rightarrow> ([], Some e) | Inr line \<Rightarrow> (case print_rows row vs of (out, e) \<Rightarrow> (line # out, e)))"

text \<open>\<^verbatim>\<open>list(reply.payload.get("networks", []))\<close>.\<close>

definition reply_networks :: "message \<Rightarrow> json list result" where
  "reply_networks reply =
     (case dict_get (m_payload reply) ''networks'' of
        None \<Rightarrow> Inr []
      | Some (JArr vs) \<Rightarrow> Inr vs
      | Some (JObj kvs) \<Rightarrow> Inr (map (\<lambda>kv. JStr (fst kv)) kvs)
      | Some (JStr s) \<Rightarrow> Inr (map (\<lambda>c. JStr [c]) s)
      | Some _ \<Rightarrow> Inl (TypeError ''object is not iterable''))"

fun matching :: "string \<Rightarrow> json list \<Rightarrow> json list result" where
  "matching network [] = Inr []"
| "matching network (v # vs) =
     (case json_item v ''network_id'' of
        Inl e \<Rightarrow> Inl e
      | Inr nid \<Rightarrow>
          (case (if nid = JStr network then Inr True else map_sum id (\<lambda>name. name = JStr network) (json_item v ''name'')) of
             Inl e \<Rightarrow> Inl e
           | Inr hit \<Rightarrow> map_sum id (\<lambda>rest. if hit then v # rest else rest) (matching network vs)))"

section \<open>Commands\<close>

datatype cli_command =
    Create string string string
  | Join string string
  | Leave string
  | ListNets
  | Status
  | Info string
  | Version

record cli_run =
  cr_out :: "string list"
  cr_err :: "string list"
  cr_code :: "int option"
  cr_sent :: "message list"

text \<open>The text of an exception that \<^verbatim>\<open>except OSError\<close> catches, which has subclasses.\<close>

definition os_error_text :: "py_exc \<Rightarrow> string option" where
  "os_error_text x =
     (case x of
        OSError m \<Rightarrow> Some m
      | OtherError c m \<Rightarrow>
          if c \<in> set [''FileNotFoundError'', ''IsADirectoryError'', ''PermissionError'', ''ConnectionRefusedError'', ''TimeoutError''] then Some m
          else None
      | _ \<Rightarrow> None)"

definition identity_error_text :: "py_exc \<Rightarrow> string option" where
  "identity_error_text x = (case x of OtherError c m \<Rightarrow> if c = ''IdentityError'' then Some m else None | _ \<Rightarrow> None)"

text \<open>The handlers of \<^verbatim>\<open>cli_main\<close>: identity errors, errors of the channel and errors of the system end with
  code 1; any other exception is not caught.  A refused connection is an error of the system.\<close>

definition cli_failure :: "cli_place \<Rightarrow> string list \<Rightarrow> message list \<Rightarrow> cli_error \<Rightarrow> cli_run" where
  "cli_failure pl out sent e =
     (let stop = (\<lambda>text. \<lparr>cr_out = out, cr_err = [text], cr_code = Some 1, cr_sent = sent\<rparr>);
          crash = \<lparr>cr_out = out, cr_err = [], cr_code = None, cr_sent = sent\<rparr>
      in case e of
           Raised x \<Rightarrow>
             (case (identity_error_text x, os_error_text x) of
                (Some m, _) \<Rightarrow> stop (''Identity error: '' @ m)
              | (None, Some m) \<Rightarrow> stop (''Cannot reach server at '' @ cp_host pl @ '':'' @ str_int (cp_port pl) @ '': '' @ m)
              | (None, None) \<Rightarrow> crash)
         | Channel (ControlChannelError m) \<Rightarrow> stop (''Server error: '' @ m)
         | Channel ChannelClosedError \<Rightarrow> stop ''Server error: connection lost''
         | _ \<Rightarrow> crash)"

definition cli_done :: "string list \<Rightarrow> message list \<Rightarrow> int \<Rightarrow> cli_run" where
  "cli_done out sent code = \<lparr>cr_out = out, cr_err = [], cr_code = Some code, cr_sent = sent\<rparr>"

definition topology_arg :: "string \<Rightarrow> string" where
  "topology_arg t = dict_get_or [(''hub'', ''hub_and_spoke''), (''gateway'', ''gateway'')] t t"

definition cli_rows :: "cli_place \<Rightarrow> string list \<Rightarrow> message list \<Rightarrow> (json \<Rightarrow> string result) \<Rightarrow> json list \<Rightarrow> cli_run" where
  "cli_rows pl out sent row vs =
     (case print_rows row vs of
        (lines, None) \<Rightarrow> cli_done (out @ lines) sent 0
      | (lines, Some e) \<Rightarrow> cli_failure pl (out @ lines) sent (Raised e))"

definition created_lines :: "string \<Rightarrow> message \<Rightarrow> string list" where
  "created_lines name reply =
     [''Created network '' @ repr_str name, ''  Network ID:  '' @ py_str (dict_get_or (m_payload reply) ''network_id'' (JStr []))]
     @ (let code = dict_get_or (m_payload reply) ''invite_code'' (JStr []) in
        if Protocol.truthy code then [''  Invite code: '' @ py_str code] else [])
     @ [''Share the invite code (or network ID) and password with friends.'']"

definition info_lines :: "json \<Rightarrow> string list \<times> py_exc option" where
  "info_lines v =
     print_rows (\<lambda>(label, key). map_sum id (\<lambda>x. label @ py_str x) (json_item v key))
       [(''Name:      '', ''name''), (''ID:        '', ''network_id''), (''Owner:     '', ''owner_id''),
        (''Topology:  '', ''topology''), (''Members:   '', ''member_count'')]"

definition cli_info :: "cli_place \<Rightarrow> string \<Rightarrow> message list \<Rightarrow> json list \<Rightarrow> cli_run" where
  "cli_info pl network sent vs =
     (case matching network vs of
        Inl e \<Rightarrow> cli_failure pl [] sent (Raised e)
      | Inr [] \<Rightarrow> cli_done [''Network '' @ repr_str network @ '' not found.''] sent 1
      | Inr (v # _) \<Rightarrow>
          (case info_lines v of (lines, None) \<Rightarrow> cli_done lines sent 0 | (lines, Some e) \<Rightarrow> cli_failure pl lines sent (Raised e)))"

definition cli_networks :: "('k, 'p) key_lib \<Rightarrow> cli_place \<Rightarrow> cli_session \<Rightarrow> string list \<Rightarrow> (message list \<Rightarrow> json list \<Rightarrow> cli_run) \<Rightarrow> cli_run" where
  "cli_networks lib pl ses out use =
     (case run_cli_command lib pl list_networks_request ses of
        (Inl e, sent) \<Rightarrow> cli_failure pl out sent e
      | (Inr reply, sent) \<Rightarrow>
          (case reply_networks reply of Inl e \<Rightarrow> cli_failure pl out sent (Raised e) | Inr vs \<Rightarrow> use sent vs))"

definition status_lines :: "cli_place \<Rightarrow> string list" where
  "status_lines pl =
     [''Server:            '' @ cp_host pl @ '':'' @ str_int (cp_port pl),
      ''TUN mode:          '' @ (if tun_mode_enabled (detect_platform (cp_machine pl)) then ''enabled'' else ''disabled''),
      ''Networks:'']"

definition cli_main :: "('k, 'p) key_lib \<Rightarrow> cli_place \<Rightarrow> cli_session \<Rightarrow> cli_command \<Rightarrow> cli_run" where
  "cli_main lib pl ses cmd =
     (case cmd of
        Create name password topo \<Rightarrow>
          (case run_cli_command lib pl (create_network_request name password (topology_arg topo)) ses of
             (Inl e, sent) \<Rightarrow> cli_failure pl [] sent e
           | (Inr reply, sent) \<Rightarrow> cli_done (created_lines name reply) sent 0)
      | Join network password \<Rightarrow>
          (case run_cli_command lib pl (join_network_request network password) ses of
             (Inl e, sent) \<Rightarrow> cli_failure pl [] sent e
           | (Inr reply, sent) \<Rightarrow>
               (let ip = get_or (m_payload reply) ''virtual_ip'' JNull in
                cli_done ((''Joined network '' @ network) # (if Protocol.truthy ip then [''Virtual IP: '' @ py_str ip] else [])) sent 0))
      | Leave network \<Rightarrow>
          (case run_cli_command lib pl (leave_network_request network) ses of
             (Inl e, sent) \<Rightarrow> cli_failure pl [] sent e
           | (Inr reply, sent) \<Rightarrow> cli_done [''Left network '' @ network] sent 0)
      | ListNets \<Rightarrow>
          cli_networks lib pl ses [] (\<lambda>sent vs.
            cli_rows pl (if vs = [] then [''You are not a member of any network.''] else []) sent list_row vs)
      | Status \<Rightarrow> cli_networks lib pl ses (status_lines pl) (\<lambda>sent vs. cli_rows pl (status_lines pl) sent status_row vs)
      | Info network \<Rightarrow> cli_networks lib pl ses [] (cli_info pl network)
      | Version \<Rightarrow> cli_done [''localnetwork-cli 0.1.0''] [] 0)"

section \<open>What a run sends and prints\<close>

fun command_request :: "cli_command \<Rightarrow> message result" where
  "command_request (Create name password topo) = create_network_request name password (topology_arg topo)"
| "command_request (Join network password) = join_network_request network password"
| "command_request (Leave network) = leave_network_request network"
| "command_request _ = list_networks_request"

lemma authenticate_sends:
  assumes "cli_authenticate lib priv uuid pem ses = (None, sent)"
  shows "cs_accepted ses \<in> range Inr \<and> (\<exists>m1 m2. sent = [m1, m2] \<and> register_request uuid pem = Inr m1 \<and> m_type m2 = ''AUTH_RESPONSE'')"
  using assms
  by (auto simp: cli_authenticate_def Let_def auth_request_def response_made response_message_def split: sum.splits option.splits)

lemma command_sends:
  assumes "run_cli_command lib pl request ses = (Inr reply, sent)"
  shows "cs_reply ses = Inr reply \<and> cs_accepted ses \<in> range Inr
    \<and> (\<exists>pem m1 m2 m3. sent = [m1, m2, m3] \<and> register_request (cp_uuid pl) pem = Inr m1 \<and> m_type m2 = ''AUTH_RESPONSE'' \<and> request = Inr m3)"
proof -
  obtain priv pub sent' where a: "cli_authenticate lib priv (cp_uuid pl) (registered_pem lib pub) ses = (None, sent')"
    and r: "cs_reply ses = Inr reply" "\<exists>m. request = Inr m \<and> sent = sent' @ [m]"
    using assms by (auto simp: run_cli_command_def split: sum.splits setting.splits prod.splits option.splits)
  then show ?thesis using authenticate_sends [OF a] by auto
qed

lemma failure_code [simp]: "cr_code (cli_failure pl out sent e) \<noteq> Some 0" "cr_sent (cli_failure pl out sent e) = sent"
  by (auto simp: cli_failure_def Let_def split: cli_error.splits option.splits channel_error.splits)

lemma done_code [simp]: "cr_code (cli_done out sent c) = Some c" "cr_sent (cli_done out sent c) = sent"
  "cr_out (cli_done out sent c) = out" "cr_err (cli_done out sent c) = []"
  by (simp_all add: cli_done_def)

lemma rows_success: "cr_code (cli_rows pl out sent row vs) = Some 0 \<Longrightarrow> cr_sent (cli_rows pl out sent row vs) = sent \<and> cr_err (cli_rows pl out sent row vs) = []"
  by (auto simp: cli_rows_def split: prod.splits option.splits)

lemma info_success: "cr_code (cli_info pl n sent vs) = Some 0 \<Longrightarrow> cr_sent (cli_info pl n sent vs) = sent \<and> cr_err (cli_info pl n sent vs) = []"
  by (auto simp: cli_info_def split: prod.splits option.splits sum.splits list.splits)

text \<open>A command that reports success was carried out: the program sent exactly a registration under the random
  identifier, the response to the challenge and the one request of the command, and the server accepted the
  response and answered the request with the expected reply.\<close>

theorem cli_success_sent:
  assumes "cr_code (cli_main lib pl ses cmd) = Some 0" and "cmd \<noteq> Version"
  shows "cr_err (cli_main lib pl ses cmd) = [] \<and> cs_accepted ses \<in> range Inr \<and> cs_reply ses \<in> range Inr
    \<and> (\<exists>pem m1 m2 m3. cr_sent (cli_main lib pl ses cmd) = [m1, m2, m3] \<and> register_request (cp_uuid pl) pem = Inr m1
        \<and> m_type m2 = ''AUTH_RESPONSE'' \<and> command_request cmd = Inr m3)"
proof -
  obtain reply sent where r: "run_cli_command lib pl (command_request cmd) ses = (Inr reply, sent)"
    and "cr_err (cli_main lib pl ses cmd) = []" "cr_sent (cli_main lib pl ses cmd) = sent"
    using assms
    by (cases cmd) (auto simp: cli_main_def cli_networks_def Let_def split: prod.splits sum.splits dest: rows_success info_success)
  then show ?thesis using command_sends [OF r] by auto
qed

text \<open>What \<^verbatim>\<open>list\<close> prints for the reply of the server: one line for each network of the client, none
  fails.\<close>

definition network_line :: "network_record \<Rightarrow> string" where
  "network_line r = ''  '' @ pad_left 24 (net_name r) @ '' '' @ network_id r @ ''  topology='' @ topology r
     @ ''  members='' @ str_int (int (length (members r)))"

lemma list_row_network: "list_row (JObj (network_to_dict fr r None)) = Inr (network_line r)"
  by (simp add: list_row_def row_head_def json_item_def network_to_dict_def format_left_def py_str_def network_line_def)

lemma print_networks: "print_rows list_row (map (\<lambda>r. JObj (network_to_dict fr r None)) rs) = (map network_line rs, None)"
  by (induction rs) (simp_all add: list_row_network)

lemma listed_reply:
  assumes "fst (on_list_networks ev cid w s) = [(w, Inr reply)]"
  shows "reply_networks reply = Inr (map (\<lambda>r. JObj (network_to_dict (ev_float_repr ev) r None)) (list_for_client (sv_networks s) cid))"
  using assms
  by (auto simp: on_list_networks_def make_message_def construct_def NetworkList_def dict_has_def payload_from_dataclass_def
      reply_networks_def)

theorem cli_list_exact:
  assumes "fst (on_list_networks ev cid w s) = [(w, Inr reply)]"
    and "run_cli_command lib pl list_networks_request ses = (Inr reply, sent)"
  shows "cli_main lib pl ses ListNets
    = cli_done (if list_for_client (sv_networks s) cid = [] then [''You are not a member of any network.'']
                else map network_line (list_for_client (sv_networks s) cid)) sent 0"
  using assms(2) listed_reply [OF assms(1)]
  by (simp add: cli_main_def cli_networks_def cli_rows_def print_networks)

text \<open>The channel of a command registers under a new random identifier, not the one of the key: no network has it
  as a member, so \<^verbatim>\<open>list\<close> never shows any.\<close>

lemma cli_list_empty:
  assumes "\<forall>r \<in> set (dict_values (nm_networks (sv_networks s))). cp_uuid pl \<notin> set (members r)"
    and "fst (on_list_networks ev (cp_uuid pl) w s) = [(w, Inr reply)]"
    and "run_cli_command lib pl list_networks_request ses = (Inr reply, sent)"
  shows "cr_out (cli_main lib pl ses ListNets) = [''You are not a member of any network.'']"
proof -
  have "list_for_client (sv_networks s) (cp_uuid pl) = []" using assms(1) by (auto simp: list_for_client_def filter_empty_conv)
  then show ?thesis using cli_list_exact [OF assms(2,3)] by simp
qed

end
