(* ===== verification/Startup.thy ===== *)
theory Startup
  imports Cli Tun
begin

text \<open>
  The life of the client daemon (\<^verbatim>\<open>run\<close>, \<^verbatim>\<open>_setup_tun\<close>, \<^verbatim>\<open>_shutdown_daemon\<close> and \<^verbatim>\<open>client_main\<close> of
  \<^verbatim>\<open>client/main.py\<close>): identity, connection, authentication, the TUN device with its route, the background tasks,
  and what the shutdown gives back.  The answers of the system and of the server are arguments; a task is its
  name.  The daemon's own state is the record of theory \<open>Daemon\<close>.
\<close>

section \<open>TUN device\<close>

record tun_system =
  ts_platform :: string
  ts_linux :: tun_env
  ts_darwin :: darwin_env
  ts_add :: run_outcome
  ts_remove :: run_outcome

definition tun_open :: "tun_system \<Rightarrow> string \<Rightarrow> string \<Rightarrow> int \<Rightarrow> tun \<Rightarrow> kernel \<Rightarrow> unit result \<times> tun \<times> kernel" where
  "tun_open sys ip netmask mtu t k =
     (case tn_kind t of
        LinuxTunInterface \<Rightarrow> linux_open (ts_linux sys) ip netmask mtu t k
      | DarwinTunInterface \<Rightarrow> darwin_open (ts_darwin sys) ip netmask mtu t k
      | WindowsTunInterface \<Rightarrow> (case windows_open ip netmask mtu t of (r, t) \<Rightarrow> (r, t, k)))"

definition caught_os_error :: "py_exc \<Rightarrow> bool" where
  "caught_os_error x \<longleftrightarrow> os_error_text x \<noteq> None"

definition virtual_address :: "string option \<Rightarrow> string" where
  "virtual_address ip = (case ip of Some v \<Rightarrow> if v = [] then ''25.1.0.1'' else v | None \<Rightarrow> ''25.1.0.1'')"

definition daemon_setup_tun :: "tun_system \<Rightarrow> string option \<Rightarrow> 'p daemon \<Rightarrow> kernel \<Rightarrow> unit result \<times> tun option \<times> 'p daemon \<times> kernel" where
  "daemon_setup_tun sys ip d k =
     (let fallback = (\<lambda>e t k. if caught_os_error e then (Inr (), None, setup_tun d ip False, k) else (Inl e, t, d, k)) in
      case create_tun_interface (ts_platform sys) of
        Inl e \<Rightarrow> fallback e None k
      | Inr t \<Rightarrow>
          (case tun_open sys (virtual_address ip) ''255.0.0.0'' 1400 t k of
             (Inl e, t, k) \<Rightarrow> fallback e (Some t) k
           | (Inr _, t, k) \<Rightarrow>
               (case add_route (ts_platform sys) (tn_name t) (ts_add sys) of
                  Inl e \<Rightarrow> fallback e (Some t) k
                | Inr _ \<Rightarrow> (Inr (), Some t, setup_tun d ip True, k))))"

section \<open>Start\<close>

datatype task = EventTask | KeepAliveTask | TunReadTask | TunnelRecvTask | WebPanelTask

record 'p process =
  pr_daemon :: "'p daemon"
  pr_tun :: "tun option"
  pr_kernel :: kernel
  pr_tasks :: "task list"

record server_answers =
  sa_connect :: "unit result"
  sa_auth :: "cli_error option"

definition opt_text :: "setting \<Rightarrow> string option" where
  "opt_text v = (case v of SStr s \<Rightarrow> Some s | _ \<Rightarrow> None)"

definition web_panel_on :: "settings \<Rightarrow> bool" where
  "web_panel_on cfg = (case field cfg ''web_port'' of SInt p \<Rightarrow> p > 0 | _ \<Rightarrow> False)"

definition start_tasks :: "settings \<Rightarrow> tun option \<Rightarrow> task list" where
  "start_tasks cfg t =
     [EventTask, KeepAliveTask] @ (if t = None then [] else [TunReadTask, TunnelRecvTask])
     @ (if web_panel_on cfg then [WebPanelTask] else [])"

definition start_daemon :: "('k, 'p) key_lib \<Rightarrow> 'p \<Rightarrow> path \<Rightarrow> time \<Rightarrow> settings \<Rightarrow> tun_system \<Rightarrow> server_answers \<Rightarrow> disk \<Rightarrow> kernel
    \<Rightarrow> (cli_error + 'q process) \<times> disk \<times> kernel" where
  "start_daemon lib fresh dir stale cfg sys sa disk k =
     (case ensure_identity lib fresh dir disk of
        (Inl e, disk) \<Rightarrow> (Inl (Raised e), disk, k)
      | (Inr (cid, _), disk) \<Rightarrow>
          (case sa_connect sa of
             Inl e \<Rightarrow> (Inl (Raised e), disk, k)
           | Inr _ \<Rightarrow>
               (case sa_auth sa of
                  Some e \<Rightarrow> (Inl e, disk, k)
                | None \<Rightarrow>
                    (let d = daemon_init cid stale in
                     if truthy (field cfg ''tun_mode_active'')
                     then
                       (case daemon_setup_tun sys (opt_text (field cfg ''virtual_ip'')) d k of
                          (Inl e, _, _, k) \<Rightarrow> (Inl (Raised e), disk, k)
                        | (Inr _, t, d, k) \<Rightarrow> (Inr \<lparr>pr_daemon = d, pr_tun = t, pr_kernel = k, pr_tasks = start_tasks cfg t\<rparr>, disk, k))
                     else (Inr \<lparr>pr_daemon = d, pr_tun = None, pr_kernel = k, pr_tasks = start_tasks cfg None\<rparr>, disk, k)))))"

section \<open>Stop\<close>

text \<open>The web task is cancelled before the shutdown, the others by it.  When removing the route raises, the
  device and the channel stay open.\<close>

definition stop_daemon :: "tun_system \<Rightarrow> 'p process \<Rightarrow> unit result \<times> 'p process \<times> daemon_effect list" where
  "stop_daemon sys p =
     (case shutdown_daemon (pr_daemon p) of
        (d, es) \<Rightarrow>
          (case pr_tun p of
             None \<Rightarrow> (Inr (), p\<lparr>pr_daemon := d, pr_tasks := []\<rparr>, es)
           | Some t \<Rightarrow>
               (case remove_route (ts_platform sys) (tn_name t) (ts_remove sys) of
                  Inl e \<Rightarrow> (Inl e, p\<lparr>pr_daemon := d\<lparr>d_tun := d_tun (pr_daemon p), d_channel := d_channel (pr_daemon p)\<rparr>, pr_tasks := []\<rparr>, es)
                | Inr _ \<Rightarrow>
                    (case tun_close t (pr_kernel p) of
                       (t, k) \<Rightarrow> (Inr (), p\<lparr>pr_daemon := d, pr_tun := Some t, pr_kernel := k, pr_tasks := []\<rparr>, es)))))"

text \<open>\<^verbatim>\<open>client_main\<close> after the configuration: errors of the control channel end with code 1, other exceptions
  are not caught.\<close>

definition client_exit :: "(cli_error + 'p process) \<Rightarrow> unit result \<Rightarrow> int option" where
  "client_exit started stopped =
     (case started of
        Inl (Channel (ControlChannelError _)) \<Rightarrow> Some 1
      | Inl (Channel ChannelClosedError) \<Rightarrow> Some 1
      | Inl _ \<Rightarrow> None
      | Inr _ \<Rightarrow> (case stopped of Inl _ \<Rightarrow> None | Inr _ \<Rightarrow> Some 0))"

section \<open>What a run leaves behind\<close>

lemma setup_refines:
  assumes "daemon_setup_tun sys ip d k = (Inr u, t, d', k')"
  shows "d' = setup_tun d ip (t \<noteq> None)"
  using assms
  by (auto simp: daemon_setup_tun_def Let_def split: sum.splits prod.splits if_splits)

lemma configure_errors:
  assumes "env_ok e" "configure_iface e name ip netmask mtu k = (Inl x, k')"
  shows "is_os_error x \<or> x = StructError"
proof -
  have io: "is_os_error x" if "ioctl e fd q a k = (Inl x, k')" for fd q a x k k'
    using that assms(1) by (auto simp: ioctl_def env_ok_def)
  have ad: "is_os_error x" if "set_address e s n q i k = (Inl x, k')" for s n q i x k k'
    using that io by (auto simp: set_address_def is_os_error_def split: option.splits)
  have up: "is_os_error x \<or> x = StructError" if "bring_up e s n k = (Inl x, k')" for s n x k k'
    using that io by (auto simp: bring_up_def bind_k_def Let_def split: prod.splits sum.splits if_splits)
  have "is_os_error x \<or> x = StructError" if "configure_steps e s name ip netmask mtu k = (Inl x, k')" for s k k'
    using that io ad up
    by (auto simp: configure_steps_def bind_k_def pack_i_def split: prod.splits sum.splits if_splits)
  then show ?thesis using assms
    by (auto simp: configure_iface_def env_ok_def map_sum_def split: sum.splits prod.splits)
qed

lemma linux_open_failed:
  assumes "env_ok e" "tn_fd t = None" "linux_open e ip netmask mtu t k = (Inl x, t', k')" "caught_os_error x"
  shows "tn_fd t' = None"
  using assms configure_errors [OF assms(1), of _ _ _ _ _ "OtherError _ _"]
  by (auto simp: linux_open_def caught_os_error_def os_error_text_def is_os_error_def Let_def split: sum.splits prod.splits if_splits py_exc.splits)

lemma setup_linux_open:
  assumes "ts_platform sys = ''linux''" "env_ok (ts_linux sys)" "ts_add sys \<noteq> RunMissing"
    and "daemon_setup_tun sys ip d k = (r, t, d', k')"
  shows "case t of None \<Rightarrow> k_open k' = k_open k | Some t \<Rightarrow> tun_inv (k_open k) (t, k')"
proof -
  let ?o = "linux_open (ts_linux sys) (virtual_address ip) ''255.0.0.0'' 1400 (tun_new LinuxTunInterface) k"
  obtain r0 t0 k0 where o: "?o = (r0, t0, k0)" by (cases ?o)
  have inv: "tun_inv (k_open k) (t0, k0)"
    using linux_open_inv [of "tun_new LinuxTunInterface" k "k_open k" "ts_linux sys"] assms(2) o by (metis snd_conv tun_new_def tun.select_convs(1,2))
  have fd: "tn_fd t0 = None" if "r0 = Inl e" "caught_os_error e" for e
    by (rule linux_open_failed [OF assms(2) _ o [unfolded that(1)] that(2)]) (simp add: tun_new_def)
  show ?thesis using assms(1,3,4) o inv fd
    by (auto simp: daemon_setup_tun_def create_tun_interface_def tun_open_def tun_new_def Let_def add_route_def tun_inv_def
        split: sum.splits prod.splits if_splits option.splits run_outcome.splits)
qed

definition device_traffic :: "bytes list \<Rightarrow> 'p process \<Rightarrow> kernel" where
  "device_traffic packets p =
     (case pr_tun p of None \<Rightarrow> pr_kernel p | Some t \<Rightarrow> foldl (\<lambda>k data. snd (tun_write data t k)) (pr_kernel p) packets)"

lemma traffic_open [simp]: "k_open (device_traffic packets p) = k_open (pr_kernel p)"
proof -
  have "k_open (foldl (\<lambda>k data. snd (tun_write data t k)) k packets) = k_open k" for t k
    by (induction packets arbitrary: k) (auto simp: tun_write_def os_write_def split: option.splits tun_kind.splits)
  then show ?thesis by (simp add: device_traffic_def split: option.splits)
qed

lemma start_process:
  assumes "start_daemon lib fresh dir stale cfg sys sa disk k = (Inr p, disk', k')"
  obtains "pr_tun p = None" "pr_kernel p = k" "pr_tasks p = start_tasks cfg None" "\<not> d_tun (pr_daemon p)"
    | u d where "daemon_setup_tun sys (opt_text (field cfg ''virtual_ip'')) d k = (Inr u, pr_tun p, pr_daemon p, pr_kernel p)"
        "pr_tasks p = start_tasks cfg (pr_tun p)"
  using assms
  by (fastforce simp: start_daemon_def Let_def daemon_init_def split: sum.splits prod.splits option.splits if_splits)


text \<open>Without the \<^verbatim>\<open>ip\<close> program the open device is forgotten: its descriptor stays open and nothing closes it.\<close>

lemma missing_ip_leaks:
  assumes "ts_platform sys = ''linux''" "ts_add sys = RunMissing"
    and "linux_open (ts_linux sys) (virtual_address ip) ''255.0.0.0'' 1400 (tun_new LinuxTunInterface) k = (Inr u, t, k')"
    and "tn_name t \<noteq> []"
  shows "daemon_setup_tun sys ip d k = (Inr (), None, setup_tun d ip False, k')"
  using assms
  by (simp add: daemon_setup_tun_def create_tun_interface_def tun_open_def tun_new_def add_route_def caught_os_error_def os_error_text_def)

text \<open>On Windows the device raises \<^verbatim>\<open>NotImplementedError\<close>, which is not an \<^verbatim>\<open>OSError\<close>: a daemon that is to use it
  ends instead of falling back.\<close>

lemma windows_daemon_ends:
  assumes "ts_platform sys = ''win32''" "truthy (field cfg ''tun_mode_active'')"
    and "ensure_identity lib fresh dir disk = (Inr i, disk')" "sa_connect sa = Inr u" "sa_auth sa = None"
  shows "\<exists>m. fst (start_daemon lib fresh dir stale cfg sys sa disk k) = Inl (Raised (OtherError ''NotImplementedError'' m))
    \<and> client_exit (fst (start_daemon lib fresh dir stale cfg sys sa disk k)) r = None"
  using assms
  by (cases i) (auto simp: start_daemon_def daemon_setup_tun_def create_tun_interface_def tun_open_def tun_new_def windows_open_def
      caught_os_error_def os_error_text_def client_exit_def Let_def)

section \<open>Witness\<close>

definition demo_system :: tun_system where
  "demo_system =
     \<lparr>ts_platform = ''linux'',
      ts_linux = \<lparr>e_open = Inr 7, e_socket = Inr 8, e_ioctl = (\<lambda>q a. Inr (if q = TUNSETIFF then encode ''ln0'' else a)),
        e_aton = (\<lambda>_. Some [25, 1, 0, 1])\<rparr>,
      ts_darwin = \<lparr>de_socket = Inr 9, de_control = Inr (), de_connect = Inr ''utun0'', de_ifconfig = RunOk\<rparr>,
      ts_add = RunOk, ts_remove = RunOk\<rparr>"

definition demo_settings :: settings where
  "demo_settings = [(''tun_mode_active'', SBool True), (''web_port'', SInt 0), (''virtual_ip'', SNone)]"

lemma demo_device:
  "\<exists>t k'. linux_open (ts_linux demo_system) ip ''255.0.0.0'' 1400 (tun_new LinuxTunInterface) k = (Inr (), t, k') \<and> tn_name t = ''ln0''"
proof -
  have name: "list_all (\<lambda>b. unat b < 128) (rstrip_nul (take IFNAMSIZ (encode ''ln0'')))"
    "decode_raw (rstrip_nul (take IFNAMSIZ (encode ''ln0''))) = ''ln0''" by code_simp+
  have len: "length (ifreq_flags n 0) = 18" for n by (simp add: ifreq_flags_def ifr_name_def pack_s_def le_bytes_def IFNAMSIZ_def)
  have c: "fst (configure_iface (ts_linux demo_system) ''ln0'' ip ''255.0.0.0'' 1400 k) = Inr ()" for k
    by (simp add: configure_iface_def configure_steps_def bring_up_def set_address_def bind_k_def ioctl_def pack_i_def demo_system_def
        TUNSETIFF_def SIOCGIFFLAGS_def SIOCSIFFLAGS_def SIOCSIFADDR_def SIOCSIFNETMASK_def SIOCSIFMTU_def len Let_def)
  define kf where "kf k = snd (configure_iface (ts_linux demo_system) ''ln0'' ip ''255.0.0.0'' 1400 k)" for k
  have "configure_iface (ts_linux demo_system) ''ln0'' ip ''255.0.0.0'' 1400 k = (Inr (), kf k)" for k
    by (simp add: kf_def prod_eq_iff c)
  then show ?thesis using name by (simp add: linux_open_def ioctl_def Let_def demo_system_def)
qed


end
