(* ===== verification/Wizard.thy ===== *)
theory Wizard
  imports Settings
begin

text \<open>
  The setup wizard (\<^verbatim>\<open>client/setup_wizard.py\<close>).  Standard input is the text still to come; a question
  consumes some of it.  What is asked is \<open>None\<close> when the program never returns: a password prompt at the end of
  the input reads the empty string for ever.  Printing is left out.
\<close>

section \<open>Prompts\<close>

datatype 'a asked = Answered 'a string | Quit | Failed py_exc

text \<open>What the program finds when it prepares a password prompt: a terminal, an input that is none, or a platform
  without \<^verbatim>\<open>termios\<close>.\<close>

datatype console = Terminal | NotATty | NoTermios

definition newline :: char where "newline = CHR 0x0A"

definition read_line :: "string \<Rightarrow> (string \<times> string) option" where
  "read_line inp =
     (if inp = [] then None
      else Some (takeWhile (\<lambda>c. c \<noteq> newline) inp, drop 1 (dropWhile (\<lambda>c. c \<noteq> newline) inp)))"

fun read_secret :: "string \<Rightarrow> string \<Rightarrow> (string \<times> string) option" where
  "read_secret acc [] = None"
| "read_secret acc (c # cs) =
     (if c = newline \<or> c = CHR 0x0D then Some (acc, cs)
      else if c = CHR 0x7F then read_secret (butlast acc) cs
      else read_secret (acc @ [c]) cs)"

lemma input_shorter: "read_line inp = Some (l, rest) \<Longrightarrow> length rest < length inp"
  using length_dropWhile_le [of "\<lambda>c. c \<noteq> newline" inp] by (cases inp) (auto simp: read_line_def split: if_splits)

lemma read_secret_shorter: "read_secret acc inp = Some (l, rest) \<Longrightarrow> length rest < length inp"
  by (induction acc inp rule: read_secret.induct) (force split: if_splits)+

text \<open>The loop of \<^verbatim>\<open>_prompt\<close>.  Its last handler names \<^verbatim>\<open>termios\<close>, a local variable that an import
  which failed has not bound; after a failure of the terminal the handler reads a plain line, and the end of the
  input is an error there.\<close>

function prompt :: "console \<Rightarrow> string \<Rightarrow> string list \<Rightarrow> bool \<Rightarrow> string \<Rightarrow> string asked option" where
  "prompt con deflt choices secret inp =
     (if secret \<and> con = NoTermios then Some (Failed (OtherError ''UnboundLocalError'' ''termios''))
      else if secret \<and> con = NotATty then
        (case read_line inp of
           None \<Rightarrow> Some (Failed (OtherError ''EOFError'' []))
         | Some (line, rest) \<Rightarrow>
             (let answer = strip line in
              if answer = [] \<and> deflt \<noteq> [] then Some (Answered deflt rest)
              else if choices \<noteq> [] \<and> answer \<notin> set choices then prompt con deflt choices secret rest
              else Some (Answered answer rest)))
      else
        (case (if secret then map_option Some (read_secret [] inp)
               else Some (map_option (map_prod strip id) (read_line inp))) of
           None \<Rightarrow> None
         | Some None \<Rightarrow> Some Quit
         | Some (Some (answer, rest)) \<Rightarrow>
             if answer = [] \<and> deflt \<noteq> [] then Some (Answered deflt rest)
             else if answer = [] then prompt con deflt choices secret rest
             else if choices \<noteq> [] \<and> answer \<notin> set choices then prompt con deflt choices secret rest
             else Some (Answered answer rest)))"
  by pat_completeness auto
termination
  by (relation "measure (\<lambda>(con, deflt, choices, secret, inp). length inp)")
    (auto dest: input_shorter read_secret_shorter split: if_splits)

declare prompt.simps [simp del]

definition bind_ask :: "'a asked option \<Rightarrow> ('a \<Rightarrow> string \<Rightarrow> 'b asked option) \<Rightarrow> 'b asked option" where
  "bind_ask q f =
     (case q of None \<Rightarrow> None | Some Quit \<Rightarrow> Some Quit | Some (Failed e) \<Rightarrow> Some (Failed e) | Some (Answered a inp) \<Rightarrow> f a inp)"

definition prompt_yes_no :: "console \<Rightarrow> bool \<Rightarrow> string \<Rightarrow> bool asked option" where
  "prompt_yes_no con deflt inp =
     bind_ask (prompt con (if deflt then ''y'' else ''n'') [] False inp) (\<lambda>answer inp.
       Some (Answered (lower answer \<in> set [''y'', ''yes'']) inp))"

section \<open>Paths of the wizard\<close>

definition wizard_join :: "console \<Rightarrow> string \<Rightarrow> settings asked option" where
  "wizard_join con inp =
     bind_ask (prompt con [] [] False inp) (\<lambda>network inp.
     bind_ask (prompt con [] [] True inp) (\<lambda>password inp.
       Some (Answered [(''auto_join_network'', SStr network), (''auto_join_password'', SStr password)] inp)))"

definition topology_choice :: "string \<Rightarrow> string" where
  "topology_choice c = dict_get_or [(''1'', ''mesh''), (''2'', ''hub_and_spoke''), (''3'', ''gateway'')] c []"

definition wizard_create :: "console \<Rightarrow> string \<Rightarrow> settings asked option" where
  "wizard_create con inp =
     bind_ask (prompt con [] [] False inp) (\<lambda>name inp.
     bind_ask (prompt con [] [] False inp) (\<lambda>password inp.
     bind_ask (prompt con ''1'' [''1'', ''2'', ''3''] False inp) (\<lambda>choice inp.
       Some (Answered [(''auto_create_network'', SStr name), (''auto_create_password'', SStr password),
                       (''auto_create_topology'', SStr (topology_choice choice))] inp))))"

definition wizard_hub :: "console \<Rightarrow> string \<Rightarrow> settings asked option" where
  "wizard_hub con inp =
     bind_ask (prompt con ''hub-network'' [] False inp) (\<lambda>name inp.
     bind_ask (prompt con [] [] False inp) (\<lambda>password inp.
       Some (Answered [(''auto_create_network'', SStr name), (''auto_create_password'', SStr password),
                       (''auto_create_topology'', SStr ''hub_and_spoke''), (''is_hub'', SBool True)] inp)))"

definition wizard_minimal :: "string \<Rightarrow> settings asked option" where
  "wizard_minimal inp = Some (Answered [] inp)"

definition server_override :: "string \<Rightarrow> settings \<Rightarrow> settings result" where
  "server_override server ov =
     (if CHR '':'' \<in> set server
      then (case rpartition (CHR '':'') server of (host', port) \<Rightarrow>
              (case to_int (SStr port) of
                 Inl e \<Rightarrow> Inl e
               | Inr p \<Rightarrow> Inr (dict_set ''server_port'' p (dict_set ''server_host'' (SStr host') ov))))
      else Inr (dict_set ''server_host'' (SStr server) ov))"

definition ask_tun :: "console \<Rightarrow> capabilities \<Rightarrow> settings \<Rightarrow> string \<Rightarrow> settings asked option" where
  "ask_tun con caps ov inp =
     (if tun_mode_enabled caps
      then bind_ask (prompt_yes_no con True inp) (\<lambda>enable inp. Some (Answered (dict_set ''tun_enabled'' (SBool enable) ov) inp))
      else Some (Answered (dict_set ''tun_enabled'' (SBool False) ov) inp))"

definition run_setup_wizard :: "console \<Rightarrow> capabilities \<Rightarrow> string \<Rightarrow> settings asked option" where
  "run_setup_wizard con caps inp =
     bind_ask (prompt con ''1'' [''1'', ''2'', ''3'', ''4''] False inp) (\<lambda>choice inp.
     bind_ask (if choice = ''1'' then wizard_join con inp else if choice = ''2'' then wizard_create con inp
               else if choice = ''3'' then wizard_hub con inp else wizard_minimal inp) (\<lambda>ov inp.
     bind_ask (prompt con ''localhost:54000'' [] False inp) (\<lambda>server inp.
       case server_override server ov of
         Inl e \<Rightarrow> Some (Failed e)
       | Inr ov \<Rightarrow>
           bind_ask (ask_tun con caps ov inp) (\<lambda>ov inp.
           bind_ask (prompt_yes_no con True inp) (\<lambda>save inp. Some (Answered (if save then ov else []) inp))))))"

text \<open>\<^verbatim>\<open>generate_config_file\<close>: the document and its place; \<open>home_file\<close> is the default place.  The directory of a
  path without a separator is empty and cannot be made.\<close>

definition generate_config_file :: "string \<Rightarrow> settings \<Rightarrow> string \<Rightarrow> (string \<times> (string \<times> settings) list) result" where
  "generate_config_file home_file ov path =
     (let p = (if path = [] then home_file else path) in
      if CHR ''/'' \<notin> set p then Inl (OtherError ''FileNotFoundError'' [])
      else Inr (p, [(''server'', [(''host'', dict_get_or ov ''server_host'' (SStr ''localhost'')), (''port'', dict_get_or ov ''server_port'' (SInt 54000))]),
                    (''client'', [(''tun_enabled'', dict_get_or ov ''tun_enabled'' (SBool False))])]))"

section \<open>Answers\<close>

text \<open>What a line answers, if anything, and how a prompt goes through the lines typed.\<close>

definition line_answer :: "string \<Rightarrow> string list \<Rightarrow> string \<Rightarrow> string option" where
  "line_answer deflt choices line =
     (if strip line = [] then (if deflt = [] then None else Some deflt)
      else if choices \<noteq> [] \<and> strip line \<notin> set choices then None else Some (strip line))"

definition typed :: "string list \<Rightarrow> string" where
  "typed ls = concat (map (\<lambda>l. l @ [newline]) ls)"

lemma read_typed: "newline \<notin> set l \<Longrightarrow> read_line (l @ newline # rest) = Some (l, rest)"
proof -
  assume "newline \<notin> set l"
  then have "takeWhile (\<lambda>c. c \<noteq> newline) (l @ newline # rest) = l" "dropWhile (\<lambda>c. c \<noteq> newline) (l @ newline # rest) = newline # rest"
    by (induction l) auto
  then show ?thesis by (simp add: read_line_def)
qed

lemma prompt_line:
  "newline \<notin> set l \<Longrightarrow> prompt con deflt choices False (l @ newline # rest)
    = (case line_answer deflt choices l of Some a \<Rightarrow> Some (Answered a rest) | None \<Rightarrow> prompt con deflt choices False rest)"
  by (subst prompt.simps) (auto simp: read_typed line_answer_def)

theorem prompt_takes_first_answer:
  assumes "list_all (\<lambda>l. newline \<notin> set l \<and> line_answer deflt choices l = None) before" and "newline \<notin> set l"
    and "line_answer deflt choices l = Some a"
  shows "prompt con deflt choices False (typed (before @ l # after)) = Some (Answered a (typed after))"
  using assms by (induction before) (auto simp: typed_def prompt_line)

text \<open>A password may be left out according to the question; the prompt repeats it until something is typed.\<close>

lemma empty_password_refused:
  assumes "list_all (\<lambda>l. newline \<notin> set l \<and> strip l = []) ls"
  shows "prompt con [] [] False (typed ls) = Some Quit"
  using assms
proof (induction ls)
  case Nil
  then show ?case by (subst prompt.simps) (simp add: typed_def read_line_def)
next
  case (Cons l ls)
  then show ?case by (simp add: typed_def prompt_line line_answer_def)
qed

text \<open>A password prompt on a terminal never returns when the input ends before a line does.\<close>

lemma secret_prompt_hangs: "newline \<notin> set inp \<Longrightarrow> CHR 0x0D \<notin> set inp \<Longrightarrow> prompt Terminal deflt choices True inp = None"
proof -
  assume "newline \<notin> set inp" "CHR 0x0D \<notin> set inp"
  then have "read_secret acc inp = None" for acc by (induction acc inp rule: read_secret.induct) auto
  then show ?thesis by (subst prompt.simps) simp
qed

section \<open>Results\<close>

lemma bind_answered:
  assumes "bind_ask q f = Some (Answered b inp')"
  obtains a inp where "q = Some (Answered a inp)" "f a inp = Some (Answered b inp')"
  using assms by (auto simp: bind_ask_def split: option.splits asked.splits)

lemma server_override_host:
  "server_override server ov = Inr ov' \<Longrightarrow> (\<exists>h. dict_get ov' ''server_host'' = Some (SStr h))
     \<and> (\<forall>k. k \<noteq> ''server_host'' \<and> k \<noteq> ''server_port'' \<longrightarrow> dict_get ov' k = dict_get ov k) \<and> (dict_wf ov \<longrightarrow> dict_wf ov')"
  by (auto simp: server_override_def split: if_splits sum.splits prod.splits)

lemma ask_tun_answer:
  "ask_tun con caps ov inp = Some (Answered ov' rest) \<Longrightarrow> \<exists>b. ov' = dict_set ''tun_enabled'' (SBool b) ov \<and> (b \<longrightarrow> tun_mode_enabled caps)"
  by (auto simp: ask_tun_def bind_ask_def split: if_splits option.splits asked.splits)

lemma wizard_steps:
  assumes "run_setup_wizard con caps inp = Some (Answered ov rest)" and "ov \<noteq> []"
  obtains choice inp1 path_ov inp2 server ov1 b where "prompt con ''1'' [''1'', ''2'', ''3'', ''4''] False inp = Some (Answered choice inp1)"
    "(if choice = ''1'' then wizard_join con inp1 else if choice = ''2'' then wizard_create con inp1
      else if choice = ''3'' then wizard_hub con inp1 else wizard_minimal inp1) = Some (Answered path_ov inp2)"
    "server_override server path_ov = Inr ov1" "ov = dict_set ''tun_enabled'' (SBool b) ov1" "b \<longrightarrow> tun_mode_enabled caps"
  using assms unfolding run_setup_wizard_def
  by (elim bind_answered) (auto split: sum.splits if_splits elim!: bind_answered dest!: ask_tun_answer)

text \<open>The overrides of a completed run name a server, and ask for TUN mode only on a platform that has it.\<close>

theorem wizard_overrides:
  assumes "run_setup_wizard con caps inp = Some (Answered ov rest)" and "ov \<noteq> []"
  shows "(\<exists>h. dict_get ov ''server_host'' = Some (SStr h)) \<and> (\<exists>b. dict_get ov ''tun_enabled'' = Some (SBool b) \<and> (b \<longrightarrow> tun_mode_enabled caps))"
  by (rule wizard_steps [OF assms]) (use server_override_host in force)

text \<open>The fields the wizard sets for networks are not fields of the client configuration, which refuses them.\<close>

lemma unknown_override_refused:
  assumes "dict_get ov k = Some v" "v \<noteq> SNone" "dict_wf ov" "\<not> dict_has (client_defaults m) k"
  shows "\<exists>e. client_from_env m ov = Inl e"
proof (cases "client_env (m_environ m)")
  case (Inr vs)
  have wf: "dict_wf vs" using eval_dict_get [OF client_env_Inr [OF Inr], THEN conjunct1] by (simp add: client_env_vals_def)
  have "\<exists>e. build_config (client_defaults m) client_int_fields vs ov = Inl e"
  proof (cases "make_kwargs client_int_fields (dict_update vs ov)")
    case (Inr kw)
    have "dict_get kw k \<noteq> None"
      using make_kwargs_get [OF Inr wf_update [OF wf], of k] get_update [OF assms(3), of vs k] assms(1,2) by simp
    then have "k \<in> set (dict_keys kw)" by (simp add: map_of_eq_None_iff)
    then show ?thesis using Inr assms(4) by (auto simp: build_config_def construct_config_def list_all_iff)
  qed (simp add: build_config_def)
  then show ?thesis using Inr by (auto simp: client_from_env_def)
qed (simp add: client_from_env_def)

lemma wizard_join_refused:
  assumes "run_setup_wizard con caps inp = Some (Answered ov rest)" and "ov \<noteq> []"
    and "prompt con ''1'' [''1'', ''2'', ''3'', ''4''] False inp = Some (Answered ''1'' inp1)"
  shows "\<exists>e. client_from_env m ov = Inl e"
proof -
  obtain path_ov inp2 server ov1 b where p: "wizard_join con inp1 = Some (Answered path_ov inp2)"
    "server_override server path_ov = Inr ov1" "ov = dict_set ''tun_enabled'' (SBool b) ov1"
    by (rule wizard_steps [OF assms(1,2)]) (use assms(3) in auto)
  obtain n pw where j: "path_ov = [(''auto_join_network'', SStr n), (''auto_join_password'', SStr pw)]"
    using p(1) unfolding wizard_join_def by (auto elim!: bind_answered)
  have "dict_get ov ''auto_join_network'' = Some (SStr n)" "dict_wf ov"
    using server_override_host [OF p(2)] p(3) j by simp_all
  moreover have "\<not> dict_has (client_defaults m) ''auto_join_network''" by (simp add: dict_has_def client_defaults_def)
  ultimately show ?thesis using unknown_override_refused by blast
qed

end
