(* ===== verification/Feedback.thy ===== *)
theory Feedback
  imports Text
begin

text \<open>
  What the programs show their users: the catalogue of error messages (\<^verbatim>\<open>common/errors.py\<close>), the log
  formatters (\<^verbatim>\<open>common/logging.py\<close>) and the status indicator of the client (\<^verbatim>\<open>client/status_indicator.py\<close>).
  Texts are UTF-8, so an icon is the bytes of its code point.  The drawing libraries are arguments.
\<close>

section \<open>User-facing errors\<close>

datatype severity = SevInfo | SevSuccess | SevWarning | SevError | SevCritical

fun severity_value :: "severity \<Rightarrow> string" where
  "severity_value SevInfo = ''info''"
| "severity_value SevSuccess = ''success''"
| "severity_value SevWarning = ''warning''"
| "severity_value SevError = ''error''"
| "severity_value SevCritical = ''critical''"

definition icon_info :: string where "icon_info = utf8_chars 0x2139 @ utf8_chars 0xFE0F"
definition icon_success :: string where "icon_success = utf8_chars 0x2705"
definition icon_warning :: string where "icon_warning = utf8_chars 0x26A0 @ utf8_chars 0xFE0F"
definition icon_error :: string where "icon_error = utf8_chars 0x274C"
definition icon_red :: string where "icon_red = utf8_chars 0x1F534"
definition icon_hint :: string where "icon_hint = utf8_chars 0x1F4A1"

fun severity_icon :: "severity \<Rightarrow> string" where
  "severity_icon SevInfo = icon_info"
| "severity_icon SevSuccess = icon_success"
| "severity_icon SevWarning = icon_warning"
| "severity_icon SevError = icon_error"
| "severity_icon SevCritical = icon_red"

record user_error =
  ue_title :: string
  ue_description :: string
  ue_suggestions :: "string list"
  ue_severity :: severity

definition terminal_lines :: "user_error \<Rightarrow> string list" where
  "terminal_lines e =
     (severity_icon (ue_severity e) @ ''  '' @ ue_title e)
     # (if ue_description e = [] then [] else [''   '' @ ue_description e])
     @ map (\<lambda>s. ''   '' @ icon_hint @ '' '' @ s) (ue_suggestions e)"

definition format_for_terminal :: "user_error \<Rightarrow> string" where
  "format_for_terminal e = join [CHR 0x0A] (terminal_lines e)"

definition format_for_web :: "user_error \<Rightarrow> json" where
  "format_for_web e =
     JObj [(''title'', JStr (ue_title e)), (''description'', JStr (ue_description e)),
           (''suggestions'', JArr (map JStr (ue_suggestions e))), (''severity'', JStr (severity_value (ue_severity e)))]"

subsection \<open>Catalogue\<close>

definition ConnectionRefused :: "string \<Rightarrow> int \<Rightarrow> user_error" where
  "ConnectionRefused host port =
     \<lparr>ue_title = ''Cannot connect to '' @ host @ '':'' @ str_int port,
      ue_description = ''The LocalNetwork mediation server is not reachable. Check that the server is running and your network allows outbound connections on this port.'',
      ue_suggestions =
        [''Make sure the server is running: localnetwork-server'',
         ''Check your firewall settings'',
         ''Verify the server address with: localnetwork-cli status''],
      ue_severity = SevError\<rparr>"

definition AuthFailed :: "string \<Rightarrow> user_error" where
  "AuthFailed reason =
     (let extra = (if reason = [] then [] else '': '' @ reason) in
     \<lparr>ue_title = ''Authentication failed'' @ extra,
      ue_description = ''Your client identity could not be verified by the server. This may happen if your keys were regenerated or if someone is trying to impersonate you.'',
      ue_suggestions =
        [''If you regenerated your keys, re-register with the server'',
         ''Check that your identity files exist in ~/.localnetwork/'',
         ''Contact the server administrator if the issue persists''],
      ue_severity = SevError\<rparr>)"

definition TunnelFailed :: "string \<Rightarrow> user_error" where
  "TunnelFailed peer_name =
     \<lparr>ue_title = ''Could not establish direct connection to '' @ peer_name,
      ue_description = ''A direct peer-to-peer connection could not be established. This is often caused by restrictive NAT or firewalls. The connection will use a relay instead (slightly slower).'',
      ue_suggestions =
        [''Enable UPnP on your router for better connectivity'',
         ''Use a relay server if direct connections are blocked'',
         ''Try connecting from a different network''],
      ue_severity = SevWarning\<rparr>"

definition PortInUse :: "int \<Rightarrow> string \<Rightarrow> user_error" where
  "PortInUse port service =
     (let label = (if service = [] then [] else '' for '' @ service) in
     \<lparr>ue_title = ''Port '' @ str_int port @ '' is already in use'' @ label,
      ue_description = ''Another program is already listening on port '' @ str_int port @ ''. You can use a different port or stop the other program.'',
      ue_suggestions =
        [''Try a different port: lnet expose --port '' @ str_int (port + 1),
         ''Find what'' @ [squote] @ ''s using port '' @ str_int port @ '': lsof -i :'' @ str_int port,
         ''Use auto port selection to pick a free port automatically''],
      ue_severity = SevWarning\<rparr>)"

definition ConfigInvalid :: "string \<Rightarrow> user_error" where
  "ConfigInvalid detail =
     (let extra = (if detail = [] then [] else '': '' @ detail) in
     \<lparr>ue_title = ''Invalid configuration'' @ extra,
      ue_description = ''Your LocalNetwork configuration contains errors. Check the config file and fix the issues listed below.'',
      ue_suggestions =
        [''Check ~/.localnetwork/config.yaml for syntax errors'',
         ''Run the setup wizard to regenerate your config'',
         ''See the documentation for valid configuration options''],
      ue_severity = SevError\<rparr>)"

definition PlatformUnsupported :: "string \<Rightarrow> string \<Rightarrow> user_error" where
  "PlatformUnsupported feature platform =
     \<lparr>ue_title = feature @ '' is not supported on this platform'',
      ue_description = ''The '' @ [squote] @ feature @ [squote] @ '' feature requires specific OS support that is not available'' @ (if platform = [] then [] else '' on '' @ platform) @ ''. Consider using an alternative approach.'',
      ue_suggestions =
        [''Use service exposure mode instead of TUN mode'',
         ''Run on Linux for full TUN interface support'',
         ''See platform-specific setup instructions in the README''],
      ue_severity = SevWarning\<rparr>"

definition FirewallBlock :: "int \<Rightarrow> user_error" where
  "FirewallBlock port =
     (let port_info = (if port = 0 then [] else '' on port '' @ str_int port) in
     \<lparr>ue_title = ''Connection blocked by firewall'' @ port_info,
      ue_description = ''A firewall appears to be blocking the connection. This is common on corporate networks or restrictive ISPs.'',
      ue_suggestions =
        [''Check your firewall settings and allow LocalNetwork'',
         ''Try using a different port (some ISPs block common ports)'',
         ''Connect via a VPN to bypass restrictive firewalls''],
      ue_severity = SevError\<rparr>)"

section \<open>Logging\<close>

text \<open>The levels of the logging module, ordered by their numbers.\<close>

datatype log_level = LevelDEBUG | LevelINFO | LevelWARNING | LevelERROR | LevelCRITICAL

fun levelno :: "log_level \<Rightarrow> nat" where
  "levelno LevelDEBUG = 10"
| "levelno LevelINFO = 20"
| "levelno LevelWARNING = 30"
| "levelno LevelERROR = 40"
| "levelno LevelCRITICAL = 50"

fun levelname :: "log_level \<Rightarrow> string" where
  "levelname LevelDEBUG = ''DEBUG''"
| "levelname LevelINFO = ''INFO''"
| "levelname LevelWARNING = ''WARNING''"
| "levelname LevelERROR = ''ERROR''"
| "levelname LevelCRITICAL = ''CRITICAL''"

lemma levelno_inject [simp]: "levelno a = levelno b \<longleftrightarrow> a = b"
  by (cases a; cases b) simp_all

instantiation log_level :: linorder
begin

definition less_eq_log_level :: "log_level \<Rightarrow> log_level \<Rightarrow> bool" where
  "a \<le> b \<longleftrightarrow> levelno a \<le> levelno b"

definition less_log_level :: "log_level \<Rightarrow> log_level \<Rightarrow> bool" where
  "a < b \<longleftrightarrow> levelno a < levelno b"

instance
  by standard (auto simp: less_eq_log_level_def less_log_level_def)

end

definition EVENT_ICONS :: "(string, string) dict" where
  "EVENT_ICONS =
     [(''connected'', utf8_chars 0x1F517), (''disconnected'', utf8_chars 0x1F50C), (''reconnecting'', utf8_chars 0x1F504),
      (''peer_online'', utf8_chars 0x1F44B), (''peer_offline'', utf8_chars 0x1F44B),
      (''tunnel_established'', utf8_chars 0x1F512), (''tunnel_failed'', icon_warning), (''tunnel_closed'', utf8_chars 0x1F512),
      (''service_exposed'', utf8_chars 0x1F4E4), (''service_removed'', utf8_chars 0x1F4E4), (''service_mapped'', utf8_chars 0x1F4E5),
      (''network_created'', utf8_chars 0x1F310), (''network_joined'', utf8_chars 0x1F310), (''network_left'', utf8_chars 0x1F310),
      (''info'', icon_info), (''warning'', icon_warning), (''error'', icon_error), (''success'', icon_success),
      (''startup'', utf8_chars 0x1F680), (''shutdown'', utf8_chars 0x1F6D1)]"

text \<open>A record with its local time of day, its creation time as JSON prints it, and its extra attributes.\<close>

record log_record =
  lr_time :: string
  lr_created :: string
  lr_level :: log_level
  lr_name :: string
  lr_message :: string
  lr_extra :: "(string, json) dict"
  lr_exception :: "string option"

definition friendly_text :: "log_record \<Rightarrow> json option" where
  "friendly_text r = (case dict_get (lr_extra r) ''friendly'' of None \<Rightarrow> None | Some v \<Rightarrow> if truthy v then Some v else None)"

definition friendly_format :: "bool \<Rightarrow> log_record \<Rightarrow> string" where
  "friendly_format verbose r =
     (let head = lr_time r @ '' '' @ dict_get_or EVENT_ICONS (lower (levelname (lr_level r))) [] @ '' '' in
      case friendly_text r of
        Some v \<Rightarrow> head @ py_str v
      | None \<Rightarrow>
          if verbose then head @ ''['' @ last (split_on ''.'' (lr_name r)) @ ''] '' @ lr_message r
          else if lr_level r \<le> LevelDEBUG then []
          else head @ lr_message r)"

text \<open>The dictionary that the JSON formatter prints.\<close>

definition extra_field :: "log_record \<Rightarrow> string \<Rightarrow> json option" where
  "extra_field r key = (case dict_get (lr_extra r) key of Some JNull \<Rightarrow> None | v \<Rightarrow> v)"

definition extra_keys :: "string list" where
  "extra_keys = [''friendly'', ''peer_id'', ''network_id'', ''duration_ms'']"

definition json_entry :: "log_record \<Rightarrow> (string, json) dict" where
  "json_entry r =
     [(''ts'', JFloat (lr_created r)), (''level'', JStr (levelname (lr_level r))), (''logger'', JStr (lr_name r)),
      (''msg'', JStr (lr_message r))]
     @ List.map_filter (\<lambda>key. map_option (Pair key) (extra_field r key)) extra_keys
     @ (case lr_exception r of None \<Rightarrow> [] | Some e \<Rightarrow> [(''exception'', JStr e)])"

datatype log_format = Friendly bool | Json

datatype log_sink = Stdout | Stderr | LogFile string

record log_setup =
  ls_threshold :: log_level
  ls_handlers :: "(log_sink \<times> log_format) list"

definition level_of_name :: "string \<Rightarrow> log_level" where
  "level_of_name s =
     (case List.find (\<lambda>l. levelname l = upper s) [LevelDEBUG, LevelINFO, LevelWARNING, LevelERROR, LevelCRITICAL] of
        Some l \<Rightarrow> l | None \<Rightarrow> LevelINFO)"

text \<open>\<open>opens\<close> tells whether a log file can be opened.\<close>

definition setup_logging :: "string \<Rightarrow> bool \<Rightarrow> bool \<Rightarrow> string option \<Rightarrow> (string \<Rightarrow> bool) \<Rightarrow> log_setup" where
  "setup_logging level verbose json_output log_file opens =
     \<lparr>ls_threshold = level_of_name level,
      ls_handlers = [if json_output then (Stdout, Json) else (Stderr, Friendly verbose)]
        @ (case log_file of None \<Rightarrow> [] | Some f \<Rightarrow> if f \<noteq> [] \<and> opens f then [(LogFile f, Json)] else [])\<rparr>"

text \<open>What a handler writes for a record: the root logger drops records below its level; every other one is
  written with its formatter.\<close>

definition emitted :: "log_setup \<Rightarrow> log_record \<Rightarrow> (log_sink \<times> (string + (string, json) dict)) list" where
  "emitted ls r =
     (if ls_threshold ls \<le> lr_level r
      then map (\<lambda>(sink, f). (sink, case f of Friendly v \<Rightarrow> Inl (friendly_format v r) | Json \<Rightarrow> Inr (json_entry r))) (ls_handlers ls)
      else [])"

section \<open>Status indicator\<close>

definition STATE_GREEN :: string where "STATE_GREEN = ''green''"
definition STATE_YELLOW :: string where "STATE_YELLOW = ''yellow''"
definition STATE_RED :: string where "STATE_RED = ''red''"
definition STATE_GRAY :: string where "STATE_GRAY = ''gray''"

definition STATUS_TEXT :: "(string, string) dict" where
  "STATUS_TEXT =
     [(STATE_GREEN, utf8_chars 0x1F7E2 @ '' Connected''), (STATE_YELLOW, utf8_chars 0x1F7E1 @ '' Degraded''),
      (STATE_RED, icon_red @ '' Disconnected''), (STATE_GRAY, utf8_chars 0x26AA @ '' Idle'')]"

definition DEFAULT_WEB_PORT :: int where "DEFAULT_WEB_PORT = 54002"

text \<open>The daemon is the web port of its configuration.\<close>

definition web_port :: "int option option \<Rightarrow> int" where
  "web_port daemon =
     (case daemon of Some (Some p) \<Rightarrow> if p = 0 then DEFAULT_WEB_PORT else p | _ \<Rightarrow> DEFAULT_WEB_PORT)"

definition web_url :: "int option option \<Rightarrow> string \<Rightarrow> string" where
  "web_url daemon path = ''http://localhost:'' @ str_int (web_port daemon) @ path"

datatype indicator_kind = TerminalIndicator | SystemTrayIndicator

type_synonym colour = "nat \<times> nat \<times> nat"

record indicator =
  in_kind :: indicator_kind
  in_state :: string
  in_tooltip :: string
  in_daemon :: "int option option"
  in_available :: bool
  in_icon :: "colour option"
  in_out :: "string list"
  in_urls :: "string list"
  in_shutdown :: bool

definition starting_text :: string where
  "starting_text = ''LocalNetwork '' @ utf8_chars 0x2014 @ '' starting'' @ utf8_chars 0x2026"

definition indicator_init :: "indicator_kind \<Rightarrow> bool \<Rightarrow> indicator" where
  "indicator_init kind pystray =
     \<lparr>in_kind = kind, in_state = STATE_GRAY, in_tooltip = starting_text, in_daemon = None,
      in_available = (kind = SystemTrayIndicator \<and> pystray), in_icon = None, in_out = [], in_urls = [], in_shutdown = False\<rparr>"

definition set_daemon :: "int option option \<Rightarrow> indicator \<Rightarrow> indicator" where
  "set_daemon d i = i\<lparr>in_daemon := d\<rparr>"

definition state_colour :: "string \<Rightarrow> colour" where
  "state_colour s =
     dict_get_or [(STATE_GREEN, (34, 197, 94)), (STATE_YELLOW, (245, 158, 11)), (STATE_RED, (239, 68, 68)), (STATE_GRAY, (128, 128, 128))]
       s (128, 128, 128)"

definition status_line :: "indicator \<Rightarrow> string" where
  "status_line i = [CHR 0x0D] @ dict_get_or STATUS_TEXT (in_state i) (in_state i) @ ''  '' @ in_tooltip i @ ''  ''"

definition render :: "indicator \<Rightarrow> indicator" where
  "render i =
     (case in_kind i of
        TerminalIndicator \<Rightarrow> i\<lparr>in_out := in_out i @ [status_line i]\<rparr>
      | SystemTrayIndicator \<Rightarrow>
          if \<not> in_available i \<or> in_icon i = None then i else i\<lparr>in_icon := Some (state_colour (in_state i))\<rparr>)"

definition update_status :: "string option \<Rightarrow> string option \<Rightarrow> indicator \<Rightarrow> indicator" where
  "update_status state tooltip i =
     render (i\<lparr>in_state := (case state of None \<Rightarrow> in_state i | Some s \<Rightarrow> s),
               in_tooltip := (case tooltip of None \<Rightarrow> in_tooltip i | Some t \<Rightarrow> t)\<rparr>)"

text \<open>\<open>made\<close> tells whether the tray icon can be created.\<close>

definition start_indicator :: "bool \<Rightarrow> indicator \<Rightarrow> indicator" where
  "start_indicator made i =
     (case in_kind i of
        TerminalIndicator \<Rightarrow> render (update_status (Some STATE_GRAY) (Some starting_text) i)
      | SystemTrayIndicator \<Rightarrow>
          if \<not> in_available i then i
          else
            (let i = update_status (Some STATE_GRAY) (Some starting_text) i in
             if made then i\<lparr>in_icon := Some (128, 128, 128)\<rparr> else i\<lparr>in_available := False\<rparr>))"

definition stop_indicator :: "indicator \<Rightarrow> indicator" where
  "stop_indicator i =
     (case in_kind i of
        TerminalIndicator \<Rightarrow> i\<lparr>in_out := in_out i @ [[CHR 0x0A]]\<rparr>
      | SystemTrayIndicator \<Rightarrow> i\<lparr>in_icon := None\<rparr>)"

definition open_dashboard :: "indicator \<Rightarrow> indicator" where
  "open_dashboard i = i\<lparr>in_urls := in_urls i @ [web_url (in_daemon i) []]\<rparr>"

definition share_service :: "indicator \<Rightarrow> indicator" where
  "share_service i = i\<lparr>in_urls := in_urls i @ [web_url (in_daemon i) ''/services'']\<rparr>"

definition quit_indicator :: "indicator \<Rightarrow> indicator" where
  "quit_indicator i = (if in_daemon i = None then i else i\<lparr>in_shutdown := True\<rparr>)"

definition has_display :: "string \<Rightarrow> (string, string) dict \<Rightarrow> bool" where
  "has_display platform environ =
     (if platform = ''linux'' then dict_get_or environ ''DISPLAY'' [] \<noteq> [] \<or> dict_get_or environ ''WAYLAND_DISPLAY'' [] \<noteq> []
      else platform = ''darwin'' \<or> platform = ''win32'')"

definition create_status_indicator :: "bool \<Rightarrow> string \<Rightarrow> (string, string) dict \<Rightarrow> bool \<Rightarrow> indicator" where
  "create_status_indicator isatty platform environ pystray =
     (if \<not> isatty \<or> \<not> has_display platform environ then indicator_init TerminalIndicator pystray
      else
        (let tray = indicator_init SystemTrayIndicator pystray in
         if in_available tray then tray else indicator_init TerminalIndicator pystray))"

section \<open>Properties\<close>

text \<open>The terminal text of an error keeps its parts apart: title, description and suggestions are its lines, in
  that order, whenever they contain no line break themselves.\<close>

definition single_line :: "string \<Rightarrow> bool" where
  "single_line s \<longleftrightarrow> CHR 0x0A \<notin> set s"

lemma single_line_append [simp]: "single_line (s @ t) \<longleftrightarrow> single_line s \<and> single_line t"
  by (auto simp: single_line_def)

lemma single_line_Cons [simp]: "single_line (c # s) \<longleftrightarrow> c \<noteq> CHR 0x0A \<and> single_line s" "single_line []"
  by (auto simp: single_line_def)

lemma high_byte_no_newline: "128 \<le> k \<Longrightarrow> k < 256 \<Longrightarrow> CHR 0x0A \<noteq> char_of k" for k :: nat
proof
  assume k: "128 \<le> k" "k < 256" and "CHR 0x0A = char_of k"
  then have "(of_char (CHR 0x0A) :: nat) = of_char (char_of k :: char)" by simp
  then show False using k by simp
qed

lemma icon_bytes: "list_all (\<lambda>s. CHR 0x0A \<notin> set s) [icon_info, icon_success, icon_warning, icon_error, icon_red, icon_hint]"
  by (simp add: icon_info_def icon_success_def icon_warning_def icon_error_def icon_red_def icon_hint_def utf8_chars_def high_byte_no_newline)

lemma icons_single_line [simp]: "single_line (severity_icon sev)" "single_line icon_hint"
  using icon_bytes by (cases sev; simp add: single_line_def)+

theorem terminal_text_lines:
  assumes "single_line (ue_title e)" "single_line (ue_description e)" "list_all single_line (ue_suggestions e)"
  shows "split_on [CHR 0x0A] (format_for_terminal e) = terminal_lines e"
proof -
  have "list_all single_line (terminal_lines e)" using assms by (auto simp: terminal_lines_def list_all_iff)
  then have "list_all (\<lambda>s. CHR 0x0A \<notin> set s) (terminal_lines e)" by (simp add: list_all_iff single_line_def)
  then show ?thesis unfolding format_for_terminal_def by (rule split_join) (simp add: terminal_lines_def)
qed

lemma single_line_int [simp]: "single_line (str_int i)"
proof -
  have "single_line (dec_digits n)" for n
    using dec_digits_digits [of n] by (auto simp: single_line_def list_all_iff is_digit_def)
  then show ?thesis by (simp add: str_int_def)
qed

text \<open>Every message of the catalogue explains itself in five lines: a title, a description and three suggestions.\<close>

inductive catalogued :: "user_error \<Rightarrow> bool" where
  "single_line h \<Longrightarrow> catalogued (ConnectionRefused h p)"
| "single_line r \<Longrightarrow> catalogued (AuthFailed r)"
| "single_line n \<Longrightarrow> catalogued (TunnelFailed n)"
| "single_line s \<Longrightarrow> catalogued (PortInUse p s)"
| "single_line d \<Longrightarrow> catalogued (ConfigInvalid d)"
| "single_line f \<Longrightarrow> single_line p \<Longrightarrow> catalogued (PlatformUnsupported f p)"
| "catalogued (FirewallBlock p)"

lemmas catalogue_defs = ConnectionRefused_def AuthFailed_def TunnelFailed_def PortInUse_def ConfigInvalid_def PlatformUnsupported_def
  FirewallBlock_def

lemma catalogued_parts:
  "catalogued e \<Longrightarrow> single_line (ue_title e) \<and> single_line (ue_description e) \<and> list_all single_line (ue_suggestions e)
     \<and> ue_description e \<noteq> [] \<and> length (ue_suggestions e) = 3 \<and> ue_severity e \<in> {SevWarning, SevError}"
  by (induction rule: catalogued.induct) (simp_all add: catalogue_defs Let_def squote_def)

theorem catalogue_five_lines: "catalogued e \<Longrightarrow> length (split_on [CHR 0x0A] (format_for_terminal e)) = 5"
  using catalogued_parts [of e] by (simp add: terminal_text_lines) (simp add: terminal_lines_def)

text \<open>A log entry has each field once: the level, the logger and the message of the record, and those extra
  fields that are set.\<close>

lemma filtered_fields:
  "set (map fst (List.map_filter (\<lambda>k. map_option (Pair k) (f k)) ks)) \<subseteq> set ks"
  "distinct ks \<Longrightarrow> dict_wf (List.map_filter (\<lambda>k. map_option (Pair k) (f k)) ks)"
  "dict_get (List.map_filter (\<lambda>k. map_option (Pair k) (f k)) ks) k = (if k \<in> set ks then f k else None)"
  by (induction ks) (auto simp: List.map_filter_def split: option.splits)

theorem json_entry_fields:
  "dict_wf (json_entry r) \<and> dict_get (json_entry r) ''msg'' = Some (JStr (lr_message r))
    \<and> dict_get (json_entry r) ''level'' = Some (JStr (levelname (lr_level r)))
    \<and> list_all (\<lambda>k. dict_get (json_entry r) k = extra_field r k) extra_keys"
proof -
  let ?x = "List.map_filter (\<lambda>key. map_option (Pair key) (extra_field r key)) extra_keys"
  let ?e = "(case lr_exception r of None \<Rightarrow> [] | Some e \<Rightarrow> [(''exception'', JStr e)])"
  have d: "distinct extra_keys" "list_all (\<lambda>k. k \<notin> set extra_keys) [''ts'', ''level'', ''logger'', ''msg'', ''exception'']" by code_simp+
  note x = filtered_fields [where f = "extra_field r" and ks = extra_keys]
  have k: "list_all (\<lambda>k. k \<notin> fst ` set ?x) [''ts'', ''level'', ''logger'', ''msg'', ''exception'']"
    using x(1) d(2) by (auto simp: list_all_iff)
  have "dict_get (json_entry r) k = extra_field r k" if k: "k \<in> set extra_keys" for k
  proof -
    have "k \<noteq> ''exception''" and ne: "k \<noteq> ''ts''" "k \<noteq> ''level''" "k \<noteq> ''logger''" "k \<noteq> ''msg''" using k d(2) by auto
    then have "dict_get ?e k = None" by (cases "lr_exception r") simp_all
    then show ?thesis using ne x(3) [of k] k by (cases "extra_field r k") (simp_all add: json_entry_def map_add_def)
  qed
  then have "list_all (\<lambda>k. dict_get (json_entry r) k = extra_field r k) extra_keys" by (simp add: list_all_iff)
  moreover have "dict_wf (json_entry r)" using x(2) [OF d(1)] k unfolding json_entry_def by (auto split: option.splits)
  ultimately show ?thesis by (simp add: json_entry_def)
qed

text \<open>Without \<^verbatim>\<open>--verbose\<close> a debug record is meant to be skipped; an empty line is written for it.\<close>

lemma debug_record_writes_empty_line:
  "lr_level r = LevelDEBUG \<Longrightarrow> lr_extra r = [] \<Longrightarrow> emitted (setup_logging ''DEBUG'' False False None opens) r = [(Stderr, Inl [])]"
  by (simp add: emitted_def setup_logging_def level_of_name_def friendly_format_def friendly_text_def upper_def to_upper_char_def Let_def)

subsection \<open>The colour of the tray icon\<close>

inductive indicator_step :: "indicator \<Rightarrow> indicator \<Rightarrow> bool" where
  update: "indicator_step i (update_status state tooltip i)"
| start: "in_icon i = None \<Longrightarrow> indicator_step i (start_indicator made i)"
| stop: "indicator_step i (stop_indicator i)"
| daemon: "indicator_step i (set_daemon d i)"
| dashboard: "indicator_step i (open_dashboard i)"
| share: "indicator_step i (share_service i)"
| quit: "indicator_step i (quit_indicator i)"

inductive_cases indicator_stepE: "indicator_step i j"

definition shows_state :: "indicator \<Rightarrow> bool" where
  "shows_state i \<longleftrightarrow> (case in_icon i of None \<Rightarrow> True
     | Some c \<Rightarrow> in_kind i = SystemTrayIndicator \<and> in_available i \<and> c = state_colour (in_state i))"

lemma step_shows_state: "indicator_step i j \<Longrightarrow> shows_state i \<Longrightarrow> shows_state j"
  by (erule indicator_stepE)
    (auto simp: shows_state_def update_status_def render_def start_indicator_def stop_indicator_def set_daemon_def open_dashboard_def
      share_service_def quit_indicator_def state_colour_def dict_get_or_def STATE_GRAY_def STATE_GREEN_def STATE_YELLOW_def STATE_RED_def
      Let_def split: option.splits indicator_kind.splits if_splits)

theorem tray_icon_shows_state:
  assumes "indicator_step\<^sup>*\<^sup>* (create_status_indicator isatty platform environ pystray) i"
  shows "shows_state i"
  using assms
proof (induction rule: rtranclp_induct)
  case base
  then show ?case by (simp add: shows_state_def create_status_indicator_def indicator_init_def Let_def)
qed (rule step_shows_state)

end
