(* ===== verification/Proxy_Main.thy ===== *)
theory Proxy_Main
  imports Master Proxy_Config Connection
begin

text \<open>
  The proxy as a program: a worker process built from the configuration (\<^verbatim>\<open>proxy/worker.py\<close>), the
  lines of its access log (\<^verbatim>\<open>_format\<close> of \<^verbatim>\<open>proxy/logging.py\<close>), the command line (\<^verbatim>\<open>proxy/main.py\<close>) and the
  data of its admin panel (\<^verbatim>\<open>proxy/web/app.py\<close>).  A configuration whose values have the types of the dataclasses
  gives a worker; templates, the web server and the event loop are left out.
\<close>

section \<open>Worker process\<close>

text \<open>\<^verbatim>\<open>GzipCompressor(level, min_length) if gzip_enabled else None\<close>.\<close>

definition config_compressor :: "json \<times> json \<times> json \<Rightarrow> gzip_compressor option option" where
  "config_compressor g =
     (case g of (enabled, min_length, level) \<Rightarrow>
        if \<not> truthy enabled then Some None
        else (case (level, min_length) of (JInt l, JInt m) \<Rightarrow> Some (Some \<lparr>gz_level = l, gz_min_length = m\<rparr>) | _ \<Rightarrow> None))"

definition config_worker :: "(string \<Rightarrow> real) \<Rightarrow> proxy_config \<Rightarrow> worker result option" where
  "config_worker fl c =
     (case (those (map typed_upstream (px_upstreams c)), those (map (typed_location fl) (px_locations c)), config_compressor (px_gzip c)) of
        (Some us, Some ls, Some gz) \<Rightarrow> Some (worker_init ls us gz (truthy (fst (px_logs c))))
      | _ \<Rightarrow> None)"

record worker_process =
  wp_sockets :: "nat list"
  wp_servers :: "nat list"
  wp_logger :: "access_logger option"

text \<open>\<^verbatim>\<open>_serve\<close> up to the point where it waits, and its end when the task is cancelled.\<close>

definition serve_start :: "worker_process \<Rightarrow> worker_process" where
  "serve_start p = p\<lparr>wp_logger := map_option logger_start (wp_logger p), wp_servers := wp_sockets p\<rparr>"

definition serve_stop :: "worker_process \<Rightarrow> worker_process" where
  "serve_stop p = p\<lparr>wp_servers := [], wp_logger := map_option logger_stop (wp_logger p)\<rparr>"

section \<open>Lines of the access log\<close>

text \<open>What the writer adds to an entry: the time stamp as the formatter prints it, the duration and the user
  agent and upstream given by the caller.\<close>

record log_context =
  lc_time :: string
  lc_ts :: string
  lc_duration :: string
  lc_agent :: string
  lc_upstream :: string

definition entry_json :: "log_context \<Rightarrow> access_entry \<Rightarrow> json" where
  "entry_json c e =
     JObj [(''ts'', JFloat (lc_ts c)), (''client'', JStr (al_client_ip e)), (''method'', JStr (al_method e)),
           (''path'', JStr (al_path e)), (''status'', JInt (al_status e)), (''size'', JInt (int (al_body_size e))),
           (''duration_ms'', JFloat (lc_duration c)), (''upstream'', JStr (lc_upstream c)), (''ua'', JStr (lc_agent c))]"

definition combined_line :: "log_context \<Rightarrow> access_entry \<Rightarrow> string" where
  "combined_line c e =
     al_client_ip e @ '' - - ['' @ lc_time c @ ''] '' @ [quote] @ al_method e @ '' '' @ al_path e @ '' HTTP/1.1'' @ [quote] @ '' ''
     @ str_int (al_status e) @ '' '' @ str_int (int (al_body_size e)) @ '' '' @ [quote] @ ''-'' @ [quote] @ '' '' @ [quote] @ lc_agent c
     @ [quote] @ '' '' @ lc_duration c @ ''ms upstream='' @ lc_upstream c"

section \<open>Command line\<close>

record proxy_args =
  pa_config :: string
  pa_workers :: int
  pa_validate :: bool

datatype proxy_action = AdminPanel int | StartMaster "int list" "int list" int | ShutdownMaster

datatype start_outcome = MasterReturned | MasterInterrupted | MasterFailed

record proxy_run =
  pn_out :: "string list"
  pn_err :: "string list"
  pn_actions :: "proxy_action list"
  pn_code :: int

definition exc_text :: "py_exc \<Rightarrow> string" where
  "exc_text e =
     (case e of ValueError m \<Rightarrow> m | TypeError m \<Rightarrow> m | KeyError m \<Rightarrow> repr_str m | IndexError \<Rightarrow> ''list index out of range'' | OSError m \<Rightarrow> m
      | StructError \<Rightarrow> ''struct error'' | AttributeError m \<Rightarrow> m | OtherError c m \<Rightarrow> m)"

definition valid_text :: "proxy_config \<Rightarrow> string" where
  "valid_text c =
     ''Configuration is valid ('' @ str_int (int (length (px_upstreams c))) @ '' upstream(s), ''
     @ str_int (int (length (px_locations c))) @ '' location(s), workers=''
     @ (if px_workers c = 0 then ''auto'' else str_int (px_workers c)) @ '')''"

definition load_failure :: "string \<Rightarrow> py_exc \<Rightarrow> string" where
  "load_failure path e =
     (case e of
        OtherError c m \<Rightarrow> if c = ''FileNotFoundError'' then ''Error: config file not found: '' @ path
                          else ''Error: failed to parse config: '' @ m
      | _ \<Rightarrow> ''Error: failed to parse config: '' @ exc_text e)"

definition proxy_main :: "(string \<Rightarrow> int) \<Rightarrow> json result option \<Rightarrow> proxy_args \<Rightarrow> start_outcome \<Rightarrow> proxy_run" where
  "proxy_main trunc file args started =
     (case load_config trunc file of
        Inl e \<Rightarrow> \<lparr>pn_out = [], pn_err = [load_failure (pa_config args) e], pn_actions = [], pn_code = 1\<rparr>
      | Inr c \<Rightarrow>
          (let c = (if pa_workers args \<noteq> 0 then c\<lparr>px_workers := pa_workers args\<rparr> else c) in
           if pa_validate args then \<lparr>pn_out = [valid_text c], pn_err = [], pn_actions = [], pn_code = 0\<rparr>
           else
             (let acts = (if px_admin_port c > 0 then [AdminPanel (px_admin_port c)] else [])
                         @ [StartMaster (px_http c) (px_https c) (px_workers c)]
              in case started of
                   MasterReturned \<Rightarrow> \<lparr>pn_out = [], pn_err = [], pn_actions = acts, pn_code = 0\<rparr>
                 | MasterInterrupted \<Rightarrow> \<lparr>pn_out = [], pn_err = [], pn_actions = acts @ [ShutdownMaster], pn_code = 0\<rparr>
                 | MasterFailed \<Rightarrow> \<lparr>pn_out = [], pn_err = [], pn_actions = acts, pn_code = 1\<rparr>)))"

section \<open>Admin panel\<close>

text \<open>\<^verbatim>\<open>/api/dashboard\<close> and \<^verbatim>\<open>/proxy-status\<close>; \<open>num\<close> prints a number.\<close>

definition stats_json :: "(real \<Rightarrow> string) \<Rightarrow> (string \<times> real) list \<Rightarrow> (string, json) dict" where
  "stats_json num stats = map (\<lambda>(k, v). (k, JFloat (num v))) stats"

definition panel_dashboard :: "(real \<Rightarrow> string) \<Rightarrow> real \<Rightarrow> status_collector option \<Rightarrow> json" where
  "panel_dashboard num uptime sc = JObj (case sc of None \<Rightarrow> [] | Some s \<Rightarrow> stats_json num (get_stats uptime s))"

definition summary_json :: "string \<times> server_summary list \<Rightarrow> json" where
  "summary_json g =
     JObj [(''name'', JStr (fst g)),
           (''servers'', JArr (map (\<lambda>s. JObj [(''host'', JStr (ss_host s)), (''state'', JStr (ss_state s)),
                                              (''active'', JInt (ss_active s)), (''failures'', JInt (ss_failures s))]) (snd g)))]"

definition proxy_status :: "(real \<Rightarrow> string) \<Rightarrow> real \<Rightarrow> status_collector option \<Rightarrow> upstream_block list option \<Rightarrow> health_monitor option
    \<Rightarrow> (string, balancer) dict \<Rightarrow> json" where
  "proxy_status num uptime sc ups health balancers =
     JObj (dict_set ''upstreams'' (JArr (map summary_json (upstream_summary (case ups of None \<Rightarrow> [] | Some us \<Rightarrow> us) health balancers)))
             (case sc of None \<Rightarrow> [] | Some s \<Rightarrow> stats_json num (get_stats uptime s)))"

text \<open>The panel of \<^verbatim>\<open>_start_admin_panel\<close>: a collector of its own, the configured groups, no health monitor and no
  balancers.\<close>

definition admin_status :: "(real \<Rightarrow> string) \<Rightarrow> real \<Rightarrow> upstream_block list \<Rightarrow> json" where
  "admin_status num uptime us = proxy_status num uptime (Some status_init) (Some us) None []"

section \<open>Properties\<close>

text \<open>The program ends with code 0 exactly when the configuration was read and it was only to be checked or the
  master ended without an error; nothing is started otherwise.\<close>

theorem proxy_main_code:
  "pn_code (proxy_main trunc file args started) = 0 \<longleftrightarrow>
     (\<exists>c. load_config trunc file = Inr c) \<and> (pa_validate args \<or> started \<noteq> MasterFailed)"
  "pn_actions (proxy_main trunc file args started) = [] \<longleftrightarrow> (\<exists>e. load_config trunc file = Inl e) \<or> pa_validate args"
  by (auto simp: proxy_main_def Let_def split: sum.splits start_outcome.splits if_splits)

text \<open>The panel shows every server as up unless it is marked as down: the failures that the workers see never
  reach it.\<close>

lemma admin_panel_blind:
  "upstream_summary us None [] = map (\<lambda>u. (ub_name u, map (\<lambda>s. \<lparr>ss_host = us_host s @ '':'' @ str_int (us_port s),
     ss_state = (if us_down s then ''down'' else ''up''), ss_active = 0, ss_failures = 0\<rparr>) (ub_servers u))) us"
  by (auto simp: upstream_summary_def server_summary_of_def active_connections_def)

text \<open>Every worker serves all listening sockets and stops all of its servers; its logger runs in between.\<close>

lemma worker_serves:
  "wp_servers (serve_start p) = wp_sockets p" "wp_servers (serve_stop p) = []"
  "wp_logger p = Some l \<Longrightarrow> wp_logger (serve_stop (serve_start p)) = Some (l\<lparr>lg_running := False\<rparr>)"
  by (simp_all add: serve_start_def serve_stop_def logger_start_def logger_stop_def)

text \<open>A name that a path carries into the combined format with a line break makes a second line of the log.\<close>

lemma combined_line_injection:
  "al_path e = p @ [CHR 0x0A] @ forged \<Longrightarrow> \<exists>before after. combined_line c e = before @ [CHR 0x0A] @ forged @ after"
  by (rule exI [of _ "al_client_ip e @ '' - - ['' @ lc_time c @ ''] '' @ [quote] @ al_method e @ '' '' @ p"]) (simp add: combined_line_def)

end
