(* ===== verification/Lifecycle.thy ===== *)
theory Lifecycle
  imports Handshake Daemon
begin

text \<open>
  Client and server together after authentication: what the commands of the control channel
  (\<^verbatim>\<open>client/control_channel.py\<close>) achieve at the handlers of the server (\<^verbatim>\<open>server/main.py\<close>), and what the
  announcements of the server make of the routing tables of the daemon (\<^verbatim>\<open>client/main.py\<close>).
\<close>

section \<open>Requests at the server\<close>

lemma create_request_valid:
  assumes "create_network_request name password topo = Inr m" "NAME_RE name" "name \<noteq> []" "password \<noteq> []" "topo \<in> set SUPPORTED_TOPOLOGIES"
  shows "validate_create_network (m_payload m) = Inr (name, password, topo)"
  using assms
  by (auto simp: create_network_request_def make_message_def construct_def CreateNetwork_def dict_has_def payload_from_dataclass_def
      validate_create_network_def require_def py_str_def get_or_def Protocol.truthy_def SUPPORTED_TOPOLOGIES_def Let_def)

lemma join_request_valid:
  assumes "join_network_request nid password = Inr m" "nid \<noteq> []" "password \<noteq> []"
  shows "validate_join_network (m_payload m) = Inr (nid, password)"
  using assms
  by (auto simp: join_network_request_def make_message_def construct_def JoinNetwork_def dict_has_def payload_from_dataclass_def
      validate_join_network_def require_def py_str_def)

lemma peer_online_message:
  "\<exists>m. make_message PeerOnline [(''network_id'', JStr n), (''peer_id'', JStr c)] = Inr m \<and> m_type m = ''PEER_ONLINE''
     \<and> dict_get (m_payload m) ''network_id'' = Some (JStr n) \<and> dict_get (m_payload m) ''peer_id'' = Some (JStr c)
     \<and> dict_get (m_payload m) ''peer_ip'' = None"
  by (simp add: make_message_def construct_def PeerOnline_def dict_has_def payload_from_dataclass_def type_of_instance_def)

lemma created_message:
  "\<exists>m. make_message NetworkCreated [(''network_id'', JStr n), (''name'', JStr nm), (''owner_id'', JStr o'), (''topology'', JStr t), (''invite_code'', JStr c)] = Inr m
     \<and> reply_outcome ''NETWORK_CREATED'' m = Some (Inr m) \<and> dict_get (m_payload m) ''network_id'' = Some (JStr n)
     \<and> dict_get (m_payload m) ''invite_code'' = Some (JStr c)"
  by (simp add: make_message_def construct_def NetworkCreated_def dict_has_def payload_from_dataclass_def type_of_instance_def reply_outcome_def)

lemma joined_message:
  "\<exists>m. make_message NetworkJoined [(''network_id'', JStr n), (''name'', JStr nm)] = Inr m
     \<and> reply_outcome ''NETWORK_JOINED'' m = Some (Inr m) \<and> dict_get (m_payload m) ''network_id'' = Some (JStr n)"
  by (simp add: make_message_def construct_def NetworkJoined_def dict_has_def payload_from_dataclass_def type_of_instance_def reply_outcome_def)

lemma announced:
  assumes "nm_inv (sv_networks s)" "is_member (sv_networks s) n c" "is_member (sv_networks s) n d" "c \<noteq> d"
    and "registry_get (sv_registry s) d = Some r" "online r" "dict_get (sv_writers s) d = Some w"
  shows "(w, make_message PeerOnline [(''network_id'', JStr n), (''peer_id'', JStr c)]) \<in> set (announce_peer_online c s)"
proof -
  have "(d, w) \<in> set (member_writers s n)"
    unfolding member_writers_iff [OF nm_invD(1) [OF assms(1)]] using assms nm_invD(4) [OF assms(1), of d n]
    by (simp add: in_network_def networks_for_def registry_get_def)
  moreover have "n \<in> set (networks_for (sv_registry s) c)" using assms(1,2) nm_invD(4) [of "sv_networks s" c n] by (simp add: in_network_def)
  ultimately show ?thesis using assms(4) by (force simp: announce_peer_online_def)
qed

section \<open>Creating and joining\<close>

lemma create_handled:
  assumes "create_network_request name password topo = Inr m" "NAME_RE name" "name \<noteq> []" "password \<noteq> []" "topo \<in> set SUPPORTED_TOPOLOGIES"
    and "hashpw (ev_bcrypt ev) (encode password) (ev_salt ev) = Some h" "\<not> dict_has (nm_networks (sv_networks s)) (ev_uuid ev)"
    and "nm_inv (sv_networks s)" "dict_has (sv_registry s) a" "on_create_network ev a w m s = (os, s', r)"
  shows "r = None \<and> (\<exists>reply code. (w, Inr reply) \<in> set os \<and> reply_outcome ''NETWORK_CREATED'' reply = Some (Inr reply)
      \<and> dict_get (m_payload reply) ''network_id'' = Some (JStr (ev_uuid ev)) \<and> dict_get (m_payload reply) ''invite_code'' = Some (JStr code))
    \<and> nm_inv (sv_networks s') \<and> is_member (sv_networks s') (ev_uuid ev) a
    \<and> (\<exists>rec. nm_get (sv_networks s') (ev_uuid ev) = Some rec \<and> password_hash rec = h \<and> network_id rec = ev_uuid ev)
    \<and> nm_banned (sv_networks s') = nm_banned (sv_networks s) \<and> sv_writers s' = sv_writers s
    \<and> (\<forall>c. map_option online (registry_get (sv_registry s') c) = map_option online (registry_get (sv_registry s) c))"
proof -
  let ?u = "ev_uuid ev"
  obtain rec m1 where c: "create (ev_bcrypt ev) (ev_now ev) ?u (ev_salt ev) name password a topo None (sv_networks s) = Inr (rec, m1)"
    using assms(5,6) by (simp add: create_def Let_def)
  note cr = create_Inr [OF c]
  have "\<exists>code m2. generate_invite_code (ev_draws ev) (ev_hex6 ev) (network_id rec) m1 = Inr (code, m2)"
    using cr by (auto simp: generate_invite_code_def Let_def split: option.splits)
  then obtain code m2 where g: "generate_invite_code (ev_draws ev) (ev_hex6 ev) (network_id rec) m1 = Inr (code, m2)" by blast
  note fr = generate_invite_code_frame [OF g]
  have inv1: "nm_inv m1" by (rule create_inv [OF assms(8) c assms(7,9)])
  then have inv: "nm_inv m2" using fr by (simp add: nm_inv_def is_member_def)
  have out: "r = None" "s' = s\<lparr>sv_networks := m2\<rparr>"
    "(w, make_message NetworkCreated [(''network_id'', JStr (network_id rec)), (''name'', JStr (net_name rec)), (''owner_id'', JStr a),
        (''topology'', JStr (topology rec)), (''invite_code'', JStr code)]) \<in> set os"
    using assms(10) create_request_valid [OF assms(1-5)] c g by (auto simp: on_create_network_def Let_def)
  moreover have "dict_get (nm_networks m2) ?u = Some rec" "nm_registry m2 = add_network a ?u (sv_registry s)" "nm_banned m2 = nm_banned (sv_networks s)"
    using cr fr by simp_all
  moreover obtain reply where "make_message NetworkCreated [(''network_id'', JStr (network_id rec)), (''name'', JStr (net_name rec)), (''owner_id'', JStr a),
        (''topology'', JStr (topology rec)), (''invite_code'', JStr code)] = Inr reply" "reply_outcome ''NETWORK_CREATED'' reply = Some (Inr reply)"
      "dict_get (m_payload reply) ''network_id'' = Some (JStr (network_id rec))" "dict_get (m_payload reply) ''invite_code'' = Some (JStr code)"
    using created_message by blast
  ultimately show ?thesis using cr inv assms(6)
    by (auto simp: is_member_def nm_get_def registry_get_def add_network_def map_option_case split: option.splits)
qed

lemma join_handled:
  assumes "join_network_request u password = Inr m" "u \<noteq> []" "password \<noteq> []"
    and "nm_inv (sv_networks t)" "nm_get (sv_networks t) u = Some rec" "network_id rec = u" "\<not> nm_is_banned (sv_networks t) u"
    and "checkpw (ev_bcrypt ev) (encode password) (password_hash rec) = Some True" "dict_has (sv_registry t) b"
    and "on_join_network ev b w m t = (os, t', r)"
  shows "r = None \<and> (\<exists>reply. (w, Inr reply) \<in> set os \<and> reply_outcome ''NETWORK_JOINED'' reply = Some (Inr reply)
      \<and> dict_get (m_payload reply) ''network_id'' = Some (JStr u))
    \<and> set (announce_peer_online b t') \<subseteq> set os \<and> nm_inv (sv_networks t') \<and> sv_writers t' = sv_writers t
    \<and> (\<forall>n c. is_member (sv_networks t') n c \<longleftrightarrow> is_member (sv_networks t) n c \<or> (n = u \<and> c = b))
    \<and> (\<forall>c. map_option online (registry_get (sv_registry t') c) = map_option online (registry_get (sv_registry t) c))"
proof -
  have j: "join_net (ev_bcrypt ev) u b password (sv_networks t) = (True, add_member u b (sv_networks t))"
    using assms(5,7,8) by (simp add: join_net_def nm_get_def)
  have "nm_inv (add_member u b (sv_networks t))" using join_net_inv [OF assms(4,9), of "ev_bcrypt ev" u password] j by simp
  moreover have "is_member (add_member u b (sv_networks t)) n c \<longleftrightarrow> is_member (sv_networks t) n c \<or> (n = u \<and> c = b)" for n c
    using assms(5) by (auto simp: is_member_def add_member_def nm_get_def split: option.splits)
  moreover obtain reply where "make_message NetworkJoined [(''network_id'', JStr (network_id rec)), (''name'', JStr (net_name rec))] = Inr reply"
      "reply_outcome ''NETWORK_JOINED'' reply = Some (Inr reply)" "dict_get (m_payload reply) ''network_id'' = Some (JStr (network_id rec))"
    using joined_message by blast
  moreover have "t' = t\<lparr>sv_networks := add_member u b (sv_networks t)\<rparr> \<and> r = None
    \<and> os = (w, make_message NetworkJoined [(''network_id'', JStr (network_id rec)), (''name'', JStr (net_name rec))]) # announce_peer_online b t'"
    using assms(5,7,10) join_request_valid [OF assms(1-3)] j by (auto simp: on_join_network_def Let_def)
  ultimately show ?thesis using assms(6)
    by (auto simp: add_member_def registry_get_def add_network_def option.map_comp o_def)
qed

text \<open>What may happen to the server between the two commands: anything that keeps the network with its password
  and its creator online and connected.\<close>

definition still_offered :: "string \<Rightarrow> string \<Rightarrow> nat \<Rightarrow> server \<Rightarrow> server \<Rightarrow> bool" where
  "still_offered u a wa s t \<longleftrightarrow>
     nm_inv (sv_networks t) \<and> is_member (sv_networks t) u a \<and> \<not> nm_is_banned (sv_networks t) u
     \<and> (case (nm_get (sv_networks s) u, nm_get (sv_networks t) u) of
          (Some r, Some r') \<Rightarrow> network_id r' = u \<and> password_hash r' = password_hash r | _ \<Rightarrow> False)
     \<and> map_option online (registry_get (sv_registry t) a) = Some True \<and> dict_get (sv_writers t) a = Some wa"

text \<open>C6: a network brings two clients together.  A registered client that creates a network through its control
  channel is told the identifier of the network, and another registered client that later joins with this
  identifier and the password, whatever the server did meanwhile that kept the network and its creator, is told that
  it joined; both are members, and the creator is told that the other one is online.  The hypothesis on bcrypt is
  that the hash of a password checks against it.\<close>

theorem network_brings_clients_together:
  assumes "nm_inv (sv_networks s)" and "dict_has (sv_registry s) a" and "a \<noteq> b"
    and "NAME_RE name" and "name \<noteq> []" and "password \<noteq> []" and "topo \<in> set SUPPORTED_TOPOLOGIES"
    and "ev_uuid ev1 \<noteq> []" and "\<not> dict_has (nm_networks (sv_networks s)) (ev_uuid ev1)"
    and "hashpw (ev_bcrypt ev1) (encode password) (ev_salt ev1) = Some h"
    and "checkpw (ev_bcrypt ev2) (encode password) h = Some True"
    and "create_network_request name password topo = Inr m1" and "on_create_network ev1 a wa m1 s = (os1, s1, r1)"
    and "still_offered (ev_uuid ev1) a wa s1 t" and "dict_has (sv_registry t) b"
    and "join_network_request (ev_uuid ev1) password = Inr m2" and "on_join_network ev2 b wb m2 t = (os2, t', r2)"
  shows "(\<exists>reply. (wa, Inr reply) \<in> set os1 \<and> reply_outcome ''NETWORK_CREATED'' reply = Some (Inr reply)
        \<and> dict_get (m_payload reply) ''network_id'' = Some (JStr (ev_uuid ev1)))
    \<and> (\<exists>reply. (wb, Inr reply) \<in> set os2 \<and> reply_outcome ''NETWORK_JOINED'' reply = Some (Inr reply))
    \<and> (\<exists>event. (wa, Inr event) \<in> set os2 \<and> m_type event = ''PEER_ONLINE'' \<and> dict_get (m_payload event) ''peer_id'' = Some (JStr b)
        \<and> dict_get (m_payload event) ''network_id'' = Some (JStr (ev_uuid ev1)))
    \<and> is_member (sv_networks t') (ev_uuid ev1) a \<and> is_member (sv_networks t') (ev_uuid ev1) b \<and> r1 = None \<and> r2 = None"
proof -
  let ?u = "ev_uuid ev1"
  note c = create_handled [OF assms(12,4-7,10,9,1,2,13)]
  obtain rec where rec: "nm_get (sv_networks t) ?u = Some rec" "network_id rec = ?u" "password_hash rec = h"
    using assms(14) c by (auto simp: still_offered_def split: option.splits)
  have st: "nm_inv (sv_networks t)" "is_member (sv_networks t) ?u a" "\<not> nm_is_banned (sv_networks t) ?u" "dict_get (sv_writers t) a = Some wa"
    "map_option online (registry_get (sv_registry t) a) = Some True"
    using assms(14) by (simp_all add: still_offered_def)
  note j = join_handled [OF assms(16,8,6) st(1) rec(1,2) st(3) assms(11) [folded rec(3)] assms(15,17)]
  then have mem: "is_member (sv_networks t') ?u a" "is_member (sv_networks t') ?u b" using st(2) by auto
  have "map_option online (registry_get (sv_registry t') a) = Some True" using j st(5) by simp
  then obtain ra where ra: "registry_get (sv_registry t') a = Some ra" "online ra" by auto
  have "(wa, make_message PeerOnline [(''network_id'', JStr ?u), (''peer_id'', JStr b)]) \<in> set (announce_peer_online b t')"
    by (rule announced [OF _ mem(2,1) _ ra]) (use j st(4) assms(3) in auto)
  moreover obtain event where "make_message PeerOnline [(''network_id'', JStr ?u), (''peer_id'', JStr b)] = Inr event"
    "m_type event = ''PEER_ONLINE''" "dict_get (m_payload event) ''peer_id'' = Some (JStr b)" "dict_get (m_payload event) ''network_id'' = Some (JStr ?u)"
    using peer_online_message by blast
  ultimately show ?thesis using c j mem by (auto simp: subset_iff)
qed

text \<open>A network without a password cannot be created or joined, although the command line offers it as the default.\<close>

lemma open_network_refused:
  "create_network_request name [] topo = Inr m \<Longrightarrow> \<exists>e. on_create_network ev a w m s = ([], s, Some (ProtocolError e))"
  "join_network_request nid [] = Inr m \<Longrightarrow> \<exists>e. on_join_network ev a w m s = ([], s, Some (ProtocolError e))"
  by (auto simp: create_network_request_def join_network_request_def make_message_def construct_def CreateNetwork_def JoinNetwork_def
      dict_has_def payload_from_dataclass_def on_create_network_def on_join_network_def validate_create_network_def
      validate_join_network_def require_def split: sum.splits)

text \<open>A client that joins is not told of the members that are already there.\<close>

lemma joiner_not_told:
  assumes "registry_wf (sv_registry s)" "(w, event) \<in> set (announce_peer_online c s)" "distinct (dict_values (sv_writers s))"
    "dict_get (sv_writers s) c = Some wc"
  shows "w \<noteq> wc"
proof
  assume w: "w = wc"
  obtain n d where d: "(d, w) \<in> set (member_writers s n)" "d \<noteq> c" using assms(2) by (auto simp: announce_peer_online_def)
  then have "dict_get (sv_writers s) d = Some w" unfolding member_writers_iff [OF assms(1)] by blast
  then have "(d, w) \<in> set (sv_writers s)" "(c, w) \<in> set (sv_writers s)" using assms(4) w by (auto dest: map_of_SomeD)
  then show False using assms(3) d(2) by (metis (no_types, lifting) distinct_map inj_onD snd_conv prod.inject)
qed

section \<open>Announcements at the daemon\<close>

text \<open>No announcement of the server names a virtual address, so it never adds a route: the daemon knows the peer and
  makes a tunnel to it, but packets of the TUN device are not sent to it.\<close>

lemma announced_peer_unroutable:
  assumes "(w, Inr event) \<in> set (announce_peer_online c s)"
  shows "d_ip_to_peer (fst (dispatch_event cr d event att)) = d_ip_to_peer d"
proof -
  obtain n where "make_message PeerOnline [(''network_id'', JStr n), (''peer_id'', JStr c)] = Inr event"
    using assms by (auto simp: announce_peer_online_def)
  then have e: "m_type event = ''PEER_ONLINE''" "text_field (m_payload event) ''peer_ip'' = Some []"
    using peer_online_message [of n c] by (auto simp: text_field_def)
  have keep: "d_ip_to_peer (fst (daemon_peer_online d p n (Some []))) = d_ip_to_peer d" for p n
    by (auto simp: daemon_peer_online_def Let_def split: option.splits sum.splits prod.splits)
  show ?thesis using e keep [of "text_field (m_payload event) ''peer_id''" "text_field (m_payload event) ''network_id''"]
    by (auto simp: dispatch_event_def Let_def create_tunnel_keeps_routes split: prod.splits)
qed

section \<open>Witness\<close>

definition two_clients :: server where
  "two_clients = (server_init 10 90 60 5)\<lparr>
     sv_networks := (nm_init demo_registry)\<lparr>nm_registry := snd (set_online 5 ''alice'' demo_registry)\<rparr>,
     sv_writers := [(''alice'', 1), (''bob'', 2)]\<rparr>"

lemma two_clients_state:
  "nm_inv (sv_networks two_clients)" "dict_has (sv_registry two_clients) ''alice''" "dict_has (sv_registry two_clients) ''bob''"
  "nm_networks (sv_networks two_clients) = []" "nm_banned (sv_networks two_clients) = []"
  "sv_writers two_clients = [(''alice'', 1), (''bob'', 2)]" "map_option online (registry_get (sv_registry two_clients) ''alice'') = Some True"
proof -
  have "nm_inv ((nm_init demo_registry)\<lparr>nm_registry := snd (set_online 5 ''alice'' demo_registry)\<rparr>)"
    by (rule nm_inv_registry [OF demo_registry_inv])
      (use nm_invD(1) [OF demo_registry_inv] in \<open>simp_all add: nm_init_def networks_for_set_online\<close>)
  then show "nm_inv (sv_networks two_clients)" by (simp add: two_clients_def)
qed (simp_all add: two_clients_def nm_init_def set_online_def demo_registry_def register_def registry_init_def new_client_record_def
    dict_has_def registry_get_def)

theorem network_brings_clients_together_witness:
  "\<exists>m1 m2 os1 s1 os2 t'. create_network_request ''lan'' ''pw'' ''mesh'' = Inr m1 \<and> on_create_network demo_env ''alice'' 1 m1 two_clients = (os1, s1, None)
     \<and> join_network_request ''n2'' ''pw'' = Inr m2 \<and> on_join_network demo_env ''bob'' 2 m2 s1 = (os2, t', None)
     \<and> is_member (sv_networks t') ''n2'' ''alice'' \<and> is_member (sv_networks t') ''n2'' ''bob''
     \<and> (\<exists>event. (1, Inr event) \<in> set os2 \<and> m_type event = ''PEER_ONLINE'' \<and> dict_get (m_payload event) ''peer_id'' = Some (JStr ''bob''))"
proof -
  have u: "ev_uuid demo_env = ''n2''" and h: "hashpw (ev_bcrypt demo_env) (encode ''pw'') (ev_salt demo_env) = Some (encode ''pw'')"
    "checkpw (ev_bcrypt demo_env) (encode ''pw'') (encode ''pw'') = Some True"
    by (simp_all add: demo_env_def toy_bcrypt_def)
  obtain m1 where m1: "create_network_request ''lan'' ''pw'' ''mesh'' = Inr m1"
    by (simp add: create_network_request_def make_message_def construct_def CreateNetwork_def dict_has_def)
  obtain m2 where m2: "join_network_request (ev_uuid demo_env) ''pw'' = Inr m2"
    by (simp add: join_network_request_def make_message_def construct_def JoinNetwork_def dict_has_def)
  obtain os1 s1 r1 where c: "on_create_network demo_env ''alice'' 1 m1 two_clients = (os1, s1, r1)" by (metis prod_cases3)
  obtain os2 t' r2 where j: "on_join_network demo_env ''bob'' 2 m2 s1 = (os2, t', r2)" by (metis prod_cases3)
  have n: "NAME_RE ''lan''" "''mesh'' \<in> set SUPPORTED_TOPOLOGIES" by code_simp+
  note st = two_clients_state
  have fresh: "\<not> dict_has (nm_networks (sv_networks two_clients)) (ev_uuid demo_env)" by (simp add: st(4) dict_has_def)
  note ch = create_handled [OF m1 n(1) _ _ n(2) h(1) fresh st(1,2) c, simplified]
  have "still_offered (ev_uuid demo_env) ''alice'' 1 s1 s1"
    using ch st(5-7) by (auto simp: still_offered_def nm_is_banned_def)
  moreover have "dict_has (sv_registry s1) ''bob''"
  proof -
    have "map_option online (registry_get (sv_registry s1) ''bob'') = map_option online (registry_get (sv_registry two_clients) ''bob'')"
      using ch by blast
    then show ?thesis using st(3) by (auto simp: dict_has_def registry_get_def)
  qed
  ultimately show ?thesis
    using network_brings_clients_together [OF st(1,2) _ n(1) _ _ n(2) _ fresh h m1 c _ _ m2 j] m1 m2 c j u by auto
qed

end
