(* ===== verification/Spec2Isabelle.thy ===== *)
theory Spec2Isabelle
  imports Frame Messages Protocol Registry Network_Manager Auth Relay Server_Properties
    Balancer Health Cache Topology Tunnel_Properties Daemon Handshake
    Http_Properties Connection Pool Tun Settings Identity Security Admin Master
    Proxy_Config Cli Startup Wizard Feedback Proxy_Main Lifecycle
begin

text \<open>
  Verification of the LocalNetwork ecosystem: a mediation server through which clients find each other and build
  virtual networks, the client that joins them with encrypted tunnels between peers, and a reverse proxy.  The
  theories of this directory translate the Python sources and prove the properties that make them correct.

  \<^bold>\<open>The programs and how they interact.\<close>  A client keeps a TCP connection to the server
  (\<^verbatim>\<open>control_channel.py\<close>), registers with the identifier of its RSA key, proves possession of the key
  by signing a challenge, and then creates and joins networks, asks for the addresses of peers and learns of their
  coming and going through length-prefixed JSON messages.  With the address of a peer it punches a UDP
  hole, agrees on a session key and exchanges packets of its TUN device, and streams of shared services,
  in frames encrypted with AES-GCM; the server can relay frames when punching fails.  The proxy is a separate
  program: a master process supervises workers, each of which parses HTTP requests, selects an upstream
  server and passes on requests, responses and WebSocket frames.

  \<^bold>\<open>Foundations.\<close>  \<open>Prelude\<close>: dictionaries as association lists in insertion order, Python exceptions as values,
  the locales of guarded and of invariant state machines.  \<open>Bytes\<close>: bytes, big-endian integers, hexadecimal, base64,
  and the locale of self-delimiting codecs.  \<open>Json\<close>: the JSON values, printer and parser with their round trip.
  \<open>Text\<close>: the string operations of Python that the sources use.

  \<^bold>\<open>Common modules.\<close>  \<open>Frame\<close> models \<^verbatim>\<open>common/frame.py\<close>, \<open>Messages\<close> models
  \<^verbatim>\<open>common/messages.py\<close> (every message class, the stream parser), \<open>Feedback\<close> the user-facing texts of
  \<^verbatim>\<open>common/errors.py\<close>, \<^verbatim>\<open>common/logging.py\<close> and \<^verbatim>\<open>client/status_indicator.py\<close>.  They show that a
  packed frame and any sequence of serialised messages are read back exactly.

  \<^bold>\<open>Server.\<close>  \<open>Protocol\<close>, \<open>Registry\<close>, \<open>Network_Manager\<close>, \<open>Auth\<close> and \<open>Relay\<close> model the modules of the same names
  under \<^verbatim>\<open>server/\<close>; \<open>Server\<close> models \<^verbatim>\<open>server/main.py\<close> with every handler as a function from
  the state to the messages sent, the next state and the exception raised, and the connection
  coroutine as a step on the bytes received.  \<open>Server_Invariant\<close> proves the invariant of the state (membership
  tables agree, members are registered, writers, queues and attempts bounded), \<open>Server_Properties\<close>
  that authentication needs a signature, that only the authenticated client changes its memberships, and what a
  disconnect does.  \<open>Admin\<close> models both web panels as far as they compute: sessions, credentials, the middleware
  and the data of the pages.  \<open>Settings\<close> models the configuration of server and client
  (\<^verbatim>\<open>server/config.py\<close>, \<^verbatim>\<open>client/config.py\<close>, the command lines) and
  \<^verbatim>\<open>client/platform_detection.py\<close>.

  \<^bold>\<open>Client.\<close>  \<open>Channel\<close> (\<^verbatim>\<open>control_channel.py\<close>), \<open>Identity\<close> (\<^verbatim>\<open>identity.py\<close>), \<open>Punch\<close>
  (\<^verbatim>\<open>encryption.py\<close>, \<^verbatim>\<open>nat_traversal.py\<close>), \<open>Topology\<close>, \<open>Tunnel\<close> (\<^verbatim>\<open>tunnel_manager.py\<close>,
  \<^verbatim>\<open>keepalive.py\<close>), \<open>Services\<close> (\<^verbatim>\<open>service_exposure.py\<close>, \<^verbatim>\<open>service_consumer.py\<close>), \<open>Tun\<close>
  (\<^verbatim>\<open>tun_interface.py\<close>), \<open>Daemon\<close> and \<open>Startup\<close> (the daemon of \<^verbatim>\<open>client/main.py\<close>: events and
  bridging, start and shutdown), \<open>Cli\<close> (the management commands of the same file) and \<open>Wizard\<close>
  (\<^verbatim>\<open>setup_wizard.py\<close>).  \<open>Handshake\<close> and \<open>Identity\<close> compose client and server: a client with key files made by
  the program is authenticated over the bytes of the connection; \<open>Lifecycle\<close> follows them further: a network
  created by one client is joined by another one, and its creator is told.  \<open>Tunnel_Properties\<close> composes two tunnel
  managers: they agree on the key and deliver packets unchanged.  The topology managers are shown to refine the
  set of links that their topology prescribes, all three through one locale.  \<open>Startup\<close> composes identity, TUN device
  and daemon: a run leaves no descriptor, task or channel behind.

  \<^bold>\<open>Proxy.\<close>  \<open>Balancer\<close>, \<open>Health\<close> (with the rate limiter), \<open>Cache\<close>, \<open>Pool\<close>, \<open>Proxy_Status\<close>, \<open>Security\<close> (access rules
  with the address syntax of \<^verbatim>\<open>ipaddress\<close>, basic authentication), \<open>Http\<close>, \<open>Static\<close>, \<open>Websocket\<close> and
  \<open>Connection\<close> (\<^verbatim>\<open>proxy/connection.py\<close>, \<^verbatim>\<open>proxy/compression.py\<close> and \<^verbatim>\<open>proxy/websocket.py\<close>),
  \<open>Master\<close> (master process, stream proxy, TLS contexts, access log), \<open>Proxy_Config\<close> (\<^verbatim>\<open>proxy/config.py\<close>) and
  \<open>Proxy_Main\<close> (worker process, command line, panel).  The lemmas show among other things that routing is the longest
  matching prefix, that every request is answered once, what is sent upstream, that counters are balanced, that
  the cache keeps its budget, that pooled connections are exclusive, that static files are confined and that the
  master keeps its workers.

  \<^bold>\<open>How code becomes definitions.\<close>  A class is a record and a method a function on it; a dictionary keeps the order of
  insertion; a Python set is a list without duplicates.  Exceptions are values of the sum type of the
  result, so each early return and each raise is a branch.  Strings are lists of UTF-8 bytes; case conversion and
  stripping are those of ASCII.  Integers are unbounded as in Python; bytes and packed fields are words or
  natural numbers with the range checks of \<^verbatim>\<open>struct\<close>.  Time is a real argument.  A coroutine is split at its
  waits, with what it waited for as an argument, and a handler between two waits is one step; runs are
  sequences of events, and the guards of a run say which events the environment may produce.

  \<^bold>\<open>Code outside the repository\<close> is a parameter: bcrypt, RSA, X25519, HKDF and AES-GCM, hashes, zlib, the file
  system, the kernel, the resolver, random identifiers and nonces.  What a theorem needs of them is a named
  hypothesis (\<open>crypto_ok\<close>, \<open>signs\<close>, \<open>key_laws\<close>, \<open>env_ok\<close> and the like) with a witness that has a concrete instance.

  \<^bold>\<open>Termination and bounds.\<close>  Loops are recursive functions with termination proofs.  Where a loop of the code can run
  for ever the result is \<open>None\<close>: the chunk parser of \<open>Http\<close> (proved to return unless it meets a negative chunk size), the
  connection loop when the parser does not return, and the password prompt of \<open>Wizard\<close> at the end of the input.
  The JSON parser takes fuel, for which the length of the text is proved to suffice.

  \<^bold>\<open>Not modelled.\<close>  Sockets and the asyncio event loop as such; failures of sending on an established
  connection; cancellation of tasks at arbitrary points; HTML templates, static pages, route tables and log streams of
  the panels; argparse; the fork into the background; reading YAML; the TLS handshake
  (\<^verbatim>\<open>wrap_connection\<close>); the smoke test.  They only call the operating system or libraries.
\<close>

end
